(* ===== verification/Prelude.thy ===== *)
theory Prelude
  imports Main "HOL-Library.Word"
begin

text \<open>
  Shared vocabulary of the development.

  \<^item> Results: a Python function that may raise is a value of \<open>exc + 'a\<close>; \<open>rbind\<close> sequences two
    such computations and stops at the first exception.
  \<^item> Python strings: a \<open>string\<close> stands for a sequence of code points below 256, with the
    operations of \<^verbatim>\<open>str\<close> the sources use (\<open>strip\<close>, \<open>upper\<close>, \<open>lower\<close>, \<open>isdigit\<close>, \<open>int(s)\<close>,
    \<open>str(n)\<close>, the \<open>:02d\<close>, \<open>:09d\<close> and \<open>:04X\<close> formats, UTF-8 \<open>encode\<close>).  Case mapping is
    written out for ASCII letters.
  \<^item> Instants: a timezone-aware \<^verbatim>\<open>datetime\<close> is an \<open>int\<close>, microseconds since the epoch, which is the
    resolution of the Python type; \<open>seconds\<close> and \<open>days\<close> build a \<^verbatim>\<open>timedelta\<close>.
  \<^item> Tables: a database table is the list of its rows in primary-key order of insertion;
    \<open>tget\<close> is \<^verbatim>\<open>session.get\<close>, \<open>tupd\<close> an assignment to the fields of one row, \<open>tadd\<close> is
    \<^verbatim>\<open>session.add\<close> followed by a flush.
\<close>

named_theorems py_simps \<open>rewrite rules for the Python string primitives\<close>
named_theorems table_simps \<open>rewrite rules for rows of a table\<close>

section \<open>Exceptions and results\<close>

datatype exc =
    HTTPException (status_code: int) (detail: string)
  | ValueError string
  | RuntimeError string

type_synonym 'a result = "exc + 'a"

definition rbind :: "'a result \<Rightarrow> ('a \<Rightarrow> 'b result) \<Rightarrow> 'b result" where
  "rbind m f = (case m of Inl e \<Rightarrow> Inl e | Inr x \<Rightarrow> f x)"

lemma rbind_simps [simp]:
  "rbind (Inl e) f = Inl e"
  "rbind (Inr x) f = f x"
  by (simp_all add: rbind_def)

lemma rbind_eq_Inr [simp]:
  "rbind m f = Inr y \<longleftrightarrow> (\<exists>x. m = Inr x \<and> f x = Inr y)"
  by (cases m) simp_all

lemma rbind_eq_Inl:
  "rbind m f = Inl e \<longleftrightarrow> m = Inl e \<or> (\<exists>x. m = Inr x \<and> f x = Inl e)"
  by (cases m) simp_all

lemma rbind_assoc: "rbind (rbind m f) g = rbind m (\<lambda>x. rbind (f x) g)"
  by (cases m) simp_all

definition guard :: "bool \<Rightarrow> exc \<Rightarrow> unit result" where
  "guard ok e = (if ok then Inr () else Inl e)"

lemma guard_simps [simp]:
  "guard True e = Inr ()"
  "guard False e = Inl e"
  by (simp_all add: guard_def)

lemma guard_eq_Inr [simp]: "guard ok e = Inr u \<longleftrightarrow> ok"
  by (simp add: guard_def)

lemma guard_eq_Inl [simp]: "guard ok e = Inl e' \<longleftrightarrow> \<not> ok \<and> e' = e"
  by (auto simp: guard_def)

text \<open>\<open>returns m P\<close>: if the computation returns, its value satisfies \<open>P\<close>.  Used to carry an invariant
  through a chain of calls; that a call does return is always stated separately.\<close>

definition returns :: "'a result \<Rightarrow> ('a \<Rightarrow> bool) \<Rightarrow> bool" where
  "returns m P \<longleftrightarrow> (\<forall>x. m = Inr x \<longrightarrow> P x)"

lemma returns_simps [simp]:
  "returns (Inr x) P = P x"
  "returns (Inl e) P"
  by (simp_all add: returns_def)

lemma returns_rbind: "(\<And>x. m = Inr x \<Longrightarrow> returns (f x) P) \<Longrightarrow> returns (rbind m f) P"
  by (auto simp: returns_def)

lemma returns_rbind_pre:
  "returns m Q \<Longrightarrow> (\<And>x. Q x \<Longrightarrow> returns (f x) P) \<Longrightarrow> returns (rbind m f) P"
  by (auto simp: returns_def)

lemma returns_if: "(b \<Longrightarrow> returns m P) \<Longrightarrow> (\<not> b \<Longrightarrow> returns n P) \<Longrightarrow> returns (if b then m else n) P"
  by simp

lemma returnsD: "returns m P \<Longrightarrow> m = Inr x \<Longrightarrow> P x"
  by (simp add: returns_def)

lemmas returns_intros = returns_rbind returns_if

section \<open>Python strings and integers\<close>

abbreviation code :: "char \<Rightarrow> nat" where
  "code c \<equiv> of_char c"

definition is_dec :: "char \<Rightarrow> bool" where
  "is_dec c \<longleftrightarrow> 48 \<le> code c \<and> code c \<le> 57"

definition dec_val :: "char \<Rightarrow> int" where
  "dec_val c = int (code c) - 48"

definition dec_digit :: "nat \<Rightarrow> char" where
  "dec_digit d = char_of (48 + d)"

text \<open>\<open>str.isdigit\<close> also accepts the superscripts one, two and three of Latin-1.\<close>

definition py_isdigit_char :: "char \<Rightarrow> bool" where
  "py_isdigit_char c \<longleftrightarrow> is_dec c \<or> code c \<in> {178, 179, 185}"

definition py_isdigit :: "string \<Rightarrow> bool" where
  "py_isdigit s \<longleftrightarrow> s \<noteq> [] \<and> list_all py_isdigit_char s"

definition py_isspace_char :: "char \<Rightarrow> bool" where
  "py_isspace_char c \<longleftrightarrow> code c \<in> {9, 10, 11, 12, 13, 28, 29, 30, 31, 32, 133, 160}"

definition py_strip :: "string \<Rightarrow> string" where
  "py_strip s = rev (dropWhile py_isspace_char (rev (dropWhile py_isspace_char s)))"

definition upper_char :: "char \<Rightarrow> char" where
  "upper_char c = (if 97 \<le> code c \<and> code c \<le> 122 then char_of (code c - 32) else c)"

definition lower_char :: "char \<Rightarrow> char" where
  "lower_char c = (if 65 \<le> code c \<and> code c \<le> 90 then char_of (code c + 32) else c)"

definition py_upper :: "string \<Rightarrow> string" where
  "py_upper = map upper_char"

definition py_lower :: "string \<Rightarrow> string" where
  "py_lower = map lower_char"

text \<open>\<open>int(s)\<close>: surrounding white space, an optional sign, decimal digits with single underscores
  between them; \<open>None\<close> is the \<^verbatim>\<open>ValueError\<close>.\<close>

fun dec_tail :: "int \<Rightarrow> string \<Rightarrow> int option" where
  "dec_tail acc [] = Some acc"
| "dec_tail acc (c # cs) =
     (if is_dec c then dec_tail (10 * acc + dec_val c) cs
      else if c = CHR ''_'' then
        (case cs of [] \<Rightarrow> None
         | d # ds \<Rightarrow> if is_dec d then dec_tail (10 * acc + dec_val d) ds else None)
      else None)"

definition dec_unsigned :: "string \<Rightarrow> int option" where
  "dec_unsigned s =
     (case s of [] \<Rightarrow> None | c # cs \<Rightarrow> if is_dec c then dec_tail (dec_val c) cs else None)"

definition py_int :: "string \<Rightarrow> int option" where
  "py_int s =
     (case py_strip s of
        [] \<Rightarrow> None
      | c # cs \<Rightarrow>
          if c = CHR ''-'' then map_option uminus (dec_unsigned cs)
          else if c = CHR ''+'' then dec_unsigned cs
          else dec_unsigned (c # cs))"

fun nat_str :: "nat \<Rightarrow> string" where
  "nat_str n = (if n < 10 then [dec_digit n] else nat_str (n div 10) @ [dec_digit (n mod 10)])"

declare nat_str.simps [simp del]

definition int_str :: "int \<Rightarrow> string" where
  "int_str i = (if i < 0 then CHR ''-'' # nat_str (nat (- i)) else nat_str (nat i))"

definition pad0 :: "nat \<Rightarrow> string \<Rightarrow> string" where
  "pad0 w s = replicate (w - length s) CHR ''0'' @ s"

text \<open>\<open>s.split(c)\<close> and \<open>s.partition(c)\<close> for a one-character separator.\<close>

fun py_split :: "char \<Rightarrow> string \<Rightarrow> string list" where
  "py_split c [] = [[]]"
| "py_split c (x # xs) =
     (if x = c then [] # py_split c xs
      else case py_split c xs of [] \<Rightarrow> [[x]] | y # ys \<Rightarrow> (x # y) # ys)"

definition py_partition :: "char \<Rightarrow> string \<Rightarrow> string \<times> string" where
  "py_partition c s = (takeWhile (\<lambda>x. x \<noteq> c) s, tl (dropWhile (\<lambda>x. x \<noteq> c) s))"

text \<open>\<open>a or b\<close> on optional strings: the empty string is false.\<close>

definition or_str :: "string option \<Rightarrow> string \<Rightarrow> string" where
  "or_str a b = (case a of None \<Rightarrow> b | Some s \<Rightarrow> if s = [] then b else s)"

text \<open>\<open>p in s\<close> on strings.\<close>

fun py_contains :: "string \<Rightarrow> string \<Rightarrow> bool" where
  "py_contains p [] = (p = [])"
| "py_contains p (c # cs) = (take (length p) (c # cs) = p \<or> py_contains p cs)"

definition hex_digit :: "nat \<Rightarrow> char" where
  "hex_digit d = (if d < 10 then char_of (48 + d) else char_of (55 + d))"

definition hex4 :: "nat \<Rightarrow> string" where
  "hex4 n = [hex_digit (n div 4096 mod 16), hex_digit (n div 256 mod 16),
             hex_digit (n div 16 mod 16), hex_digit (n mod 16)]"

definition utf8_char :: "char \<Rightarrow> 8 word list" where
  "utf8_char c =
     (if code c < 128 then [of_nat (code c)]
      else [of_nat (192 + code c div 64), of_nat (128 + code c mod 64)])"

definition py_encode :: "string \<Rightarrow> 8 word list" where
  "py_encode s = concat (map utf8_char s)"

lemma code_dec_digit [simp]: "d < 10 \<Longrightarrow> code (dec_digit d) = 48 + d"
  by (simp add: dec_digit_def)

lemma is_dec_dec_digit [simp]: "d < 10 \<Longrightarrow> is_dec (dec_digit d)"
  by (simp add: is_dec_def)

lemma dec_val_dec_digit [simp]: "d < 10 \<Longrightarrow> dec_val (dec_digit d) = int d"
  by (simp add: dec_val_def)

lemma is_dec_isdigit [simp]: "is_dec c \<Longrightarrow> py_isdigit_char c"
  by (simp add: py_isdigit_char_def)

lemma is_dec_not_space [simp]: "is_dec c \<Longrightarrow> \<not> py_isspace_char c"
  by (auto simp: is_dec_def py_isspace_char_def)

lemma is_dec_not_sign: "is_dec c \<Longrightarrow> c \<noteq> CHR ''-'' \<and> c \<noteq> CHR ''+''"
  by (auto simp: is_dec_def)

lemma minus_not_space: "\<not> py_isspace_char CHR ''-''"
  by (simp add: py_isspace_char_def)

lemma nat_str_digits: "list_all is_dec (nat_str n)"
proof (induction n rule: nat_str.induct)
  case (1 n)
  show ?case
    by (subst nat_str.simps) (use 1 in auto)
qed

lemma nat_str_nonempty [simp]: "nat_str n \<noteq> []"
  by (subst nat_str.simps) simp

lemma length_nat_str: "k > 0 \<Longrightarrow> length (nat_str n) \<le> k \<longleftrightarrow> n < 10 ^ k"
proof (induction n arbitrary: k rule: nat_str.induct)
  case (1 n)
  show ?case
  proof (cases "n < 10")
    case True
    have "(10::nat) ^ 1 \<le> 10 ^ k"
      using "1.prems" by (intro power_increasing) auto
    with True "1.prems" show ?thesis
      by (subst nat_str.simps) auto
  next
    case False
    show ?thesis
    proof (cases "k = 1")
      case True
      then show ?thesis
        using False by (subst nat_str.simps) simp
    next
      case k: False
      then obtain j where j: "k = Suc j" "j > 0"
        using "1.prems" by (cases k) auto
      have "length (nat_str (n div 10)) \<le> j \<longleftrightarrow> n div 10 < 10 ^ j"
        using "1.IH" [OF False j(2)] .
      also have "\<dots> \<longleftrightarrow> n < 10 ^ k"
        by (simp add: j div_less_iff_less_mult mult.commute)
      finally show ?thesis
        using False j by (subst nat_str.simps) simp
    qed
  qed
qed

lemma length_nat_str_eq:
  assumes "10 ^ k \<le> n" and "n < 10 ^ Suc k"
  shows "length (nat_str n) = Suc k"
proof (cases "k = 0")
  case True
  then show ?thesis
    using assms length_nat_str [of 1 n] nat_str_nonempty [of n]
    by (cases "nat_str n") auto
next
  case False
  then show ?thesis
    using assms length_nat_str [of "Suc k" n] length_nat_str [of k n] by auto
qed

lemma py_strip_no_space: "list_all (\<lambda>c. \<not> py_isspace_char c) s \<Longrightarrow> py_strip s = s"
proof -
  assume s: "list_all (\<lambda>c. \<not> py_isspace_char c) s"
  have drop: "dropWhile py_isspace_char t = t" if "list_all (\<lambda>c. \<not> py_isspace_char c) t" for t
    using that by (cases t) auto
  have "list_all (\<lambda>c. \<not> py_isspace_char c) (rev s)"
    using s by (simp add: list_all_iff)
  with s show ?thesis
    by (simp add: py_strip_def drop)
qed

lemma list_all_is_dec_strip [simp]: "list_all is_dec s \<Longrightarrow> py_strip s = s"
  by (rule py_strip_no_space) (auto simp: list_all_iff)

lemma int_str_chars: "c \<in> set (int_str i) \<Longrightarrow> c = CHR ''-'' \<or> is_dec c"
  using nat_str_digits [of "nat i"] nat_str_digits [of "nat (- i)"]
  by (auto simp: int_str_def list_all_iff split: if_splits)

lemma py_strip_int_str [py_simps]: "py_strip (int_str i) = int_str i"
  by (rule py_strip_no_space) (auto simp: list_all_iff minus_not_space dest!: int_str_chars)

lemma int_str_nonempty [simp]: "int_str i \<noteq> []"
  by (simp add: int_str_def)

lemma dec_tail_append:
  "list_all is_dec s \<Longrightarrow> dec_tail acc (s @ [c]) =
     (if is_dec c then map_option (\<lambda>v. 10 * v + dec_val c) (dec_tail acc s) else
        dec_tail acc (s @ [c]))"
  by (induction s arbitrary: acc) auto

lemma dec_unsigned_nat_str: "dec_unsigned (nat_str n) = Some (int n)"
proof (induction n rule: nat_str.induct)
  case (1 n)
  show ?case
  proof (cases "n < 10")
    case True
    then show ?thesis
      by (subst nat_str.simps) (simp add: dec_unsigned_def)
  next
    case False
    obtain c cs where s: "nat_str (n div 10) = c # cs"
      by (cases "nat_str (n div 10)") auto
    have dec: "is_dec c" "list_all is_dec cs"
      using nat_str_digits [of "n div 10"] s by auto
    have IH: "dec_tail (dec_val c) cs = Some (int (n div 10))"
      using "1.IH" False s dec by (simp add: dec_unsigned_def)
    have "dec_unsigned (nat_str n) = Some (10 * int (n div 10) + int (n mod 10))"
      using False s dec IH
      by (subst nat_str.simps)
        (simp add: dec_unsigned_def dec_tail_append [OF dec(2)])
    also have "10 * int (n div 10) + int (n mod 10) = int n"
      by presburger
    finally show ?thesis .
  qed
qed

text \<open>Printing an integer and reading it back is the identity.\<close>

lemma py_int_int_str [py_simps]: "py_int (int_str i) = Some i"
proof (cases "i < 0")
  case False
  obtain c cs where s: "nat_str (nat i) = c # cs"
    by (cases "nat_str (nat i)") auto
  have "is_dec c"
    using nat_str_digits [of "nat i"] s by simp
  then show ?thesis
    using False dec_unsigned_nat_str [of "nat i"] nat_str_digits [of "nat i"] s
    by (simp add: py_int_def int_str_def is_dec_not_sign)
next
  case True
  then show ?thesis
    using dec_unsigned_nat_str [of "nat (- i)"] py_strip_int_str [of i]
    by (simp add: py_int_def int_str_def)
qed

lemma py_split_no_sep: "c \<notin> set s \<Longrightarrow> py_split c s = [s]"
  by (induction s) auto

lemma py_split_sep: "c \<notin> set s \<Longrightarrow> py_split c (s @ c # t) = s # py_split c t"
  by (induction s) auto

text \<open>Joining the pieces again.\<close>

fun py_join :: "char \<Rightarrow> string list \<Rightarrow> string" where
  "py_join c [] = []"
| "py_join c [x] = x"
| "py_join c (x # y # r) = x @ c # py_join c (y # r)"

lemma py_split_nonempty [simp]: "py_split c s \<noteq> []"
  by (induction s) (auto split: list.splits)

lemma py_split_join: "py_join c (py_split c s) = s"
proof (induction s)
  case (Cons x s)
  obtain y ys where split: "py_split c s = y # ys"
    by (cases "py_split c s") auto
  then have join: "py_join c (y # ys) = s"
    using Cons by simp
  have "py_join c ([] # y # ys) = c # s" "py_join c ((x # y) # ys) = x # s"
    using join by (cases ys; simp)+
  then show ?case
    by (simp add: split)
qed simp

lemma py_partition_sep: "c \<notin> set s \<Longrightarrow> py_partition c (s @ c # t) = (s, t)"
proof -
  assume "c \<notin> set s"
  then have "takeWhile (\<lambda>x. x \<noteq> c) (s @ c # t) = s" "dropWhile (\<lambda>x. x \<noteq> c) (s @ c # t) = c # t"
    by (induction s) auto
  then show ?thesis
    by (simp add: py_partition_def)
qed

lemma length_pad0 [simp]: "length (pad0 w s) = max w (length s)"
  by (simp add: pad0_def)

lemma length_hex4 [simp]: "length (hex4 n) = 4"
  by (simp add: hex4_def)

section \<open>Instants\<close>

type_synonym instant = int

definition seconds :: "int \<Rightarrow> int" where
  "seconds n = n * 1000000"

definition days :: "int \<Rightarrow> int" where
  "days n = n * 86400000000"

definition epoch_seconds :: "instant \<Rightarrow> int" where
  "epoch_seconds t = t div 1000000"

lemma seconds_mono [simp]: "seconds a \<le> seconds b \<longleftrightarrow> a \<le> b" "seconds a < seconds b \<longleftrightarrow> a < b"
  by (auto simp: seconds_def)

lemma days_mono [simp]: "days a \<le> days b \<longleftrightarrow> a \<le> b" "days a < days b \<longleftrightarrow> a < b"
  by (auto simp: days_def)

section \<open>Tables\<close>

definition tget :: "('r \<Rightarrow> int) \<Rightarrow> int \<Rightarrow> 'r list \<Rightarrow> 'r option" where
  "tget key k t = find (\<lambda>r. key r = k) t"

definition tupd :: "('r \<Rightarrow> int) \<Rightarrow> int \<Rightarrow> ('r \<Rightarrow> 'r) \<Rightarrow> 'r list \<Rightarrow> 'r list" where
  "tupd key k f t = map (\<lambda>r. if key r = k then f r else r) t"

definition tmodify :: "('r \<Rightarrow> bool) \<Rightarrow> ('r \<Rightarrow> 'r) \<Rightarrow> 'r list \<Rightarrow> 'r list" where
  "tmodify P f t = map (\<lambda>r. if P r then f r else r) t"

definition tadd :: "'r \<Rightarrow> 'r list \<Rightarrow> 'r list" where
  "tadd r t = t @ [r]"

text \<open>The next value of an autoincrement primary key.\<close>

definition fresh_id :: "('r \<Rightarrow> int) \<Rightarrow> 'r list \<Rightarrow> int" where
  "fresh_id key t = 1 + foldr max (map key t) 0"

text \<open>\<open>Query.limit\<close>; a negative limit does not occur in the sources.\<close>

definition limit :: "int \<Rightarrow> 'r list \<Rightarrow> 'r list" where
  "limit n t = take (nat n) t"

text \<open>\<open>Result.scalar_one_or_none\<close>: a second row is an error.\<close>

definition scalar_one_or_none :: "'r list \<Rightarrow> 'r option result" where
  "scalar_one_or_none rs =
     (case rs of [] \<Rightarrow> Inr None | [x] \<Rightarrow> Inr (Some x) | _ \<Rightarrow> Inl (RuntimeError ''MultipleResultsFound''))"

lemma scalar_one_or_none_simps [simp]:
  "scalar_one_or_none [] = Inr None"
  "scalar_one_or_none [x] = Inr (Some x)"
  "scalar_one_or_none (x # y # rs) = Inl (RuntimeError ''MultipleResultsFound'')"
  by (simp_all add: scalar_one_or_none_def)

lemma scalar_one_or_none_Inr:
  "scalar_one_or_none rs = Inr r \<longleftrightarrow> (case r of None \<Rightarrow> rs = [] | Some x \<Rightarrow> rs = [x])"
  by (auto simp: scalar_one_or_none_def split: list.splits option.splits)

lemma filter_single_mem: "filter P t = [x] \<Longrightarrow> x \<in> set t \<and> P x"
proof -
  assume "filter P t = [x]"
  then have "x \<in> set (filter P t)"
    by simp
  then show ?thesis by simp
qed

lemma scalar_one_or_none_mem: "scalar_one_or_none (filter P t) = Inr (Some x) \<Longrightarrow> x \<in> set t \<and> P x"
  by (auto simp: scalar_one_or_none_Inr dest: filter_single_mem)

lemma fresh_id_greater: "r \<in> set t \<Longrightarrow> key r < fresh_id key t"
proof (induction t)
  case (Cons x t)
  then show ?case
    by (auto simp: fresh_id_def)
qed simp

lemma fresh_id_not_used: "fresh_id key t \<notin> key ` set t"
  using fresh_id_greater [of _ t key] by force

text \<open>The interface every component has to its tables: a primary key, lookup, update of one row in
  place, insertion of a row with an unused key.\<close>

locale keyed_table =
  fixes key :: "'r \<Rightarrow> int"
    and get :: "int \<Rightarrow> 'r list \<Rightarrow> 'r option"
    and upd :: "int \<Rightarrow> ('r \<Rightarrow> 'r) \<Rightarrow> 'r list \<Rightarrow> 'r list"
    and add :: "'r \<Rightarrow> 'r list \<Rightarrow> 'r list"
    and wf :: "'r list \<Rightarrow> bool"
  assumes get_Some: "wf t \<Longrightarrow> get k t = Some r \<longleftrightarrow> r \<in> set t \<and> key r = k"
    and set_upd: "wf t \<Longrightarrow> (\<And>r. key (f r) = key r) \<Longrightarrow>
      set (upd k f t) = {if key r = k then f r else r | r. r \<in> set t}"
    and wf_upd: "wf t \<Longrightarrow> (\<And>r. key (f r) = key r) \<Longrightarrow> wf (upd k f t)"
    and set_add: "set (add r t) = insert r (set t)"
    and wf_add: "wf t \<Longrightarrow> key r \<notin> key ` set t \<Longrightarrow> wf (add r t)"
begin

lemma get_None: "wf t \<Longrightarrow> get k t = None \<longleftrightarrow> k \<notin> key ` set t"
proof -
  assume t: "wf t"
  show ?thesis
  proof (cases "get k t")
    case None
    then have "\<not> (r \<in> set t \<and> key r = k)" for r
      using get_Some [OF t, of k r] by simp
    with None show ?thesis by auto
  next
    case (Some r)
    then show ?thesis
      using get_Some [OF t, of k r] by auto
  qed
qed

lemma get_unique: "wf t \<Longrightarrow> r \<in> set t \<Longrightarrow> get (key r) t = Some r"
  by (simp add: get_Some)

lemma rows_eq:
  assumes "wf t" "r \<in> set t" "s \<in> set t" "key r = key s"
  shows "r = s"
proof -
  have "Some r = get (key s) t"
    using get_unique [OF assms(1,2)] assms(4) by simp
  also have "\<dots> = Some s"
    using assms(1,3) by (rule get_unique)
  finally show ?thesis by simp
qed

lemma get_upd_same:
  assumes "wf t" "\<And>r. key (f r) = key r" "get k t = Some r"
  shows "get k (upd k f t) = Some (f r)"
proof -
  have "f r \<in> set (upd k f t)" "key (f r) = k"
    using assms by (auto simp: set_upd get_Some)
  then show ?thesis
    using wf_upd [OF assms(1,2)] by (simp add: get_Some)
qed

lemma get_upd_other:
  assumes "wf t" "\<And>r. key (f r) = key r" "j \<noteq> k"
  shows "get j (upd k f t) = get j t"
proof -
  have "r \<in> set (upd k f t) \<and> key r = j \<longleftrightarrow> r \<in> set t \<and> key r = j" for r
    unfolding set_upd [OF assms(1,2)] using assms(2,3) by force
  then have "get j (upd k f t) = Some r \<longleftrightarrow> get j t = Some r" for r
    by (simp add: get_Some wf_upd assms(1,2))
  then show ?thesis
    by (metis option.exhaust)
qed

lemma get_add_new:
  assumes "wf t" "key r \<notin> key ` set t"
  shows "get j (add r t) = (if j = key r then Some r else get j t)"
proof -
  have "get j (add r t) = Some s \<longleftrightarrow> (if j = key r then s = r else get j t = Some s)" for s
    using assms wf_add [OF assms] by (auto simp: get_Some set_add image_iff)
  then show ?thesis
    by (metis option.exhaust)
qed

end

definition distinct_keys :: "('r \<Rightarrow> int) \<Rightarrow> 'r list \<Rightarrow> bool" where
  "distinct_keys key t \<longleftrightarrow> distinct (map key t)"

lemma tget_Some:
  "distinct_keys key t \<Longrightarrow> tget key k t = Some r \<longleftrightarrow> r \<in> set t \<and> key r = k"
  by (induction t) (auto simp: tget_def distinct_keys_def image_iff)

lemma map_key_tupd [table_simps]:
  "(\<And>r. key (f r) = key r) \<Longrightarrow> map key (tupd key k f t) = map key t"
  by (simp add: tupd_def o_def)

lemma map_key_tmodify [table_simps]:
  "(\<And>r. key (f r) = key r) \<Longrightarrow> map key (tmodify P f t) = map key t"
  by (simp add: tmodify_def o_def)

lemma distinct_keys_tmodify:
  "distinct_keys key t \<Longrightarrow> (\<And>r. key (f r) = key r) \<Longrightarrow> distinct_keys key (tmodify P f t)"
  by (simp add: distinct_keys_def map_key_tmodify)

lemma set_tmodify: "set (tmodify P f t) = {if P r then f r else r | r. r \<in> set t}"
  by (auto simp: tmodify_def)

lemma length_tmodify [simp]: "length (tmodify P f t) = length t"
  by (simp add: tmodify_def)

lemma distinct_keys_tadd_fresh:
  "distinct_keys key t \<Longrightarrow> key r = fresh_id key t \<Longrightarrow> distinct_keys key (tadd r t)"
  using fresh_id_not_used [of key t] by (simp add: tadd_def distinct_keys_def)

interpretation rows: keyed_table key "tget key" "tupd key" tadd "distinct_keys key"
  for key :: "'r \<Rightarrow> int"
proof unfold_locales
  fix t :: "'r list" and k r
  show "distinct_keys key t \<Longrightarrow> tget key k t = Some r \<longleftrightarrow> r \<in> set t \<and> key r = k"
    by (rule tget_Some)
next
  fix t :: "'r list" and f k
  assume "distinct_keys key t" "\<And>r. key (f r) = key r"
  then show "distinct_keys key (tupd key k f t)"
    by (simp add: distinct_keys_def map_key_tupd)
qed (auto simp: tupd_def tadd_def distinct_keys_def image_iff)


text \<open>Updating the one row a query finds: it stays the one row, or is found no longer.\<close>

lemma filter_tupd:
  assumes "distinct_keys key t" "filter P t = [l]"
  shows "filter P (tupd key (key l) f t) = (if P (f l) then [f l] else [])"
    and "P (f l) \<Longrightarrow> filter (\<lambda>x. \<not> P x) (tupd key (key l) f t) = filter (\<lambda>x. \<not> P x) t"
proof -
  have l: "l \<in> set t" "\<And>x. x \<in> set t \<Longrightarrow> P x \<longleftrightarrow> x = l"
    using arg_cong [OF assms(2), of set] by auto
  then have row: "\<forall>x \<in> set t. (P x \<longleftrightarrow> x = l) \<and> (key x = key l \<longrightarrow> x = l)"
    using rows.rows_eq [OF assms(1) _ l(1)] by auto
  then have "filter P (tupd key (key l) f t) = (if P (f l) then map f (filter P t) else [])"
    unfolding tupd_def by (induction t) auto
  with assms(2) show "filter P (tupd key (key l) f t) = (if P (f l) then [f l] else [])"
    by simp
  show "filter (\<lambda>x. \<not> P x) (tupd key (key l) f t) = filter (\<lambda>x. \<not> P x) t" if "P (f l)"
    using row that unfolding tupd_def by (induction t) auto
qed

section \<open>Partial unique indexes\<close>

text \<open>A partial unique index: two rows with the same index value are the same row; a row whose value is
  \<open>None\<close> is not in the index.\<close>

definition unique_by :: "('r \<Rightarrow> int) \<Rightarrow> ('r \<Rightarrow> 'k option) \<Rightarrow> 'r list \<Rightarrow> bool" where
  "unique_by key w t \<longleftrightarrow> (\<forall>x \<in> set t. \<forall>y \<in> set t. w x \<noteq> None \<longrightarrow> w x = w y \<longrightarrow> key x = key y)"

definition unclaimed :: "('r \<Rightarrow> 'k option) \<Rightarrow> 'k option \<Rightarrow> 'r list \<Rightarrow> bool" where
  "unclaimed w v t \<longleftrightarrow> v = None \<or> (\<forall>x \<in> set t. w x \<noteq> v)"

lemma unique_byD:
  "unique_by key w t \<Longrightarrow> x \<in> set t \<Longrightarrow> y \<in> set t \<Longrightarrow> w x \<noteq> None \<Longrightarrow> w x = w y \<Longrightarrow> key x = key y"
  unfolding unique_by_def by blast

lemma unique_by_tadd: "unique_by key w t \<Longrightarrow> unclaimed w (w r) t \<Longrightarrow> unique_by key w (tadd r t)"
  by (fastforce simp: unique_by_def unclaimed_def tadd_def)

text \<open>An update that takes rows out of the index, or leaves them where they are, keeps it.\<close>

lemma unique_by_tmodify:
  assumes "unique_by key w t"
    and "\<And>x. x \<in> set t \<Longrightarrow> P x \<Longrightarrow> key (f x) = key x \<and> (w (f x) = None \<or> w (f x) = w x)"
  shows "unique_by key w (tmodify P f t)"
proof -
  define g where "g = (\<lambda>x. if P x then f x else x)"
  have g: "key (g x) = key x" "w (g x) = None \<or> w (g x) = w x" if "x \<in> set t" for x
    using assms(2) [OF that] by (auto simp: g_def)
  have "key (g a) = key (g b)" if "a \<in> set t" "b \<in> set t" "w (g a) \<noteq> None" "w (g a) = w (g b)" for a b
  proof -
    have wa: "w (g a) = w a" and wb: "w (g b) = w b"
      using g(2) [OF that(1)] g(2) [OF that(2)] that(3,4) by auto
    have "key a = key b"
      using that(3,4) unfolding wa wb by (rule unique_byD [OF assms(1) that(1,2)])
    then show ?thesis
      by (simp add: g(1) that(1,2))
  qed
  then have "unique_by key w (map g t)"
    unfolding unique_by_def set_map by blast
  then show ?thesis
    by (simp add: tmodify_def g_def)
qed

lemma tupd_tmodify: "tupd key k f t = tmodify (\<lambda>r. key r = k) f t"
  by (simp add: tupd_def tmodify_def)

lemma unique_by_tupd:
  "unique_by key w t \<Longrightarrow> (\<And>x. x \<in> set t \<Longrightarrow> key x = k \<Longrightarrow> key (f x) = key x \<and> (w (f x) = None \<or> w (f x) = w x)) \<Longrightarrow>
    unique_by key w (tupd key k f t)"
  unfolding tupd_tmodify by (rule unique_by_tmodify) auto

text \<open>A row may take a value no other row holds.\<close>

lemma unique_by_tupd_claim:
  assumes "distinct_keys key t" "unique_by key w t"
    and "\<And>x. key (f x) = key x"
    and "\<And>x y. x \<in> set t \<Longrightarrow> key x = k \<Longrightarrow> y \<in> set t \<Longrightarrow> key y \<noteq> k \<Longrightarrow> w (f x) \<noteq> None \<Longrightarrow> w y \<noteq> w (f x)"
  shows "unique_by key w (tupd key k f t)"
  unfolding unique_by_def tupd_def set_map
proof (intro ballI impI, elim imageE)
  fix x y a b
  assume xy: "x = (if key a = k then f a else a)" "y = (if key b = k then f b else b)"
    "a \<in> set t" "b \<in> set t" and w: "w x \<noteq> None" "w x = w y"
  consider "key a = k" "key b = k" | "key a = k" "key b \<noteq> k" | "key a \<noteq> k" "key b = k"
    | "key a \<noteq> k" "key b \<noteq> k"
    by blast
  then show "key x = key y"
  proof cases
    case 1
    then show ?thesis using xy by (simp add: assms(3))
  next
    case 2
    then show ?thesis using xy w assms(4) [of a b] by simp
  next
    case 3
    then show ?thesis using xy w assms(4) [of b a] by simp
  next
    case 4
    then have "x = a" "y = b" using xy by simp_all
    then show ?thesis using w unique_byD [OF assms(2) xy(3,4)] by blast
  qed
qed

text \<open>The contract of a table whose rows can be retired from a partial unique index: retiring rows
  never breaks the index, and once every holder of a value is retired a new row may take it.\<close>

locale retirable =
  fixes key :: "'r \<Rightarrow> int"
    and w :: "'r \<Rightarrow> 'k option"
    and retire :: "'r \<Rightarrow> 'r"
  assumes retire_key: "key (retire r) = key r"
    and retire_index: "w (retire r) = None"
begin

lemma retire_keeps: "unique_by key w t \<Longrightarrow> unique_by key w (tmodify P retire t)"
  by (rule unique_by_tmodify) (auto simp: retire_key retire_index)

lemma retire_frees: "(\<And>x. x \<in> set t \<Longrightarrow> w x = v \<Longrightarrow> P x) \<Longrightarrow> unclaimed w v (tmodify P retire t)"
  by (auto simp: unclaimed_def tmodify_def retire_index)

lemma replace_keeps:
  assumes "unique_by key w t" "\<And>x. x \<in> set t \<Longrightarrow> w x = w r \<Longrightarrow> P x"
  shows "unique_by key w (tadd r (tmodify P retire t))"
  using retire_keeps [OF assms(1)] retire_frees [of t "w r" P] assms(2) by (intro unique_by_tadd) auto

lemma retire_distinct: "distinct_keys key t \<Longrightarrow> distinct_keys key (tmodify P retire t)"
  by (simp add: distinct_keys_tmodify retire_key)

end

end
