(* ===== verification/Models.thy ===== *)
theory Models
  imports Prelude
begin

text \<open>
  The persistent data of the program (\<^verbatim>\<open>src/src/chmabapay/models.py\<close>): one record per table, one
  datatype per status column, and \<open>db\<close>, the tables of one deployment.  The status columns are
  strings in the source; the constructors are the named constants of the module, and every
  assignment in the sources writes one of them.  \<open>updated_at\<close> is written where the source writes it
  itself; the \<^verbatim>\<open>onupdate\<close> of the ORM is not modelled and no modelled code reads the column.  \<open>w2_queue\<close> is the webhook queue of the process's
  transport, \<open>None\<close> when no transport is installed.
\<close>

section \<open>JSON columns\<close>

text \<open>A number with a fraction or an exponent is kept as its literal.\<close>

datatype json =
    JNull
  | JBool bool
  | JInt int
  | JFloat string
  | JStr string
  | JList "json list"
  | JObj "(string \<times> json) list"

text \<open>\<open>dict.get\<close> on a JSON object.\<close>

fun json_get :: "json \<Rightarrow> string \<Rightarrow> json option" where
  "json_get (JObj kvs) k = map_of kvs k"
| "json_get _ k = None"

text \<open>Truthiness of a JSON value.\<close>

fun json_truthy :: "json \<Rightarrow> bool" where
  "json_truthy JNull = False"
| "json_truthy (JBool b) = b"
| "json_truthy (JInt i) = (i \<noteq> 0)"
| "json_truthy (JFloat s) =
     (s \<in> {''NaN'', ''Infinity'', ''-Infinity''} \<or>
      list_ex (\<lambda>c. c \<in> set ''123456789'') (takeWhile (\<lambda>c. c \<notin> set ''eE'') s))"
| "json_truthy (JStr s) = (s \<noteq> [])"
| "json_truthy (JList xs) = (xs \<noteq> [])"
| "json_truthy (JObj kvs) = (kvs \<noteq> [])"

section \<open>Status columns\<close>

datatype account_status = ACCOUNT_ACTIVE | ACCOUNT_SUSPENDED | ACCOUNT_RESTRICTED

datatype store_status = STORE_DRAFT | STORE_LINK_PENDING | STORE_ACTIVE | STORE_DISABLED

datatype payment_status =
    PAYMENT_PENDING
  | PAYMENT_SCANNED
  | PAYMENT_PAID
  | PAYMENT_EXPIRED
  | PAYMENT_FAILED
  | PAYMENT_SUPERSEDED
  | PAYMENT_REVERSED

definition PAYMENT_DEAD_STATUSES :: "payment_status set" where
  "PAYMENT_DEAD_STATUSES = {PAYMENT_EXPIRED, PAYMENT_FAILED, PAYMENT_SUPERSEDED, PAYMENT_REVERSED}"

datatype link_type = LINK_ABA_PAYWAY

datatype link_status = LINK_ACTIVE | LINK_INACTIVE

datatype link_verification = LINK_UNVERIFIED | LINK_VERIFIED

text \<open>A client may write any other string into the status of its endpoint.\<close>

datatype endpoint_status =
    WEBHOOK_ENDPOINT_ACTIVE
  | WEBHOOK_ENDPOINT_DISABLED
  | WEBHOOK_ENDPOINT_OTHER string

datatype event_type =
    EVENT_COMPLETED
  | EVENT_SCANNED
  | EVENT_EXPIRED
  | EVENT_FAILED
  | EVENT_SUPERSEDED
  | EVENT_REVERSED

fun event_name :: "event_type \<Rightarrow> string" where
  "event_name EVENT_COMPLETED = ''payment.completed''"
| "event_name EVENT_SCANNED = ''payment.scanned''"
| "event_name EVENT_EXPIRED = ''payment.expired''"
| "event_name EVENT_FAILED = ''payment.failed''"
| "event_name EVENT_SUPERSEDED = ''payment.superseded''"
| "event_name EVENT_REVERSED = ''payment.reversed''"

datatype delivery_status =
    DELIVERY_PENDING
  | DELIVERY_RETRYING
  | DELIVERY_SUCCESS
  | DELIVERY_FAILED

datatype subscription_status = SUB_TRIAL | SUB_ACTIVE | SUBSCRIPTION_PENDING | SUB_CANCELED

text \<open>\<^verbatim>\<open>draft\<close> and \<^verbatim>\<open>issued\<close> are the legacy aliases of \<^verbatim>\<open>open\<close> that are still read.\<close>

datatype invoice_status =
    INVOICE_OPEN
  | INVOICE_DRAFT
  | INVOICE_ISSUED
  | INVOICE_PAID
  | INVOICE_VOID
  | INVOICE_WAIVED
  | INVOICE_CREDITED

datatype void_reason =
    VOID_DOWNGRADED
  | VOID_SUPERSEDED
  | VOID_GRACE_EXPIRED
  | VOID_PRE_LIFECYCLE
  | VOID_OPERATOR

section \<open>Rows\<close>

record account =
  acc_id :: int
  acc_email :: string
  acc_name :: string
  acc_google_sub :: "string option"
  acc_status :: account_status
  acc_created_at :: instant
  acc_updated_at :: instant
  acc_whitelabel_enabled :: bool
  acc_is_platform_admin :: bool
  acc_password_hash :: "string option"
  acc_terms_accepted_at :: "instant option"
  acc_terms_accepted_version :: "string option"

record store =
  st_id :: int
  st_public_id :: string
  st_account_id :: int
  st_created_via :: string
  st_name :: string
  st_external_id :: "string option"
  st_city :: string
  st_support_email :: "string option"
  st_redirect_success_url :: "string option"
  st_redirect_failure_url :: "string option"
  st_telegram_chat_id :: "string option"
  st_brand_color :: "string option"
  st_logo_image_url :: "string option"
  st_whitelabel_css :: "string option"
  st_is_internal :: bool
  st_billing_suspended_at :: "instant option"
  st_status :: store_status
  st_created_at :: instant
  st_updated_at :: instant

record payment_link =
  lk_id :: int
  lk_store_id :: int
  lk_type :: link_type
  lk_raw_link :: string
  lk_merchant_account_id :: string
  lk_merchant_name :: "string option"
  lk_payway_client_id :: "string option"
  lk_currency :: string
  lk_verification :: link_verification
  lk_min_amount_cents :: int
  lk_max_amount_cents :: "int option"
  lk_status :: link_status

record payment =
  pay_id :: int
  pay_public_id :: string
  pay_store_id :: int
  pay_link_id :: int
  pay_amount_cents :: int
  pay_currency :: string
  pay_reference_id :: "string option"
  pay_metadata :: "json option"
  pay_idempotency_key :: "string option"
  pay_status :: payment_status
  pay_qr_string :: string
  pay_qr_md5 :: "string option"
  pay_bill_number :: string
  pay_expires_at :: instant
  pay_scanned_at :: "instant option"
  pay_paid_at :: "instant option"
  pay_approved_at :: "instant option"
  pay_bakong_ref :: "string option"
  pay_detection_closed_at :: "instant option"
  pay_reversed_at :: "instant option"
  pay_reversal_reason :: "string option"
  pay_gateway_status_raw :: "json option"
  pay_attempt_history :: "json list option"
  pay_reissued_from_id :: "int option"
  pay_created_at :: instant

record webhook_endpoint =
  ep_id :: int
  ep_account_id :: int
  ep_url :: string
  ep_secret_key :: string
  ep_events :: "string list option"
  ep_status :: endpoint_status

text \<open>The part of an event payload the receiver branches on.\<close>

record event_payload =
  ev_financial :: bool
  ev_pay_public_id :: string
  ev_pay_status :: payment_status
  ev_amount :: string
  ev_currency :: string
  ev_reference_id :: "string option"
  ev_metadata :: "json option"
  ev_approved_at :: "instant option"
  ev_pay_created_at :: instant
  ev_expires_at :: instant
  ev_paid_at :: "instant option"
  ev_reversed_at :: "instant option"
  ev_settled_late :: bool
  ev_store_public_id :: string
  ev_store_name :: string
  ev_redirect_success_url :: "string option"
  ev_merchant_external_id :: "string option"

record event =
  ev_id :: string
  ev_account_id :: int
  ev_store_id :: int
  ev_payment_id :: int
  ev_type :: event_type
  ev_payload :: event_payload
  ev_created_at :: instant

record event_delivery =
  dl_id :: int
  dl_event_id :: string
  dl_endpoint_id :: int
  dl_status :: delivery_status
  dl_attempts :: int
  dl_next_attempt_at :: "instant option"
  dl_last_response_status :: "int option"
  dl_last_error :: "string option"

record plan =
  plan_id :: int
  plan_name :: string
  plan_code :: string
  plan_monthly_fee_cents :: int
  plan_base_payments_included :: int
  plan_currency :: string
  plan_max_stores :: "int option"
  plan_max_keys_per_account :: int
  plan_max_webhooks_per_account :: int
  plan_priority_support :: bool
  plan_is_public :: bool
  plan_is_active :: bool
  plan_tagline :: "string option"
  plan_features :: "string list option"
  plan_is_featured :: bool

record plan_subscription =
  sub_id :: int
  sub_account_id :: int
  sub_plan_id :: int
  sub_status :: subscription_status
  sub_started_at :: "instant option"
  sub_canceled_at :: "instant option"
  sub_next_billing_at :: instant
  sub_trial_ends_at :: "instant option"
  sub_created_at :: instant
  sub_updated_at :: instant

record plan_invoice =
  inv_id :: int
  inv_account_id :: int
  inv_subscription_id :: "int option"
  inv_period_month :: string
  inv_period_start :: "instant option"
  inv_period_end :: "instant option"
  inv_due_at :: "instant option"
  inv_status :: invoice_status
  inv_base_fee_cents :: int
  inv_usage_payments_count :: int
  inv_overage_payments_count :: int
  inv_overage_fee_cents :: int
  inv_total_due_cents :: int
  inv_paid_at :: "instant option"
  inv_voided_at :: "instant option"
  inv_void_reason :: "void_reason option"
  inv_payment_id :: "int option"
  inv_updated_at :: instant

text \<open>The dunning states: the tiers, and the two that are derived but not recorded.\<close>

datatype notice_state =
    STATE_ISSUANCE
  | DUE_3
  | DUE_1
  | DUE_TODAY
  | OVERDUE_1
  | OVERDUE_3
  | OVERDUE_FINAL
  | STATE_FROZEN

datatype channel = CHANNEL_IN_APP | CHANNEL_EMAIL

record plan_invoice_reminder =
  rem_id :: int
  rem_invoice_id :: int
  rem_tier :: notice_state
  rem_channel :: channel
  rem_sent_at :: instant
  rem_detail :: json

datatype ledger_resource = LEDGER_PAYMENT | LEDGER_PAYMENT_REVERSAL

record plan_ledger_entry =
  led_account_id :: int
  led_period_month :: string
  led_resource_type :: ledger_resource
  led_resource_id :: string
  led_amount_cents_delta :: int
  led_total_payments_count :: int
  led_total_volume_cents :: int
  led_created_at :: instant

record audit_log =
  aud_actor :: "int option"
  aud_action :: string
  aud_target_type :: string
  aud_target_id :: int
  aud_details :: json

datatype key_status = KEY_ACTIVE | KEY_SUSPENDED | KEY_REVOKED

record api_key =
  ak_id :: int
  ak_account_id :: int
  ak_prefix :: string
  ak_name :: "string option"
  ak_hash :: string
  ak_mode :: string
  ak_status :: key_status
  ak_last_used_at :: "instant option"
  ak_created_at :: instant
  ak_revoked_at :: "instant option"

datatype support_status = SUPPORT_OPEN | SUPPORT_PENDING | SUPPORT_RESOLVED

datatype support_priority = SUPPORT_PRIORITY_STANDARD | SUPPORT_PRIORITY_HIGH

datatype support_author = SUPPORT_AUTHOR_MERCHANT | SUPPORT_AUTHOR_OPERATOR

datatype support_category =
    SUPPORT_CATEGORY_BILLING
  | SUPPORT_CATEGORY_PAYMENT
  | SUPPORT_CATEGORY_INTEGRATION
  | SUPPORT_CATEGORY_ACCOUNT
  | SUPPORT_CATEGORY_OTHER

record support_request =
  sup_id :: int
  sup_public_id :: string
  sup_account_id :: int
  sup_subject :: string
  sup_category :: support_category
  sup_status :: support_status
  sup_priority :: support_priority
  sup_assigned_admin_account_id :: "int option"
  sup_first_response_at :: "instant option"
  sup_resolved_at :: "instant option"
  sup_created_at :: instant
  sup_updated_at :: instant

record support_message =
  msg_id :: int
  msg_request_id :: int
  msg_author_account_id :: int
  msg_author_kind :: support_author
  msg_body :: string
  msg_created_at :: instant

record w2_job =
  w2_dedup_key :: "string \<times> int"
  w2_delivery_id :: int

record db =
  accounts :: "account list"
  stores :: "store list"
  payment_links :: "payment_link list"
  payments :: "payment list"
  webhook_endpoints :: "webhook_endpoint list"
  events :: "event list"
  event_deliveries :: "event_delivery list"
  plans :: "plan list"
  plan_subscriptions :: "plan_subscription list"
  plan_invoices :: "plan_invoice list"
  plan_invoice_reminders :: "plan_invoice_reminder list"
  plan_ledger_entries :: "plan_ledger_entry list"
  audit_logs :: "audit_log list"
  api_keys :: "api_key list"
  support_requests :: "support_request list"
  support_messages :: "support_message list"
  w2_queue :: "w2_job list option"

text \<open>The settings the modelled code reads (\<^verbatim>\<open>config.py\<close>), with their defaults.\<close>

record settings =
  enable_khr_currency :: bool
  checkout_ttl_seconds :: int
  webhook_max_attempts :: int
  detection_window_seconds :: int
  billing_lead_days :: int
  billing_grace_days :: int
  billing_enforce_enabled :: bool
  chmabapay_hq_store_id :: "string option"

definition default_settings :: settings where
  "default_settings = \<lparr>enable_khr_currency = False, checkout_ttl_seconds = 300, webhook_max_attempts = 8,
     detection_window_seconds = 3600, billing_lead_days = 7, billing_grace_days = 7,
     billing_enforce_enabled = False, chmabapay_hq_store_id = None\<rparr>"

text \<open>\<^verbatim>\<open>audit.record\<close>: one row in the caller's transaction.\<close>

definition audit_record ::
  "account option \<Rightarrow> string \<Rightarrow> string \<Rightarrow> int \<Rightarrow> (string \<times> json) list \<Rightarrow> db \<Rightarrow> db"
where
  "audit_record actor action target_type target_id details d =
     d\<lparr>audit_logs := tadd \<lparr>aud_actor = map_option acc_id actor, aud_action = action,
         aud_target_type = target_type, aud_target_id = target_id,
         aud_details = (if details = [] then JNull else JObj details)\<rparr> (audit_logs d)\<rparr>"

definition json_opt_str :: "string option \<Rightarrow> json" where
  "json_opt_str x = (case x of None \<Rightarrow> JNull | Some s \<Rightarrow> JStr s)"

definition empty_db :: db where
  "empty_db = \<lparr>accounts = [], stores = [], payment_links = [], payments = [],
     webhook_endpoints = [], events = [], event_deliveries = [], plans = [],
     plan_subscriptions = [], plan_invoices = [], plan_invoice_reminders = [], plan_ledger_entries = [],
     audit_logs = [], api_keys = [], support_requests = [], support_messages = [], w2_queue = None\<rparr>"

text \<open>A merchant account, its store and its link, the rows the concrete instances start from.\<close>

definition sample_store :: store where
  "sample_store = \<lparr>st_id = 7, st_public_id = ''st_demo'', st_account_id = 3, st_created_via = ''api'',
     st_name = ''Demo'', st_external_id = None, st_city = ''Phnom Penh'', st_support_email = None,
     st_redirect_success_url = None, st_redirect_failure_url = None, st_telegram_chat_id = None,
     st_brand_color = None, st_logo_image_url = None, st_whitelabel_css = None, st_is_internal = False,
     st_billing_suspended_at = None, st_status = STORE_ACTIVE, st_created_at = 0, st_updated_at = 0\<rparr>"

definition sample_account :: account where
  "sample_account = \<lparr>acc_id = 3, acc_email = ''m@example.com'', acc_name = ''Merchant'',
     acc_google_sub = None, acc_status = ACCOUNT_ACTIVE, acc_created_at = 0, acc_updated_at = 0,
     acc_whitelabel_enabled = False, acc_is_platform_admin = False, acc_password_hash = None,
     acc_terms_accepted_at = None, acc_terms_accepted_version = None\<rparr>"

definition sample_link :: payment_link where
  "sample_link = \<lparr>lk_id = 11, lk_store_id = 7, lk_type = LINK_ABA_PAYWAY,
     lk_raw_link = ''https://link.payway.com.kh/ABAPAYx'', lk_merchant_account_id = ''demo@abaa'',
     lk_merchant_name = None, lk_payway_client_id = None, lk_currency = ''USD'',
     lk_verification = LINK_VERIFIED, lk_min_amount_cents = 1, lk_max_amount_cents = None,
     lk_status = LINK_ACTIVE\<rparr>"

text \<open>What the primary keys and the unique constraints of the schema promise.\<close>

definition db_keys_ok :: "db \<Rightarrow> bool" where
  "db_keys_ok d \<longleftrightarrow>
     distinct_keys acc_id (accounts d) \<and>
     distinct_keys st_id (stores d) \<and>
     distinct_keys lk_id (payment_links d) \<and>
     distinct (map st_public_id (stores d)) \<and>
     distinct (map (\<lambda>l. (lk_store_id l, lk_currency l)) (payment_links d)) \<and>
     distinct_keys pay_id (payments d) \<and>
     distinct_keys dl_id (event_deliveries d) \<and>
     distinct_keys plan_id (plans d) \<and>
     distinct_keys sub_id (plan_subscriptions d) \<and>
     distinct_keys inv_id (plan_invoices d) \<and>
     distinct (map pay_public_id (payments d)) \<and>
     distinct (map (\<lambda>e. (led_period_month e, led_resource_type e, led_resource_id e))
       (plan_ledger_entries d))"

lemma empty_db_keys_ok: "db_keys_ok empty_db"
  by (simp add: db_keys_ok_def empty_db_def distinct_keys_def)

end
