(* ===== verification/Khqr.thy ===== *)
theory Khqr
  imports Models
begin

unbundle bit_operations_syntax

text \<open>
  The KHQR (EMVCo QR) encoder of \<^verbatim>\<open>src/src/chmabapay/khqr.py\<close>: the CRC-16 of the payload, the
  tag-length-value primitives, the amount format and \<open>build_khqr_payload\<close>, together with the
  currency and amount helpers of \<^verbatim>\<open>schemas.py\<close>.  Shown: the CRC separates payloads that differ in one
  byte, \<open>parse_tlv\<close> inverts \<open>tlv\<close>, and the payload that is built parses back into exactly the tags
  the builder packed, in order, with its CRC in the last one.

  The amount formats go through a Python float (\<open>amount_cents / 100\<close>).  They are written here on
  the exact decimal; the two agree for every amount below \<open>2 ^ 51\<close> cents, where the rounding error of
  the quotient is smaller than half a cent.
\<close>

section \<open>CRC-16 CCITT-FALSE\<close>

definition crc_bit :: "16 word \<Rightarrow> 16 word" where
  "crc_bit crc =
     (if bit crc 15 then (push_bit 1 crc) XOR 0x1021 else push_bit 1 crc)"

definition crc_byte :: "16 word \<Rightarrow> 8 word \<Rightarrow> 16 word" where
  "crc_byte crc b = (crc_bit ^^ 8) (crc XOR push_bit 8 (ucast b))"

definition crc16_ccitt_false :: "8 word list \<Rightarrow> 16 word \<Rightarrow> 16 word" where
  "crc16_ccitt_false data init = foldl crc_byte init data"

section \<open>Tag-length-value\<close>

definition tlv :: "string \<Rightarrow> string \<Rightarrow> string result" where
  "tlv tag value =
     (if length value > 99
      then Inl (ValueError (''Tag '' @ tag @ '' value len='' @ nat_str (length value) @
        '' > 99 (EMVCo 2-digit decimal max)''))
      else Inr (tag @ pad0 2 (nat_str (length value)) @ value))"

text \<open>The loop of \<open>parse_tlv\<close> on the rest of the input, \<open>s[i:]\<close>.\<close>

function parse_tlv :: "string \<Rightarrow> (string \<times> string) list" where
  "parse_tlv s =
     (if length s < 4 then []
      else let t = take 2 s in
        if \<not> py_isdigit t then []
        else case py_int (take 2 (drop 2 s)) of
            None \<Rightarrow> []
          | Some ln \<Rightarrow>
              if ln < 0 then []
              else if 4 + nat ln > length s then []
              else (t, take (nat ln) (drop 4 s)) # parse_tlv (drop (4 + nat ln) s))"
  by pat_completeness auto
termination
  by (relation "measure length") auto

declare parse_tlv.simps [simp del]

section \<open>Currency and amount\<close>

definition normalize_currency :: "string option \<Rightarrow> string" where
  "normalize_currency currency =
     (case currency of None \<Rightarrow> ''USD''
      | Some c \<Rightarrow> if c = [] then ''USD''
          else if py_upper (py_strip c) = [] then ''USD'' else py_upper (py_strip c))"

text \<open>\<open>round\<close> to the nearest integer with ties to even, of \<open>cents / 100\<close>.\<close>

definition round_half_even_100 :: "int \<Rightarrow> int" where
  "round_half_even_100 cents =
     (let q = cents div 100; r = cents mod 100 in
      if r < 50 then q else if r > 50 then q + 1 else if even q then q else q + 1)"

definition decimal2 :: "int \<Rightarrow> string" where
  "decimal2 cents =
     (if cents < 0 then ''-'' else []) @ nat_str (nat \<bar>cents\<bar> div 100) @ ''.'' @
     pad0 2 (nat_str (nat \<bar>cents\<bar> mod 100))"

definition format_amount :: "int \<Rightarrow> string option \<Rightarrow> string" where
  "format_amount amount_cents currency =
     (let cur = (case currency of None \<Rightarrow> ''USD'' | Some c \<Rightarrow> if c = [] then ''USD'' else c) in
      if py_upper (py_strip cur) = ''KHR''
      then int_str (round_half_even_100 amount_cents)
      else let a = decimal2 amount_cents in
        if drop (length a - 3) a = ''.00'' then take (length a - 3) a else a)"

text \<open>\<open>money_to_str\<close> with \<open>grouping=False\<close>, the form that reaches the rail and the webhooks.\<close>

definition money_to_str :: "int \<Rightarrow> string option \<Rightarrow> string" where
  "money_to_str amount_cents currency =
     (if normalize_currency currency = ''KHR''
      then (if amount_cents < 0 \<and> round_half_even_100 amount_cents = 0 then ''-0''
            else int_str (round_half_even_100 amount_cents))
      else decimal2 amount_cents)"

section \<open>The payload\<close>

definition KHQR_VALIDITY_WINDOW_MS :: int where
  "KHQR_VALIDITY_WINDOW_MS = 30 * 24 * 60 * 60 * 1000"

definition currency_iso_numeric :: "string \<Rightarrow> string" where
  "currency_iso_numeric selected =
     (let iso = (if selected = ''USD'' then ''840''
                 else if selected = ''KHR'' then ''116'' else selected)
      in case py_int iso of None \<Rightarrow> ''840'' | Some _ \<Rightarrow> iso)"

text \<open>Concatenation of several tags, stopping at the first that does not fit.\<close>

fun tlvs :: "(string \<times> string) list \<Rightarrow> string result" where
  "tlvs [] = Inr []"
| "tlvs ((t, v) # ps) = rbind (tlv t v) (\<lambda>x. rbind (tlvs ps) (\<lambda>xs. Inr (x @ xs)))"

definition pw50_parts :: "string \<Rightarrow> string \<Rightarrow> int \<Rightarrow> int \<Rightarrow> (string \<times> string) list" where
  "pw50_parts payway_client_id bill_number now_epoch ttl_sec =
     (if payway_client_id \<noteq> [] then [(''00'', ''PAYWAY@ABA'')] else []) @
     (if bill_number \<noteq> [] then [(''02'', bill_number), (''06'', bill_number)] else []) @
     [(''05'', int_str (now_epoch + ttl_sec))] @
     (if payway_client_id \<noteq> [] then [(''01'', payway_client_id)] else []) @
     [(''03'', pad0 9 (int_str (now_epoch mod 1000000000))),
      (''04'', int_str now_epoch)]"

text \<open>The packing loop: a part that would take the block past 99 characters is left out.\<close>

fun pack_parts :: "string \<Rightarrow> (string \<times> string) list \<Rightarrow> string result" where
  "pack_parts inner [] = Inr inner"
| "pack_parts inner ((k, v) # ps) =
     rbind (tlv k v) (\<lambda>x.
       pack_parts (if length (inner @ x) \<le> 99 then inner @ x else inner) ps)"

definition fits_62 :: "string \<Rightarrow> string \<Rightarrow> bool" where
  "fits_62 t62_value part \<longleftrightarrow> length (t62_value @ part) \<le> 99"

text \<open>\<open>if cond and fits_62(tlv(t, v)): t62_value += tlv(t, v)\<close>; the guard keeps the short-circuit.\<close>

definition add_62 :: "bool \<Rightarrow> string \<Rightarrow> string \<Rightarrow> string \<Rightarrow> string result" where
  "add_62 cond t v t62_value =
     (if \<not> cond then Inr t62_value
      else rbind (tlv t v) (\<lambda>x. Inr (if fits_62 t62_value x then t62_value @ x else t62_value)))"

definition build_t62 :: "string \<Rightarrow> string \<Rightarrow> string \<Rightarrow> string result" where
  "build_t62 pw50_inner bill_number term_id =
     rbind (add_62 (pw50_inner \<noteq> []) ''50'' pw50_inner []) (\<lambda>v1.
     rbind (add_62 (bill_number \<noteq> []) ''01'' bill_number v1) (\<lambda>v2.
     add_62 True ''03'' term_id v2))"

definition build_t30 :: "payment_link \<Rightarrow> string result" where
  "build_t30 link =
     tlvs [(''00'', ''abaakhppxxx@abaa''),
           (''01'', lk_merchant_account_id link),
           (''02'', ''ABA Bank'')]"

definition selected_currency :: "payment_link \<Rightarrow> string option \<Rightarrow> string" where
  "selected_currency link currency =
     py_upper (py_strip
       (case currency of
          Some c \<Rightarrow> if c \<noteq> [] then c else if lk_currency link \<noteq> [] then lk_currency link else ''USD''
        | None \<Rightarrow> if lk_currency link \<noteq> [] then lk_currency link else ''USD''))"

definition khqr_merchant_name :: "store \<Rightarrow> payment_link \<Rightarrow> string" where
  "khqr_merchant_name store link =
     (case lk_merchant_name link of
        None \<Rightarrow> st_name store
      | Some n \<Rightarrow> if n = [] then st_name store else n)"

text \<open>The top-level tags before Tag 63, in the order they are emitted.\<close>

definition khqr_parts ::
  "store \<Rightarrow> payment_link \<Rightarrow> string \<Rightarrow> string \<Rightarrow> string \<Rightarrow> string \<Rightarrow> string \<Rightarrow> (string \<times> string) list"
where
  "khqr_parts store link t30 selected amount_str t62_value t99 =
     [(''00'', ''01''), (''01'', ''12''), (''30'', t30), (''52'', ''8999''),
      (''53'', currency_iso_numeric selected), (''54'', amount_str), (''58'', ''KH''),
      (''59'', take 99 (khqr_merchant_name store link)), (''60'', ''N/A'')] @
     (if t62_value \<noteq> [] then [(''62'', t62_value)] else []) @
     [(''99'', t99)]"

definition build_khqr_parts ::
  "store \<Rightarrow> payment_link \<Rightarrow> int \<Rightarrow> string \<Rightarrow> instant \<Rightarrow> string option \<Rightarrow> instant
     \<Rightarrow> (string \<times> string) list result"
where
  "build_khqr_parts store link amount_cents bill_number expires_at currency now =
     (let selected = selected_currency link currency;
          ttl_sec = max 1 ((expires_at - now) div 1000000);
          now_epoch = epoch_seconds now;
          client = (case lk_payway_client_id link of None \<Rightarrow> [] | Some c \<Rightarrow> c);
          term_id = pad0 9 (int_str (now_epoch mod 1000000000));
          issued_ms = now_epoch * 1000
      in
      rbind (build_t30 link) (\<lambda>t30.
      rbind (pack_parts [] (pw50_parts client bill_number now_epoch ttl_sec)) (\<lambda>pw50_inner.
      rbind (build_t62 pw50_inner bill_number term_id) (\<lambda>t62_value.
      rbind (tlvs [(''00'', int_str issued_ms),
                   (''01'', int_str (issued_ms + KHQR_VALIDITY_WINDOW_MS))]) (\<lambda>t99.
      Inr (khqr_parts store link t30 selected (format_amount amount_cents (Some selected))
             t62_value t99))))))"

definition build_khqr_payload ::
  "store \<Rightarrow> payment_link \<Rightarrow> int \<Rightarrow> string \<Rightarrow> instant \<Rightarrow> string option \<Rightarrow> instant \<Rightarrow> string result"
where
  "build_khqr_payload store link amount_cents bill_number expires_at currency now =
     rbind (build_khqr_parts store link amount_cents bill_number expires_at currency now) (\<lambda>parts.
     rbind (tlvs parts) (\<lambda>body.
     rbind (tlv ''63'' (hex4 (unat (crc16_ccitt_false (py_encode (body @ ''6304'')) 0xFFFF)))) (\<lambda>t63.
     Inr (body @ t63))))"

section \<open>Vocabulary of the statements\<close>

text \<open>A tag is two digits.\<close>

definition tag_ok :: "string \<Rightarrow> bool" where
  "tag_ok t \<longleftrightarrow> length t = 2 \<and> py_isdigit t"

text \<open>The length of the packed block, computed from the lengths of the parts.\<close>

fun pack_len :: "nat \<Rightarrow> nat list \<Rightarrow> nat" where
  "pack_len n [] = n"
| "pack_len n (l # ls) = pack_len (if n + 4 + l \<le> 99 then n + 4 + l else n) ls"

text \<open>The bounds under which only the merchant's account id decides whether a payload exists: the
  clock reads a date before the year 5138, the bill number and the PayWay client id are storable in
  one tag, and the amount has fewer than ninety digits.\<close>

definition khqr_inputs_ok :: "payment_link \<Rightarrow> int \<Rightarrow> string \<Rightarrow> instant \<Rightarrow> string option \<Rightarrow> instant \<Rightarrow> bool" where
  "khqr_inputs_ok link amount_cents bill_number expires_at currency now \<longleftrightarrow>
     length bill_number \<le> 99 \<and>
     (case lk_payway_client_id link of None \<Rightarrow> True | Some c \<Rightarrow> length c \<le> 99) \<and>
     length (selected_currency link currency) \<le> 99 \<and>
     length (format_amount amount_cents (Some (selected_currency link currency))) \<le> 99 \<and>
     0 \<le> now \<and> epoch_seconds now < 10 ^ 11 \<and> epoch_seconds expires_at < 10 ^ 11"

section \<open>The CRC separates payloads that differ in one byte\<close>

lemma crc_bit_bit0: "bit (crc_bit x) 0 \<longleftrightarrow> bit x 15"
  by (simp add: crc_bit_def bit_simps) (simp add: bit_0)

lemma xor_cancel_left: "a XOR b = a XOR c \<Longrightarrow> b = c" for a b c :: "'a::len word"
proof -
  assume "a XOR b = a XOR c"
  then have "a XOR (a XOR b) = a XOR (a XOR c)" by simp
  then show ?thesis by (simp flip: xor.assoc)
qed

lemma xor_cancel_right: "b XOR a = c XOR a \<Longrightarrow> b = c" for a b c :: "'a::len word"
  using xor_cancel_left [of a b c] by (simp add: xor.commute)

lemma crc_bit_inj: "inj crc_bit"
proof (rule injI)
  fix x y
  assume eq: "crc_bit x = crc_bit y"
  have top: "bit x 15 = bit y 15"
    using arg_cong [OF eq, of "\<lambda>w. bit w 0"] by (simp add: crc_bit_bit0)
  have push: "push_bit 1 x = push_bit 1 y"
    using eq top xor_cancel_right [of "push_bit 1 x" "0x1021" "push_bit 1 y"]
    by (simp add: crc_bit_def split: if_splits)
  show "x = y"
  proof (rule bit_word_eqI)
    fix n
    assume "n < LENGTH(16)"
    then consider "n = 15" | "n < 15" by fastforce
    then show "bit x n = bit y n"
    proof cases
      case 1
      with top show ?thesis by simp
    next
      case 2
      then have "bit x n \<longleftrightarrow> bit (push_bit 1 x) (Suc n)" "bit y n \<longleftrightarrow> bit (push_bit 1 y) (Suc n)"
        by (simp_all only: bit_push_bit_iff) (simp_all add: possible_bit_word)
      with push show ?thesis by simp
    qed
  qed
qed

lemma crc_bits_inj: "inj (crc_bit ^^ n)"
  using crc_bit_inj by (rule inj_fn)

lemma crc_byte_inj_state: "crc_byte x b = crc_byte y b \<Longrightarrow> x = y"
  unfolding crc_byte_def by (drule injD [OF crc_bits_inj]) (rule xor_cancel_right)

lemma crc_byte_inj_byte: "crc_byte x b = crc_byte x c \<Longrightarrow> b = c"
proof -
  assume eq: "crc_byte x b = crc_byte x c"
  have "push_bit 8 (ucast b) = push_bit 8 (ucast c :: 16 word)"
    by (rule xor_cancel_left, rule injD [OF crc_bits_inj], rule eq [unfolded crc_byte_def])
  then have "drop_bit 8 (push_bit 8 (ucast b)) = drop_bit 8 (push_bit 8 (ucast c :: 16 word))"
    by (rule arg_cong)
  then have "bit (drop_bit 8 (push_bit 8 (ucast b)) :: 16 word) n =
      bit (drop_bit 8 (push_bit 8 (ucast c)) :: 16 word) n" for n
    by (rule arg_cong)
  then have "n < 8 \<Longrightarrow> bit b n = bit c n" for n
    by (simp only: bit_drop_bit_eq o_apply bit_push_bit_iff possible_bit_word bit_ucast_iff) fastforce
  then show "b = c"
    by (intro bit_word_eqI) simp
qed

lemma foldl_crc_byte_inj: "foldl crc_byte x ds = foldl crc_byte y ds \<Longrightarrow> x = y"
  by (induction ds arbitrary: x y) (auto dest: crc_byte_inj_state)

lemma crc16_append [simp]:
  "crc16_ccitt_false (xs @ ys) i = crc16_ccitt_false ys (crc16_ccitt_false xs i)"
  by (simp add: crc16_ccitt_false_def)

section \<open>Round trip of tags\<close>

lemma char_of_48: "CHR ''0'' = char_of (48::nat)"
  by code_simp

lemma pad0_2: "n < 100 \<Longrightarrow> pad0 2 (nat_str n) = [dec_digit (n div 10), dec_digit (n mod 10)]"
  by (auto simp: pad0_def nat_str.simps [of n] nat_str.simps [of "n div 10"] dec_digit_def
      char_of_48)

lemma py_int_pad0_2: "n < 100 \<Longrightarrow> py_int (pad0 2 (nat_str n)) = Some (int n)"
proof -
  assume n: "n < 100"
  let ?a = "dec_digit (n div 10)" and ?b = "dec_digit (n mod 10)"
  have dec: "is_dec ?a" "is_dec ?b"
    using n by auto
  then have "py_strip [?a, ?b] = [?a, ?b]"
    by (intro list_all_is_dec_strip) simp
  moreover have "dec_unsigned [?a, ?b] = Some (int n)"
  proof -
    have "dec_unsigned [?a, ?b] = Some (10 * int (n div 10) + int (n mod 10))"
      using n dec by (simp add: dec_unsigned_def)
    also have "10 * int (n div 10) + int (n mod 10) = int n"
      by presburger
    finally show ?thesis .
  qed
  ultimately show ?thesis
    using n dec is_dec_not_sign [OF dec(1)] by (simp add: py_int_def pad0_2)
qed

lemma tlv_eq_Inr:
  "tlv t v = Inr x \<longleftrightarrow> length v \<le> 99 \<and> x = t @ pad0 2 (nat_str (length v)) @ v"
  by (auto simp: tlv_def)

lemma length_tlv: "tlv t v = Inr x \<Longrightarrow> length t = 2 \<Longrightarrow> length x = 4 + length v"
  using pad0_2 [of "length v"] by (auto simp: tlv_eq_Inr)

lemma parse_tlv_tlv:
  assumes "tlv t v = Inr x" and "tag_ok t"
  shows "parse_tlv (x @ rest) = (t, v) # parse_tlv rest"
proof -
  have len: "length v < 100" and x: "x = t @ pad0 2 (nat_str (length v)) @ v"
    using assms(1) by (auto simp: tlv_eq_Inr)
  have t: "length t = 2" "py_isdigit t"
    using assms(2) by (auto simp: tag_ok_def)
  have p: "length (pad0 2 (nat_str (length v))) = 2"
    using len by (simp add: pad0_2)
  have "take 2 (x @ rest) = t" "take 2 (drop 2 (x @ rest)) = pad0 2 (nat_str (length v))"
    "take (length v) (drop 4 (x @ rest)) = v" "drop (4 + length v) (x @ rest) = rest"
    "4 + length v \<le> length (x @ rest)"
    using t(1) p by (simp_all add: x)
  with t(2) py_int_pad0_2 [OF len] show ?thesis
    by (subst parse_tlv.simps) (simp add: Let_def)
qed

lemma parse_tlvs_append:
  "tlvs ps = Inr x \<Longrightarrow> list_all (\<lambda>(t, v). tag_ok t) ps \<Longrightarrow> parse_tlv (x @ rest) = ps @ parse_tlv rest"
proof (induction ps arbitrary: x)
  case (Cons p ps)
  then show ?case
    by (cases p) (auto simp: parse_tlv_tlv)
qed simp

lemma parse_tlv_Nil [simp]: "parse_tlv [] = []"
  by (subst parse_tlv.simps) simp

lemma tlvs_append: "tlvs (ps @ qs) = rbind (tlvs ps) (\<lambda>x. rbind (tlvs qs) (\<lambda>y. Inr (x @ y)))"
  by (induction ps) (auto simp: rbind_assoc split: prod.splits, (cases "tlvs qs"; simp)?)

lemma khqr_parts_tags:
  "list_all (\<lambda>(t, v). tag_ok t) (khqr_parts store link t30 sel amt t62 t99)"
  by (simp add: khqr_parts_def tag_ok_def py_isdigit_def py_isdigit_char_def is_dec_def)

section \<open>When the builder succeeds\<close>

lemma tlv_ok_iff: "(\<exists>x. tlv t v = Inr x) \<longleftrightarrow> length v \<le> 99"
  by (auto simp: tlv_def)

lemma tlvs_ok_iff: "(\<exists>x. tlvs ps = Inr x) \<longleftrightarrow> list_all (\<lambda>(t, v). length v \<le> 99) ps"
proof (induction ps)
  case (Cons p ps)
  then show ?case
    by (cases p) (auto simp: tlv_def split: if_splits)
qed simp

lemma length_tlvs:
  "tlvs ps = Inr x \<Longrightarrow> list_all (\<lambda>(t, v). tag_ok t) ps \<Longrightarrow>
     length x = sum_list (map (\<lambda>(t, v). 4 + length v) ps)"
proof (induction ps arbitrary: x)
  case (Cons p ps)
  then show ?case
    by (cases p) (auto simp: length_tlv tag_ok_def)
qed simp

lemma pack_parts_len:
  "list_all (\<lambda>(t, v). length t = 2 \<and> length v \<le> 99) ps \<Longrightarrow>
     \<exists>r. pack_parts inner ps = Inr r \<and> length r = pack_len (length inner) (map (length \<circ> snd) ps)"
proof (induction ps arbitrary: inner)
  case (Cons p ps)
  obtain t v where p: "p = (t, v)"
    by (cases p)
  obtain x where x: "tlv t v = Inr x"
    using Cons.prems p tlv_ok_iff [of t v] by auto
  have len: "length x = 4 + length v"
    using length_tlv [OF x] Cons.prems p by simp
  show ?case
    using Cons.IH [of "if length (inner @ x) \<le> 99 then inner @ x else inner"] Cons.prems
    by (auto simp: p x len add.assoc)
qed simp

lemma pack_len_le: "n \<le> 99 \<Longrightarrow> pack_len n ls \<le> 99"
  by (induction ls arbitrary: n) auto

lemma length_int_str: "0 \<le> i \<Longrightarrow> k > 0 \<Longrightarrow> length (int_str i) \<le> k \<longleftrightarrow> i < 10 ^ k"
  using length_nat_str [of k "nat i"] nat_less_iff [of i "10 ^ k"]
  by (simp add: int_str_def nat_power_eq)

lemma length_int_str_eq:
  assumes "10 ^ k \<le> i" "i < 10 ^ Suc k"
  shows "length (int_str i) = Suc k"
proof -
  have "0 \<le> i"
    using assms(1) zero_le_power [of "10::int" k] by linarith
  moreover have "10 ^ k \<le> nat i" "nat i < 10 ^ Suc k"
    using assms \<open>0 \<le> i\<close> by (simp_all add: le_nat_iff nat_less_iff)
  ultimately show ?thesis
    using length_nat_str_eq [of k "nat i"] by (simp add: int_str_def)
qed

lemma length_term_id: "length (pad0 9 (int_str (e mod 1000000000))) = 9"
  using length_int_str [of "e mod 1000000000" 9] by simp

lemma build_t30_ok_iff: "(\<exists>x. build_t30 link = Inr x) \<longleftrightarrow> length (lk_merchant_account_id link) \<le> 99"
  unfolding build_t30_def tlvs_ok_iff by simp

lemma length_build_t30:
  "build_t30 link = Inr x \<Longrightarrow> length x = 36 + length (lk_merchant_account_id link)"
  unfolding build_t30_def
  by (drule length_tlvs) (simp_all add: tag_ok_def py_isdigit_def py_isdigit_char_def is_dec_def)

lemma add_62_bounded:
  "length v \<le> 99 \<Longrightarrow> length a \<le> 99 \<Longrightarrow> \<exists>r. add_62 c t v a = Inr r \<and> length r \<le> 99"
  by (auto simp: add_62_def fits_62_def tlv_def)

lemma build_t62_bounded:
  assumes "length inner \<le> 99" "length bill \<le> 99" "length trm \<le> 99"
  shows "\<exists>r. build_t62 inner bill trm = Inr r \<and> length r \<le> 99"
proof -
  obtain r1 where 1: "add_62 (inner \<noteq> []) ''50'' inner [] = Inr r1" "length r1 \<le> 99"
    using add_62_bounded assms(1) by (metis list.size(3) zero_le)
  obtain r2 where 2: "add_62 (bill \<noteq> []) ''01'' bill r1 = Inr r2" "length r2 \<le> 99"
    using add_62_bounded assms(2) 1(2) by metis
  obtain r3 where 3: "add_62 True ''03'' trm r2 = Inr r3" "length r3 \<le> 99"
    using add_62_bounded assms(3) 2(2) by metis
  show ?thesis
    using 1 2 3 by (simp add: build_t62_def)
qed

lemma khqr_parts_ok_iff:
  assumes "length t62 \<le> 99" "length t99 \<le> 99" "length amt \<le> 99" "length sel \<le> 99"
  shows "(\<exists>x. tlvs (khqr_parts store link t30 sel amt t62 t99) = Inr x) \<longleftrightarrow> length t30 \<le> 99"
proof -
  have "length (currency_iso_numeric sel) \<le> 99"
    using assms(4) by (simp add: currency_iso_numeric_def Let_def split: option.split)
  then show ?thesis
    unfolding tlvs_ok_iff using assms by (auto simp: khqr_parts_def)
qed

lemma pw50_parts_ok:
  assumes "length client \<le> 99" "length bill \<le> 99" "0 \<le> e" "e < 10 ^ 12" "0 \<le> ttl" "ttl < 10 ^ 12"
  shows "list_all (\<lambda>(t, v). length t = 2 \<and> length v \<le> 99) (pw50_parts client bill e ttl)"
proof -
  have "length (int_str (e + ttl)) \<le> 99" "length (int_str e) \<le> 99"
    using assms length_int_str [of "e + ttl" 99] length_int_str [of e 99] by auto
  then show ?thesis
    using assms(1,2) length_term_id [of e] by (simp add: pw50_parts_def)
qed

lemma build_khqr_parts_ok_iff:
  assumes "khqr_inputs_ok link amt bill exp cur now"
  shows "(\<exists>ps x. build_khqr_parts store link amt bill exp cur now = Inr ps \<and> tlvs ps = Inr x) \<longleftrightarrow>
    length (lk_merchant_account_id link) \<le> 63"
proof -
  let ?e = "epoch_seconds now" and ?ttl = "max 1 ((exp - now) div 1000000)"
  let ?client = "case lk_payway_client_id link of None \<Rightarrow> [] | Some c \<Rightarrow> c"
  let ?sel = "selected_currency link cur"
  have e: "0 \<le> ?e" "?e < 10 ^ 12" "0 \<le> ?ttl" "?ttl < 10 ^ 12"
    using assms by (auto simp: khqr_inputs_ok_def epoch_seconds_def)
  have c: "length ?client \<le> 99"
    using assms by (auto simp: khqr_inputs_ok_def split: option.splits)
  have bill: "length bill \<le> 99"
    using assms by (simp add: khqr_inputs_ok_def)
  have trm: "length (pad0 9 (int_str (?e mod 1000000000))) \<le> 99"
    by (simp only: length_term_id)
  obtain inner where inner: "pack_parts [] (pw50_parts ?client bill ?e ?ttl) = Inr inner"
      "length inner \<le> 99"
    using pack_parts_len [OF pw50_parts_ok [OF c bill e], of "[]"] pack_len_le [of 0] by auto
  obtain t62 where t62: "build_t62 inner bill (pad0 9 (int_str (?e mod 1000000000))) = Inr t62"
      "length t62 \<le> 99"
    using build_t62_bounded [OF inner(2) bill trm] by blast
  have ms: "length (int_str (?e * 1000)) \<le> 20"
    "length (int_str (?e * 1000 + KHQR_VALIDITY_WINDOW_MS)) \<le> 20"
    using e length_int_str [of "?e * 1000" 20]
      length_int_str [of "?e * 1000 + KHQR_VALIDITY_WINDOW_MS" 20]
    by (auto simp: KHQR_VALIDITY_WINDOW_MS_def)
  obtain t99 where t99: "tlvs [(''00'', int_str (?e * 1000)),
      (''01'', int_str (?e * 1000 + KHQR_VALIDITY_WINDOW_MS))] = Inr t99"
    using tlvs_ok_iff ms by fastforce
  have t99_len: "length t99 \<le> 99"
    using length_tlvs [OF t99] ms
    by (simp add: tag_ok_def py_isdigit_def py_isdigit_char_def is_dec_def)
  have parts: "build_khqr_parts store link amt bill exp cur now =
      rbind (build_t30 link) (\<lambda>t30.
        Inr (khqr_parts store link t30 ?sel (format_amount amt (Some ?sel)) t62 t99))"
    by (simp only: build_khqr_parts_def Let_def inner t62 t99 rbind_simps)
  have "(\<exists>ps x. build_khqr_parts store link amt bill exp cur now = Inr ps \<and> tlvs ps = Inr x) \<longleftrightarrow>
      (\<exists>t30. build_t30 link = Inr t30 \<and> length t30 \<le> 99)"
    unfolding parts
    using khqr_parts_ok_iff [OF t62(2) t99_len, of "format_amount amt (Some ?sel)" ?sel store link] assms
    by (auto simp: khqr_inputs_ok_def)
  also have "\<dots> \<longleftrightarrow> length (lk_merchant_account_id link) \<le> 63"
    using build_t30_ok_iff [of link] length_build_t30 [of link] by fastforce
  finally show ?thesis .
qed

lemma pw50_length:
  assumes "client = [] \<or> 12 \<le> length client" "length client \<le> 99" "length bill = 24"
    and "10 ^ 9 \<le> e" "0 \<le> ttl" "e + ttl < 10 ^ 10"
  shows "\<exists>r. pack_parts [] (pw50_parts client bill e ttl) = Inr r \<and> length r = 97"
proof -
  have digits: "length (int_str e) = 10" "length (int_str (e + ttl)) = 10"
    using assms length_int_str_eq [of 9 e] length_int_str_eq [of 9 "e + ttl"] by auto
  have "map (length \<circ> snd) (pw50_parts client bill e ttl) =
      (if client \<noteq> [] then [10, 24, 24, 10, length client, 9, 10] else [24, 24, 10, 9, 10])"
    using assms(3) digits length_term_id [of e] by (auto simp: pw50_parts_def)
  then have "pack_len 0 (map (length \<circ> snd) (pw50_parts client bill e ttl)) = 97"
    using assms(1) by auto
  moreover have "list_all (\<lambda>(t, v). length t = 2 \<and> length v \<le> 99) (pw50_parts client bill e ttl)"
    using assms by (intro pw50_parts_ok) auto
  ultimately show ?thesis
    using pack_parts_len [of _ "[]"] by fastforce
qed

lemma build_t62_without_50:
  assumes "length inner = 97" "length bill = 24" "length trm = 9"
  shows "build_t62 inner bill trm = tlvs [(''01'', bill), (''03'', trm)]"
proof -
  have "bill \<noteq> []" "inner \<noteq> []"
    using assms by auto
  moreover have "length (pad0 2 (nat_str 97)) = 2" "length (pad0 2 (nat_str 24)) = 2"
    "length (pad0 2 (nat_str 9)) = 2"
    by (simp_all add: pad0_2)
  ultimately show ?thesis
    using assms by (simp add: build_t62_def add_62_def tlv_def fits_62_def del: length_pad0)
qed

lemma sample_inputs_ok:
  "khqr_inputs_ok sample_link 500 ''abcdefghijklmnopqrstuvwx'' (seconds 1790000180) None (seconds 1790000000)"
  by code_simp

lemma sample_amount: "format_amount 500 (Some (selected_currency sample_link None)) = ''5''"
  by code_simp

section \<open>Properties\<close>

text \<open>The CRC of the payload separates any two byte strings that differ in one byte: a single
  corrupted byte is always detected, whatever surrounds it and whatever the initial value.\<close>

theorem crc16_detects_byte_change:
  assumes "b \<noteq> c"
  shows "crc16_ccitt_false (xs @ b # ys) init \<noteq> crc16_ccitt_false (xs @ c # ys) init"
proof
  assume "crc16_ccitt_false (xs @ b # ys) init = crc16_ccitt_false (xs @ c # ys) init"
  then have "crc_byte (crc16_ccitt_false xs init) b = crc_byte (crc16_ccitt_false xs init) c"
    by (simp add: crc16_ccitt_false_def) (rule foldl_crc_byte_inj)
  with assms show False
    by (auto dest: crc_byte_inj_byte)
qed

theorem crc16_detects_byte_change_witness:
  "crc16_ccitt_false [0x30, 0x31, 0x32] 0xFFFF \<noteq> crc16_ccitt_false [0x30, 0x35, 0x32] 0xFFFF"
  using crc16_detects_byte_change [of "0x31" "0x35" "[0x30]" "[0x32]" "0xFFFF"] by simp

text \<open>C29. A payload that the builder returns parses back, with the program's own \<open>parse_tlv\<close>, into
  exactly the tags the builder packed, in that order, followed by Tag 63; and Tag 63 holds the
  CRC of every character before it, so a scanner that recomputes the CRC accepts the payload.\<close>

theorem build_khqr_payload_roundtrip:
  assumes "build_khqr_payload store link amount_cents bill expires_at currency now = Inr s"
  shows "\<exists>parts crc. build_khqr_parts store link amount_cents bill expires_at currency now = Inr parts \<and>
    parse_tlv s = parts @ [(''63'', crc)] \<and>
    length crc = 4 \<and> s = take (length s - 4) s @ crc \<and>
    crc = hex4 (unat (crc16_ccitt_false (py_encode (take (length s - 4) s)) 0xFFFF))"
proof -
  obtain parts body where parts: "build_khqr_parts store link amount_cents bill expires_at currency now = Inr parts"
    and body: "tlvs parts = Inr body"
    and s: "rbind (tlv ''63'' (hex4 (unat (crc16_ccitt_false (py_encode (body @ ''6304'')) 0xFFFF))))
      (\<lambda>t63. Inr (body @ t63)) = Inr s"
    using assms by (auto simp: build_khqr_payload_def)
  define crc where "crc = hex4 (unat (crc16_ccitt_false (py_encode (body @ ''6304'')) 0xFFFF))"
  have len: "length crc = 4"
    by (simp add: crc_def)
  have "pad0 2 (nat_str 4) = ''04''"
    by code_simp
  then have s': "s = (body @ ''6304'') @ crc" and t63: "tlv ''63'' crc = Inr (''6304'' @ crc)"
    using s len by (auto simp: tlv_eq_Inr crc_def [symmetric])
  have tags: "list_all (\<lambda>(t, v). tag_ok t) parts"
    using parts by (auto simp: build_khqr_parts_def Let_def khqr_parts_tags)
  have "parse_tlv s = parts @ parse_tlv (''6304'' @ crc)"
    using parse_tlvs_append [OF body tags, of "''6304'' @ crc"] s' by simp
  also have "parse_tlv (''6304'' @ crc) = [(''63'', crc)]"
    using parse_tlv_tlv [OF t63, of "[]"]
    by (simp add: tag_ok_def py_isdigit_def py_isdigit_char_def is_dec_def)
  finally have "parse_tlv s = parts @ [(''63'', crc)]" .
  moreover have "take (length s - 4) s = body @ ''6304''"
    using len by (simp add: s')
  ultimately show ?thesis
    using parts len s' by (auto simp: crc_def)
qed

theorem build_khqr_payload_roundtrip_witness:
  "\<exists>s parts crc. build_khqr_payload sample_store sample_link 500 ''abcdefghijklmnopqrstuvwx''
      (seconds 1790000180) None (seconds 1790000000) = Inr s \<and>
    parse_tlv s = parts @ [(''63'', crc)] \<and> (''54'', ''5'') \<in> set parts"
proof -
  obtain s where s: "build_khqr_payload sample_store sample_link 500 ''abcdefghijklmnopqrstuvwx''
      (seconds 1790000180) None (seconds 1790000000) = Inr s"
    using build_khqr_parts_ok_iff [OF sample_inputs_ok, of sample_store]
    by (auto simp: build_khqr_payload_def tlv_def sample_link_def)
  obtain parts crc where p: "build_khqr_parts sample_store sample_link 500 ''abcdefghijklmnopqrstuvwx''
      (seconds 1790000180) None (seconds 1790000000) = Inr parts" "parse_tlv s = parts @ [(''63'', crc)]"
    using build_khqr_payload_roundtrip [OF s] by blast
  have "(''54'', ''5'') \<in> set parts"
    using p(1) sample_amount by (auto simp: build_khqr_parts_def Let_def khqr_parts_def)
  with s p show ?thesis by blast
qed

text \<open>Nothing the builder raises is anything but a \<^verbatim>\<open>ValueError\<close>.\<close>

definition raises_value_error :: "'a result \<Rightarrow> bool" where
  "raises_value_error r \<longleftrightarrow> (\<forall>e. r = Inl e \<longrightarrow> (\<exists>m. e = ValueError m))"

lemma value_error_Inr [simp]: "raises_value_error (Inr x)"
  by (simp add: raises_value_error_def)

lemma value_error_rbind [intro!]:
  "raises_value_error r \<Longrightarrow> (\<And>x. raises_value_error (f x)) \<Longrightarrow> raises_value_error (rbind r f)"
  by (cases r) (auto simp: raises_value_error_def)

lemma value_error_tlv [simp]: "raises_value_error (tlv t v)"
  by (simp add: raises_value_error_def tlv_def)

lemma value_error_tlvs [simp]: "raises_value_error (tlvs ps)"
  by (induction ps rule: tlvs.induct) auto

lemma value_error_pack_parts [simp]: "raises_value_error (pack_parts inner ps)"
  by (induction inner ps rule: pack_parts.induct) auto

lemma value_error_add_62 [simp]: "raises_value_error (add_62 cond t v x)"
  by (auto simp: add_62_def)

lemma value_error_payload: "raises_value_error (build_khqr_payload store link amount_cents bill expires_at currency now)"
  by (auto simp: build_khqr_payload_def build_khqr_parts_def build_t30_def build_t62_def Let_def)

text \<open>C30. Within the sizes the columns and the clock allow, the builder returns a payload when the merchant's
  account id has at most 63 characters and raises \<^verbatim>\<open>ValueError\<close> when it is longer, although the
  column stores up to 120.\<close>

theorem build_khqr_payload_succeeds_iff:
  assumes "khqr_inputs_ok link amount_cents bill expires_at currency now"
  shows "if length (lk_merchant_account_id link) \<le> 63
    then \<exists>s. build_khqr_payload store link amount_cents bill expires_at currency now = Inr s
    else \<exists>m. build_khqr_payload store link amount_cents bill expires_at currency now = Inl (ValueError m)"
proof -
  let ?r = "build_khqr_payload store link amount_cents bill expires_at currency now"
  have "(\<exists>s. ?r = Inr s) \<longleftrightarrow>
    (\<exists>ps x. build_khqr_parts store link amount_cents bill expires_at currency now = Inr ps \<and> tlvs ps = Inr x)"
    by (auto simp: build_khqr_payload_def tlv_def)
  then have "(\<exists>s. ?r = Inr s) \<longleftrightarrow> length (lk_merchant_account_id link) \<le> 63"
    using build_khqr_parts_ok_iff [OF assms] by simp
  then show ?thesis
    using value_error_payload [of store link amount_cents bill expires_at currency now] unfolding raises_value_error_def
    by (cases ?r) auto
qed

theorem build_khqr_payload_succeeds_iff_witness:
  "(\<exists>s. build_khqr_payload sample_store sample_link 500 ''abcdefghijklmnopqrstuvwx''
      (seconds 1790000180) None (seconds 1790000000) = Inr s) \<and>
   (\<exists>m. build_khqr_payload sample_store (sample_link\<lparr>lk_merchant_account_id := replicate 64 CHR ''7''\<rparr>) 500
      ''abcdefghijklmnopqrstuvwx'' (seconds 1790000180) None (seconds 1790000000) = Inl (ValueError m))"
proof -
  have "khqr_inputs_ok (sample_link\<lparr>lk_merchant_account_id := replicate 64 CHR ''7''\<rparr>) 500 ''abcdefghijklmnopqrstuvwx''
      (seconds 1790000180) None (seconds 1790000000)"
    by code_simp
  from build_khqr_payload_succeeds_iff [OF sample_inputs_ok, of sample_store] build_khqr_payload_succeeds_iff [OF this, of sample_store]
  show ?thesis
    by (simp add: sample_link_def)
qed

text \<open>For the ids the platform generates (24 characters) and the current ten-digit epoch, the inner
  PAYWAY@ABA block always packs to 97 characters, so its tag never fits Tag 62: the private
  template 62.50 is never emitted, with no client id or with any client id of at least 12
  characters, and Tag 62 carries only the bill number and the terminal id.\<close>

theorem khqr_private_template_dropped:
  assumes "build_khqr_parts store link amount_cents bill expires_at currency now = Inr parts"
    and "length bill = 24"
    and "lk_payway_client_id link = None \<or>
      (\<exists>c. lk_payway_client_id link = Some c \<and> (c = [] \<or> 12 \<le> length c \<and> length c \<le> 99))"
    and "10 ^ 9 \<le> epoch_seconds now" and "now \<le> expires_at" and "epoch_seconds expires_at < 10 ^ 10 - 1"
  shows "\<exists>v. (''62'', v) \<in> set parts \<and>
    parse_tlv v = [(''01'', bill), (''03'', pad0 9 (int_str (epoch_seconds now mod 1000000000)))]"
proof -
  let ?e = "epoch_seconds now" and ?ttl = "max 1 ((expires_at - now) div 1000000)"
  let ?client = "case lk_payway_client_id link of None \<Rightarrow> [] | Some c \<Rightarrow> c"
  let ?trm = "pad0 9 (int_str (?e mod 1000000000))"
  have ttl0: "0 \<le> ?ttl"
    by simp
  have "?e + ?ttl < 10 ^ 10"
    using assms(4-6) by (auto simp: epoch_seconds_def)
  moreover have "?client = [] \<or> 12 \<le> length ?client" "length ?client \<le> 99"
    using assms(3) by auto
  ultimately obtain inner where inner: "pack_parts [] (pw50_parts ?client bill ?e ?ttl) = Inr inner"
      "length inner = 97"
    using pw50_length [of ?client bill ?e ?ttl, OF _ _ assms(2,4) ttl0] by blast
  have tags: "list_all (\<lambda>(t, v). tag_ok t) [(''01'', bill), (''03'', ?trm)]"
    by (simp add: tag_ok_def py_isdigit_def py_isdigit_char_def is_dec_def)
  obtain v where v: "build_t62 inner bill ?trm = Inr v" "tlvs [(''01'', bill), (''03'', ?trm)] = Inr v"
    using build_t62_without_50 [OF inner(2) assms(2) length_term_id [of ?e]]
      tlvs_ok_iff [of "[(''01'', bill), (''03'', ?trm)]"] assms(2) length_term_id [of ?e] by auto
  have "v \<noteq> []"
    using length_tlvs [OF v(2) tags] by auto
  then have "(''62'', v) \<in> set parts"
    using assms(1) by (auto simp: build_khqr_parts_def Let_def inner v(1) khqr_parts_def)
  moreover have "parse_tlv v = [(''01'', bill), (''03'', ?trm)]"
    using parse_tlvs_append [OF v(2) tags, of "[]"] by simp
  ultimately show ?thesis by blast
qed

theorem khqr_private_template_dropped_witness:
  "\<exists>parts v. build_khqr_parts sample_store sample_link 500 ''abcdefghijklmnopqrstuvwx''
      (seconds 1790000180) None (seconds 1790000000) = Inr parts \<and> (''62'', v) \<in> set parts \<and>
    parse_tlv v = [(''01'', ''abcdefghijklmnopqrstuvwx''), (''03'', ''790000000'')]"
proof -
  obtain parts where p: "build_khqr_parts sample_store sample_link 500 ''abcdefghijklmnopqrstuvwx''
      (seconds 1790000180) None (seconds 1790000000) = Inr parts"
    using build_khqr_parts_ok_iff [OF sample_inputs_ok, of sample_store]
    by (auto simp: sample_link_def)
  have trm: "pad0 9 (int_str (epoch_seconds (seconds 1790000000) mod 1000000000)) = ''790000000''"
    by (simp add: epoch_seconds_def seconds_def int_str_def nat_str.simps dec_digit_def pad0_def
        char_of_def bit_0)
  have conds: "lk_payway_client_id sample_link = None" "10 ^ 9 \<le> epoch_seconds (seconds 1790000000)"
      "seconds 1790000000 \<le> seconds 1790000180" "epoch_seconds (seconds 1790000180) < 10 ^ 10 - 1"
    by (simp_all add: sample_link_def epoch_seconds_def seconds_def)
  have "length ''abcdefghijklmnopqrstuvwx'' = 24"
    by simp
  from khqr_private_template_dropped [OF p this disjI1 [OF conds(1)] conds(2-4)]
  show ?thesis
    unfolding trm using p by blast
qed

end
