(* ===== verification/Security.thy ===== *)
theory Security
  imports Models
begin

text \<open>
  Webhook signatures and password checks (\<^verbatim>\<open>src/src/chmabapay/security.py\<close>, and the header builder of
  \<^verbatim>\<open>webhooks.py\<close>).  The keyed hash and the password hash are parameters: \<open>hmac key message\<close> is the
  hexadecimal HMAC-SHA256 digest, \<open>checkpw candidate hash\<close> the answer of \<^verbatim>\<open>bcrypt.checkpw\<close> with
  \<open>None\<close> for its \<^verbatim>\<open>ValueError\<close>.  What the code relies on is \<open>hex_digest_fun\<close>: a digest is a
  non-empty string of hexadecimal digits.
\<close>

type_synonym bytes = "8 word list"
type_synonym digest_fun = "bytes \<Rightarrow> bytes \<Rightarrow> string"

definition sign_payload :: "digest_fun \<Rightarrow> bytes \<Rightarrow> string \<Rightarrow> int \<Rightarrow> int \<times> string" where
  "sign_payload hmac payload secret t =
     (t, hmac (py_encode secret) (py_encode (int_str t @ ''.'') @ payload))"

text \<open>One chunk of the header: \<open>key=value\<close>, both stripped; a chunk without \<open>=\<close> is skipped.\<close>

definition header_chunk :: "string \<Rightarrow> (string \<rightharpoonup> string) \<Rightarrow> (string \<rightharpoonup> string)" where
  "header_chunk chunk parts =
     (if CHR ''='' \<in> set chunk
      then let (k, v) = py_partition CHR ''='' chunk in parts(py_strip k \<mapsto> py_strip v)
      else parts)"

definition header_parts :: "string \<Rightarrow> (string \<rightharpoonup> string)" where
  "header_parts header = fold header_chunk (py_split CHR '','' header) Map.empty"

text \<open>\<^verbatim>\<open>hmac.compare_digest\<close> on two strings: a non-ASCII argument is a \<^verbatim>\<open>TypeError\<close>.\<close>

definition compare_digest :: "string \<Rightarrow> string \<Rightarrow> bool result" where
  "compare_digest a b =
     (if list_all (\<lambda>c. code c < 128) (a @ b) then Inr (a = b) else Inl (RuntimeError ''TypeError''))"

definition verify_signature ::
  "digest_fun \<Rightarrow> bytes \<Rightarrow> string \<Rightarrow> string \<Rightarrow> int \<Rightarrow> instant \<Rightarrow> bool result"
where
  "verify_signature hmac payload secret header max_age_seconds now =
     (case (header_parts header ''t'', header_parts header ''v1'') of
        (Some t_raw, Some v1) \<Rightarrow>
          if t_raw = [] \<or> v1 = [] then Inr False
          else (case py_int t_raw of
                  None \<Rightarrow> Inr False
                | Some t \<Rightarrow>
                    if \<bar>now - seconds t\<bar> > seconds max_age_seconds then Inr False
                    else compare_digest (snd (sign_payload hmac payload secret t)) v1)
      | _ \<Rightarrow> Inr False)"

record delivery_header =
  hd_event :: string
  hd_signature :: string

definition signature_header :: "int \<times> string \<Rightarrow> string" where
  "signature_header ts = ''t='' @ int_str (fst ts) @ '',v1='' @ snd ts"

definition delivery_headers :: "digest_fun \<Rightarrow> bytes \<Rightarrow> string \<Rightarrow> event_type \<Rightarrow> instant \<Rightarrow> delivery_header" where
  "delivery_headers hmac payload secret ty now =
     \<lparr>hd_event = event_name ty,
      hd_signature = signature_header (sign_payload hmac payload secret (epoch_seconds now))\<rparr>"

definition MAX_PASSWORD_BYTES :: nat where
  "MAX_PASSWORD_BYTES = 72"

text \<open>\<open>hash_password\<close> up to the call of \<^verbatim>\<open>bcrypt.hashpw\<close>, a parameter.\<close>

definition hash_password :: "(bytes \<Rightarrow> string) \<Rightarrow> string \<Rightarrow> string result" where
  "hash_password hashpw raw =
     (let encoded = py_encode raw in
      if encoded = [] then Inl (ValueError ''empty_password'')
      else if length encoded > MAX_PASSWORD_BYTES
        then Inl (ValueError ''password_too_long: max 72 bytes'')
      else Inr (hashpw encoded))"

definition verify_password :: "(bytes \<Rightarrow> string \<Rightarrow> bool option) \<Rightarrow> string \<Rightarrow> string option \<Rightarrow> bool" where
  "verify_password checkpw raw password_hash =
     (case password_hash of
        None \<Rightarrow> False
      | Some h \<Rightarrow>
          if h = [] then False
          else let encoded = py_encode raw in
            if encoded = [] \<or> length encoded > MAX_PASSWORD_BYTES then False
            else (case checkpw encoded h of None \<Rightarrow> False | Some b \<Rightarrow> b))"

section \<open>What the code relies on\<close>

definition is_hex :: "char \<Rightarrow> bool" where
  "is_hex c \<longleftrightarrow> is_dec c \<or> (97 \<le> code c \<and> code c \<le> 102)"

definition hex_digest_fun :: "digest_fun \<Rightarrow> bool" where
  "hex_digest_fun hmac \<longleftrightarrow> (\<forall>k m. hmac k m \<noteq> [] \<and> list_all is_hex (hmac k m))"

text \<open>A digest for the concrete instances.\<close>

definition demo_hmac :: digest_fun where
  "demo_hmac k m = (if length k < length m then ''0a'' else ''1b'')"

lemma is_hex_not_space: "is_hex c \<Longrightarrow> \<not> py_isspace_char c"
  by (auto simp: is_hex_def py_isspace_char_def is_dec_def)

lemma is_hex_not_sep: "is_hex c \<Longrightarrow> c \<noteq> CHR '','' \<and> c \<noteq> CHR ''=''"
  by (auto simp: is_hex_def is_dec_def)

lemma int_str_not_sep: "c \<in> set (int_str i) \<Longrightarrow> c \<noteq> CHR '','' \<and> c \<noteq> CHR ''=''"
  using int_str_chars [of c i] by (auto simp: is_dec_def)

text \<open>The header the sender writes is read back as its two fields.\<close>

lemma header_parts_signature:
  assumes "list_all is_hex sig"
  shows "header_parts (signature_header (t, sig)) = [''t'' \<mapsto> int_str t, ''v1'' \<mapsto> sig]"
proof -
  have strip: "py_strip sig = sig"
    using assms is_hex_not_space by (intro py_strip_no_space) (auto simp: list_all_iff)
  have no_sep: "CHR '','' \<notin> set (''t='' @ int_str t)" "CHR '','' \<notin> set (''v1='' @ sig)"
    using assms int_str_not_sep [of _ t] is_hex_not_sep by (auto simp: list_all_iff)
  have "py_split CHR '','' (signature_header (t, sig)) = [''t='' @ int_str t, ''v1='' @ sig]"
    using py_split_sep [OF no_sep(1), of "''v1='' @ sig"] py_split_no_sep [OF no_sep(2)]
    by (simp add: signature_header_def)
  moreover have "py_strip ''t'' = ''t''" "py_strip ''v1'' = ''v1''"
    by code_simp+
  moreover have "py_partition CHR ''='' (''t='' @ int_str t) = (''t'', int_str t)"
    "py_partition CHR ''='' (''v1='' @ sig) = (''v1'', sig)"
    using py_partition_sep [of "CHR ''=''" "''t''"] py_partition_sep [of "CHR ''=''" "''v1''"]
    by simp_all
  ultimately show ?thesis
    by (simp add: header_parts_def header_chunk_def strip py_strip_int_str)
qed

lemma is_hex_ascii: "list_all is_hex s \<Longrightarrow> list_all (\<lambda>c. code c < 128) s"
  by (erule list.pred_mono_strong) (auto simp: is_hex_def is_dec_def)

lemma verify_signature_header:
  assumes "list_all is_hex sig" "sig \<noteq> []" "\<bar>now - seconds t\<bar> \<le> seconds max_age"
    and "snd (sign_payload hmac payload secret t) = sig"
  shows "verify_signature hmac payload secret (signature_header (t, sig)) max_age now = Inr True"
  using assms
  by (simp add: verify_signature_def header_parts_signature py_int_int_str compare_digest_def is_hex_ascii)

section \<open>Properties\<close>

text \<open>C36. Every signature header the sender writes is accepted by \<open>verify_signature\<close> under the same
  secret and body for five minutes after it was made, whatever the HMAC digest is, as long as it is
  a non-empty hexadecimal string.\<close>

theorem delivery_signature_verifies:
  assumes "hex_digest_fun hmac" and "0 \<le> now" and "now \<le> later" and "later \<le> seconds (epoch_seconds now + 300)"
  shows "verify_signature hmac payload secret
    (hd_signature (delivery_headers hmac payload secret ty now)) 300 later = Inr True"
proof -
  let ?t = "epoch_seconds now"
  have hex: "list_all is_hex (snd (sign_payload hmac payload secret ?t))"
    "snd (sign_payload hmac payload secret ?t) \<noteq> []"
    using assms(1) by (auto simp: hex_digest_fun_def sign_payload_def)
  have "seconds ?t \<le> later" "later - seconds ?t \<le> seconds 300"
    using assms(2-4) by (auto simp: epoch_seconds_def seconds_def)
  then have "\<bar>later - seconds ?t\<bar> \<le> seconds 300"
    by simp
  with verify_signature_header [OF hex] show ?thesis
    by (simp add: delivery_headers_def sign_payload_def)
qed

theorem delivery_signature_verifies_witness:
  "hex_digest_fun demo_hmac \<and> verify_signature demo_hmac [1, 2] ''whsec_x''
    (hd_signature (delivery_headers demo_hmac [1, 2] ''whsec_x'' EVENT_COMPLETED (seconds 1790000000)))
    300 (seconds 1790000120) = Inr True"
proof -
  have h: "hex_digest_fun demo_hmac"
    by (auto simp: hex_digest_fun_def demo_hmac_def is_hex_def is_dec_def)
  show ?thesis
    using h delivery_signature_verifies [OF h, of "seconds 1790000000" "seconds 1790000120"]
    by (simp add: seconds_def epoch_seconds_def)
qed

text \<open>What \<open>verify_signature\<close> accepts: it accepts a header only if the header's own timestamp is
  within the allowed age and its \<open>v1\<close> field is the digest of that timestamp and this body under
  this secret.  A header older than the window, or one whose digest belongs to another body, is
  refused.\<close>

theorem verify_signature_sound:
  assumes "verify_signature hmac payload secret header max_age now = Inr True"
  shows "\<exists>t v1. header_parts header ''t'' \<noteq> None \<and> header_parts header ''v1'' = Some v1 \<and>
    py_int (the (header_parts header ''t'')) = Some t \<and>
    \<bar>now - seconds t\<bar> \<le> seconds max_age \<and>
    v1 = hmac (py_encode secret) (py_encode (int_str t @ ''.'') @ payload)"
  using assms
  by (auto simp: verify_signature_def sign_payload_def compare_digest_def split: option.splits if_splits)

theorem verify_signature_sound_witness:
  "\<exists>t v1. header_parts ''v1=0a, t=100'' ''v1'' = Some v1 \<and>
    py_int (the (header_parts ''v1=0a, t=100'' ''t'')) = Some t \<and>
    \<bar>seconds 200 - seconds t\<bar> \<le> seconds 300 \<and>
    v1 = demo_hmac (py_encode ''s'') (py_encode (int_str t @ ''.'') @ [1])"
proof -
  have "verify_signature demo_hmac [1] ''s'' ''v1=0a, t=100'' 300 (seconds 200) = Inr True"
    by code_simp
  then show ?thesis
    using verify_signature_sound [of demo_hmac "[1]" "''s''" "''v1=0a, t=100''" 300 "seconds 200"] by blast
qed

text \<open>A password is verified only when it could have been stored: \<open>verify_password\<close> answers true
  only for a non-empty candidate of at most 72 bytes against a present hash that bcrypt accepts,
  so every candidate it accepts is one \<open>hash_password\<close> does not refuse.\<close>

theorem verify_password_sound:
  assumes "verify_password checkpw raw password_hash"
  shows "\<exists>h. password_hash = Some h \<and> h \<noteq> [] \<and> checkpw (py_encode raw) h = Some True \<and>
    hash_password hashpw raw = Inr (hashpw (py_encode raw))"
  using assms
  by (auto simp: verify_password_def hash_password_def Let_def split: option.splits if_splits)

theorem verify_password_sound_witness:
  "\<exists>h. Some ''$2b$'' = Some h \<and> h \<noteq> [] \<and> (\<lambda>c h. Some (c = [112, 119])) (py_encode ''pw'') h = Some True \<and>
    hash_password (\<lambda>_. ''$2b$'') ''pw'' = Inr ''$2b$''"
proof -
  have "verify_password (\<lambda>c h. Some (c = [112, 119])) ''pw'' (Some ''$2b$'')"
    by code_simp
  from verify_password_sound [OF this, of "\<lambda>_. ''$2b$''"] show ?thesis by blast
qed

end
