(* ===== verification/Webhooks.thy ===== *)
theory Webhooks
  imports Security Khqr
begin

text \<open>
  The webhook outbox (\<^verbatim>\<open>src/src/chmabapay/webhooks.py\<close>) and its sender
  (\<^verbatim>\<open>workers/w2_webhook_sender.py\<close>): the event written with a state change, the fan-out to the
  subscribed endpoints, and the delivery attempts with their backoff.

  The outside world is an argument: \<open>event_id\<close> is the generated uuid, \<open>post\<close> the merchant's answer
  to one HTTP request (a status code, or the exception with its text and class name), \<open>dumps\<close> the
  JSON encoding of a payload and \<open>hmac\<close> the digest.  The two delivery routines share the contract
  \<open>bounded_retry\<close>, which is interpreted on both.
\<close>

section \<open>Events\<close>

definition FINANCIAL_EVENTS :: "event_type set" where
  "FINANCIAL_EVENTS = {EVENT_COMPLETED, EVENT_REVERSED}"

definition settled_late :: "payment \<Rightarrow> bool" where
  "settled_late p = (case pay_paid_at p of None \<Rightarrow> False | Some t \<Rightarrow> t > pay_expires_at p)"

definition build_event_payload :: "event_type \<Rightarrow> payment \<Rightarrow> store \<Rightarrow> event_payload" where
  "build_event_payload ty p st =
     \<lparr>ev_financial = (ty \<in> FINANCIAL_EVENTS),
      ev_pay_public_id = pay_public_id p,
      ev_pay_status = pay_status p,
      ev_amount = money_to_str (pay_amount_cents p) (Some (pay_currency p)),
      ev_currency = pay_currency p,
      ev_reference_id = pay_reference_id p,
      ev_metadata = pay_metadata p,
      ev_approved_at = pay_approved_at p,
      ev_pay_created_at = pay_created_at p,
      ev_expires_at = pay_expires_at p,
      ev_paid_at = pay_paid_at p,
      ev_reversed_at = pay_reversed_at p,
      ev_settled_late = settled_late p,
      ev_store_public_id = st_public_id st,
      ev_store_name = st_name st,
      ev_redirect_success_url = st_redirect_success_url st,
      ev_merchant_external_id = st_external_id st\<rparr>"

definition target_endpoints :: "db \<Rightarrow> int \<Rightarrow> webhook_endpoint list" where
  "target_endpoints d account_id =
     filter (\<lambda>e. ep_status e = WEBHOOK_ENDPOINT_ACTIVE \<and> ep_account_id e = account_id)
       (webhook_endpoints d)"

definition endpoint_wants :: "webhook_endpoint \<Rightarrow> event_type \<Rightarrow> bool" where
  "endpoint_wants e ty =
     (case ep_events e of
        None \<Rightarrow> True
      | Some evs \<Rightarrow>
          if evs = [] \<or> ''*'' \<in> set evs then True else event_name ty \<in> set evs)"

text \<open>One turn of the loop over the target endpoints: the new delivery rows are collected in order.\<close>

definition add_delivery ::
  "string \<Rightarrow> event_type \<Rightarrow> webhook_endpoint \<Rightarrow> db \<times> event_delivery list \<Rightarrow> db \<times> event_delivery list"
where
  "add_delivery event_id ty e acc =
     (case acc of (d, rows) \<Rightarrow>
        if \<not> endpoint_wants e ty then (d, rows)
        else if \<exists>x \<in> set (event_deliveries d). dl_event_id x = event_id \<and> dl_endpoint_id x = ep_id e
          then (d, rows)
        else let r = \<lparr>dl_id = fresh_id dl_id (event_deliveries d), dl_event_id = event_id,
                      dl_endpoint_id = ep_id e, dl_status = DELIVERY_PENDING, dl_attempts = 0,
                      dl_next_attempt_at = None, dl_last_response_status = None,
                      dl_last_error = None\<rparr>
             in (d\<lparr>event_deliveries := tadd r (event_deliveries d)\<rparr>, rows @ [r]))"

definition w2_job_for :: "event_delivery \<Rightarrow> w2_job" where
  "w2_job_for r = \<lparr>w2_dedup_key = (dl_event_id r, dl_endpoint_id r), w2_delivery_id = dl_id r\<rparr>"

definition event_for :: "string \<Rightarrow> instant \<Rightarrow> payment \<Rightarrow> store \<Rightarrow> event_type \<Rightarrow> event" where
  "event_for event_id now p st ty =
     \<lparr>ev_id = event_id, ev_account_id = st_account_id st, ev_store_id = st_id st,
      ev_payment_id = pay_id p, ev_type = ty, ev_payload = build_event_payload ty p st,
      ev_created_at = now\<rparr>"

definition enqueue_event ::
  "string \<Rightarrow> instant \<Rightarrow> payment \<Rightarrow> store \<Rightarrow> event_type \<Rightarrow> db \<Rightarrow> db"
where
  "enqueue_event event_id now p st ty d =
     (let d1 = d\<lparr>events := tadd (event_for event_id now p st ty) (events d)\<rparr>;
          (d2, rows) = fold (add_delivery event_id ty) (target_endpoints d1 (st_account_id st)) (d1, [])
      in d2\<lparr>w2_queue := map_option (\<lambda>q. q @ map w2_job_for rows) (w2_queue d2)\<rparr>)"

section \<open>Delivery attempts\<close>

datatype http_outcome = Responded int | Raised string string

type_synonym http_post = "string \<Rightarrow> bytes \<Rightarrow> delivery_header \<Rightarrow> http_outcome"

record wire =
  w_hmac :: digest_fun
  w_dumps :: "event_payload \<Rightarrow> bytes"
  w_post :: http_post

definition find_event :: "db \<Rightarrow> string \<Rightarrow> event option" where
  "find_event d eid = find (\<lambda>e. ev_id e = eid) (events d)"

text \<open>The row the join of \<^verbatim>\<open>Event\<close> and \<^verbatim>\<open>WebhookEndpoint\<close> yields.\<close>

definition delivery_row :: "db \<Rightarrow> event_delivery \<Rightarrow> (event \<times> webhook_endpoint) option" where
  "delivery_row d r =
     (case (find_event d (dl_event_id r), tget ep_id (dl_endpoint_id r) (webhook_endpoints d)) of
        (Some e, Some ep) \<Rightarrow> Some (e, ep) | _ \<Rightarrow> None)"

definition send_request :: "wire \<Rightarrow> instant \<Rightarrow> event \<Rightarrow> webhook_endpoint \<Rightarrow> http_outcome" where
  "send_request w now e ep =
     (let payload = w_dumps w (ev_payload e)
      in w_post w (ep_url ep) payload (delivery_headers (w_hmac w) payload (ep_secret_key ep) (ev_type e) now))"

definition delivery_backoff :: "int \<Rightarrow> int" where
  "delivery_backoff attempts = min (2 ^ nat attempts) 3600"

text \<open>\<open>str(exc) or type(exc).__name__\<close>, cut at 2000 characters.\<close>

definition error_text :: "string \<Rightarrow> string \<Rightarrow> string" where
  "error_text msg cls = take 2000 (if msg = [] then cls else msg)"

text \<open>\<open>_deliver\<close> of \<^verbatim>\<open>webhooks.py\<close>.\<close>

definition deliver_failed :: "settings \<Rightarrow> instant \<Rightarrow> string \<Rightarrow> event_delivery \<Rightarrow> event_delivery" where
  "deliver_failed s now err r =
     (let r1 = r\<lparr>dl_last_error := Some err\<rparr> in
      if dl_attempts r1 \<ge> webhook_max_attempts s then r1\<lparr>dl_status := DELIVERY_FAILED\<rparr>
      else r1\<lparr>dl_status := DELIVERY_RETRYING,
              dl_next_attempt_at := Some (now + seconds (delivery_backoff (dl_attempts r1)))\<rparr>)"

definition deliver :: "settings \<Rightarrow> wire \<Rightarrow> instant \<Rightarrow> db \<Rightarrow> event_delivery \<Rightarrow> event_delivery" where
  "deliver s w now d r =
     (case delivery_row d r of
        None \<Rightarrow> r\<lparr>dl_status := DELIVERY_FAILED, dl_last_error := Some ''missing event/endpoint''\<rparr>
      | Some (e, ep) \<Rightarrow>
          let r1 = r\<lparr>dl_attempts := dl_attempts r + 1\<rparr> in
          case send_request w now e ep of
            Raised msg cls \<Rightarrow> deliver_failed s now (error_text msg cls) r1
          | Responded sc \<Rightarrow>
              let r2 = r1\<lparr>dl_last_response_status := Some sc\<rparr> in
              if 200 \<le> sc \<and> sc < 300
              then r2\<lparr>dl_status := DELIVERY_SUCCESS, dl_last_error := None\<rparr>
              else deliver_failed s now (error_text (''status '' @ int_str sc) ''HTTPStatusError'') r2)"

text \<open>\<open>_deliver_one\<close> of the W2 worker: the same, and a terminal row has no next attempt.\<close>

definition deliver_one_failed :: "settings \<Rightarrow> instant \<Rightarrow> string \<Rightarrow> event_delivery \<Rightarrow> event_delivery" where
  "deliver_one_failed s now err r =
     (let r1 = r\<lparr>dl_last_error := Some err\<rparr> in
      if dl_attempts r1 \<ge> webhook_max_attempts s
      then r1\<lparr>dl_status := DELIVERY_FAILED, dl_next_attempt_at := None\<rparr>
      else r1\<lparr>dl_status := DELIVERY_RETRYING,
              dl_next_attempt_at := Some (now + seconds (delivery_backoff (dl_attempts r1)))\<rparr>)"

definition deliver_one :: "settings \<Rightarrow> wire \<Rightarrow> instant \<Rightarrow> db \<Rightarrow> event_delivery \<Rightarrow> event_delivery" where
  "deliver_one s w now d r =
     (case delivery_row d r of
        None \<Rightarrow> r\<lparr>dl_status := DELIVERY_FAILED, dl_last_error := Some ''missing event/endpoint''\<rparr>
      | Some (e, ep) \<Rightarrow>
          let r1 = r\<lparr>dl_attempts := dl_attempts r + 1\<rparr> in
          case send_request w now e ep of
            Raised msg cls \<Rightarrow> deliver_one_failed s now (error_text msg cls) r1
          | Responded sc \<Rightarrow>
              let r2 = r1\<lparr>dl_last_response_status := Some sc\<rparr> in
              if 200 \<le> sc \<and> sc < 300
              then r2\<lparr>dl_status := DELIVERY_SUCCESS, dl_last_error := None, dl_next_attempt_at := None\<rparr>
              else deliver_one_failed s now (error_text (''non_2xx:'' @ int_str sc) ''ValueError'') r2)"

definition delivery_open :: "event_delivery \<Rightarrow> bool" where
  "delivery_open r \<longleftrightarrow> dl_status r = DELIVERY_PENDING \<or> dl_status r = DELIVERY_RETRYING"

definition delivery_due :: "instant \<Rightarrow> event_delivery \<Rightarrow> bool" where
  "delivery_due now r \<longleftrightarrow> delivery_open r \<and>
     (case dl_next_attempt_at r of None \<Rightarrow> True | Some t \<Rightarrow> t \<le> now)"

definition set_delivery :: "event_delivery \<Rightarrow> db \<Rightarrow> db" where
  "set_delivery r d = d\<lparr>event_deliveries := tupd dl_id (dl_id r) (\<lambda>_. r) (event_deliveries d)\<rparr>"

text \<open>\<open>process_due_deliveries\<close>: the batch is read first, then delivered in order.\<close>

definition process_due_deliveries :: "settings \<Rightarrow> wire \<Rightarrow> instant \<Rightarrow> int \<Rightarrow> db \<Rightarrow> db \<times> nat" where
  "process_due_deliveries s w now batch d =
     (let due = limit batch (sort_key dl_id (filter (delivery_due now) (event_deliveries d)))
      in (fold (\<lambda>r d. set_delivery (deliver s w now d r) d) due d, length due))"

section \<open>The W2 worker\<close>

definition endpoint_active :: "db \<Rightarrow> event_delivery \<Rightarrow> bool" where
  "endpoint_active d r =
     (case tget ep_id (dl_endpoint_id r) (webhook_endpoints d) of
        None \<Rightarrow> False | Some ep \<Rightarrow> ep_status ep = WEBHOOK_ENDPOINT_ACTIVE)"

definition fanout_due :: "instant \<Rightarrow> int \<Rightarrow> db \<Rightarrow> event_delivery list" where
  "fanout_due now batch_size d =
     limit (max 1 batch_size)
       (sort_key dl_id (filter (\<lambda>r. endpoint_active d r \<and> delivery_due now r) (event_deliveries d)))"

datatype w2_result =
    W2_Skipped string
  | W2_Delivered event_delivery
  | W2_Scanned nat

text \<open>\<open>_fanout_scan_and_send\<close>; \<open>scan_in_flight\<close> is the worker's flag, false again when it returns.\<close>

definition fanout_scan_and_send ::
  "settings \<Rightarrow> wire \<Rightarrow> instant \<Rightarrow> bool \<Rightarrow> int \<Rightarrow> db \<Rightarrow> db \<times> w2_result"
where
  "fanout_scan_and_send s w now scan_in_flight batch_size d =
     (if scan_in_flight then (d, W2_Skipped ''scan_in_flight'')
      else let due = fanout_due now batch_size d
           in (fold (\<lambda>r d. set_delivery (deliver_one s w now d r) d) due d, W2_Scanned (length due)))"

record w2_payload =
  jp_delivery_id :: "int option"
  jp_event_delivery_id :: "int option"
  jp_force :: bool
  jp_batch_size :: int

definition jp_target :: "w2_payload \<Rightarrow> int option" where
  "jp_target j =
     (case jp_delivery_id j of
        Some i \<Rightarrow> if i \<noteq> 0 then Some i else jp_event_delivery_id j
      | None \<Rightarrow> jp_event_delivery_id j)"

definition w2_process_one ::
  "settings \<Rightarrow> wire \<Rightarrow> instant \<Rightarrow> bool \<Rightarrow> w2_payload \<Rightarrow> db \<Rightarrow> (db \<times> w2_result) result"
where
  "w2_process_one s w now scan_in_flight j d =
     (case jp_target j of
        None \<Rightarrow> Inr (fanout_scan_and_send s w now scan_in_flight (jp_batch_size j) d)
      | Some i \<Rightarrow>
          (case tget dl_id i (event_deliveries d) of
             None \<Rightarrow> Inr (d, W2_Skipped ''delivery_not_found'')
           | Some r \<Rightarrow>
               if dl_status r = DELIVERY_SUCCESS then Inr (d, W2_Skipped ''already_success'')
               else if (case dl_next_attempt_at r of None \<Rightarrow> False | Some t \<Rightarrow> t > now) \<and> \<not> jp_force j
                 then Inl (RuntimeError ''delivery_not_yet_due'')
               else let r' = deliver_one s w now d r
                    in Inr (set_delivery r' d, W2_Delivered r')))"

section \<open>Vocabulary of the statements\<close>

definition new_delivery_for :: "string \<Rightarrow> event_delivery \<Rightarrow> webhook_endpoint \<Rightarrow> bool" where
  "new_delivery_for event_id r e \<longleftrightarrow> dl_event_id r = event_id \<and> dl_endpoint_id r = ep_id e \<and>
     dl_status r = DELIVERY_PENDING \<and> dl_attempts r = 0 \<and> dl_next_attempt_at r = None"

text \<open>Rows and a failing server for the concrete instances.\<close>

definition demo_endpoint :: webhook_endpoint where
  "demo_endpoint = \<lparr>ep_id = 5, ep_account_id = 3, ep_url = ''https://pos.example/hook'',
     ep_secret_key = ''whsec_x'', ep_events = Some [''payment.completed''], ep_status = WEBHOOK_ENDPOINT_ACTIVE\<rparr>"

definition demo_payment :: payment where
  "demo_payment = \<lparr>pay_id = 21, pay_public_id = ''abcdefghijklmnopqrstuvwx'', pay_store_id = 7,
     pay_link_id = 11, pay_amount_cents = 500, pay_currency = ''USD'', pay_reference_id = Some ''order-1'',
     pay_metadata = None, pay_idempotency_key = None, pay_status = PAYMENT_PENDING, pay_qr_string = ''qr'',
     pay_qr_md5 = None, pay_bill_number = ''abcdefghijklmnopqrstuvwx'', pay_expires_at = seconds 300,
     pay_scanned_at = None, pay_paid_at = None, pay_approved_at = None, pay_bakong_ref = None,
     pay_detection_closed_at = None, pay_reversed_at = None, pay_reversal_reason = None,
     pay_gateway_status_raw = None, pay_attempt_history = None, pay_reissued_from_id = None,
     pay_created_at = 0\<rparr>"

definition demo_db :: db where
  "demo_db = empty_db\<lparr>stores := [sample_store], payment_links := [sample_link],
     payments := [demo_payment], webhook_endpoints := [demo_endpoint],
     events := [event_for ''e1'' 0 demo_payment sample_store EVENT_COMPLETED], w2_queue := Some []\<rparr>"

definition demo_delivery :: event_delivery where
  "demo_delivery = \<lparr>dl_id = 1, dl_event_id = ''e1'', dl_endpoint_id = 5, dl_status = DELIVERY_PENDING,
     dl_attempts = 0, dl_next_attempt_at = None, dl_last_response_status = None, dl_last_error = None\<rparr>"

definition demo_wire :: wire where
  "demo_wire = \<lparr>w_hmac = demo_hmac, w_dumps = (\<lambda>_. []), w_post = (\<lambda>_ _ _. Responded 500)\<rparr>"

section \<open>A bounded sequence of attempts\<close>

fun attempt_all :: "('o \<Rightarrow> 's \<Rightarrow> 's) \<Rightarrow> ('s \<Rightarrow> bool) \<Rightarrow> 'o list \<Rightarrow> 's \<Rightarrow> 's" where
  "attempt_all f live [] s = s"
| "attempt_all f live (x # xs) s = (if live s then attempt_all f live xs (f x s) else s)"

text \<open>What a retried job promises: each attempt on a live job counts, and a job that is still live
  after an attempt has not used its budget up.\<close>

locale bounded_retry =
  fixes attempt :: "'o \<Rightarrow> 's \<Rightarrow> 's"
    and live :: "'s \<Rightarrow> bool"
    and used :: "'s \<Rightarrow> int"
    and budget :: int
  assumes attempt_counts: "live s \<Longrightarrow> live (attempt x s) \<Longrightarrow> used (attempt x s) = used s + 1"
    and attempt_bounded: "live s \<Longrightarrow> live (attempt x s) \<Longrightarrow> used (attempt x s) < budget"
    and attempt_used: "live s \<Longrightarrow> used (attempt x s) \<le> used s + 1"
begin

lemma attempts_end:
  "live s \<Longrightarrow> budget - used s \<le> int (length xs) \<Longrightarrow> xs \<noteq> [] \<Longrightarrow> \<not> live (attempt_all attempt live xs s)"
proof (induction xs arbitrary: s)
  case (Cons x xs)
  show ?case
  proof (cases "live (attempt x s)")
    case False
    then show ?thesis
      using Cons.prems(1) by (cases xs) auto
  next
    case True
    have used: "used (attempt x s) = used s + 1" "used (attempt x s) < budget"
      using Cons.prems(1) True by (auto intro: attempt_counts attempt_bounded)
    then have "budget - used (attempt x s) \<le> int (length xs)" "xs \<noteq> []"
      using Cons.prems(2) by auto
    with True Cons.IH Cons.prems(1) show ?thesis by simp
  qed
qed simp

lemma attempts_used:
  "live s \<Longrightarrow> used s < budget \<Longrightarrow> used (attempt_all attempt live xs s) \<le> budget"
proof (induction xs arbitrary: s)
  case (Cons x xs)
  show ?case
  proof (cases "live (attempt x s)")
    case False
    then show ?thesis
      using Cons.prems attempt_used [of s x] by (cases xs) auto
  next
    case True
    with Cons show ?thesis
      using attempt_bounded [of s x] by simp
  qed
qed simp

end

lemmas deliver_defs = deliver_def deliver_failed_def deliver_one_def deliver_one_failed_def Let_def

lemmas delivery_splits = option.splits prod.splits http_outcome.splits if_splits

lemma deliver_key [simp]: "dl_id (deliver s w now d r) = dl_id r"
  by (simp add: deliver_defs split: delivery_splits)

lemma deliver_one_key [simp]: "dl_id (deliver_one s w now d r) = dl_id r"
  by (simp add: deliver_defs split: delivery_splits)

interpretation w2_retry: bounded_retry "\<lambda>(w, now) r. deliver_one s w now d r" delivery_open dl_attempts
    "webhook_max_attempts s" for s d
  by unfold_locales
    (auto simp: deliver_defs delivery_open_def split: option.splits http_outcome.splits if_splits)

interpretation outbox_retry: bounded_retry "\<lambda>(w, now) r. deliver s w now d r" delivery_open dl_attempts
    "webhook_max_attempts s" for s d
  by unfold_locales
    (auto simp: deliver_defs delivery_open_def split: option.splits http_outcome.splits if_splits)

section \<open>Fan-out\<close>

lemma target_endpoints_events [simp]:
  "target_endpoints (d\<lparr>events := x\<rparr>) a = target_endpoints d a"
  by (simp add: target_endpoints_def)

lemma fold_add_delivery:
  assumes "distinct (map ep_id eps)"
    and "\<forall>r \<in> set (event_deliveries d). dl_event_id r = event_id \<longrightarrow> dl_endpoint_id r \<notin> ep_id ` set eps"
    and "distinct_keys dl_id (event_deliveries d)"
  shows "\<exists>new. fold (add_delivery event_id ty) eps (d, rows) =
      (d\<lparr>event_deliveries := event_deliveries d @ new\<rparr>, rows @ new) \<and>
    list_all2 (new_delivery_for event_id) new (filter (\<lambda>e. endpoint_wants e ty) eps) \<and>
    distinct_keys dl_id (event_deliveries d @ new)"
  using assms
proof (induction eps arbitrary: d rows)
  case (Cons e eps)
  show ?case
  proof (cases "endpoint_wants e ty")
    case False
    then have "add_delivery event_id ty e (d, rows) = (d, rows)"
      by (simp add: add_delivery_def)
    with False Cons.IH [of d rows] Cons.prems show ?thesis by auto
  next
    case True
    define r where "r = \<lparr>dl_id = fresh_id dl_id (event_deliveries d), dl_event_id = event_id,
      dl_endpoint_id = ep_id e, dl_status = DELIVERY_PENDING, dl_attempts = 0,
      dl_next_attempt_at = None, dl_last_response_status = None, dl_last_error = None\<rparr>"
    let ?d = "d\<lparr>event_deliveries := tadd r (event_deliveries d)\<rparr>"
    have add: "add_delivery event_id ty e (d, rows) = (?d, rows @ [r])"
      using True Cons.prems(2) by (auto simp: add_delivery_def r_def Let_def)
    have keys: "distinct_keys dl_id (event_deliveries ?d)"
      using rows.wf_add [OF Cons.prems(3), of r] fresh_id_not_used [of dl_id "event_deliveries d"]
      by (simp add: r_def)
    have "\<forall>x \<in> set (event_deliveries ?d). dl_event_id x = event_id \<longrightarrow> dl_endpoint_id x \<notin> ep_id ` set eps"
      using Cons.prems(1,2) by (auto simp: tadd_def r_def)
    then obtain new where new: "fold (add_delivery event_id ty) eps (?d, rows @ [r]) =
        (?d\<lparr>event_deliveries := event_deliveries ?d @ new\<rparr>, (rows @ [r]) @ new)"
      "list_all2 (new_delivery_for event_id) new (filter (\<lambda>e. endpoint_wants e ty) eps)"
      "distinct_keys dl_id (event_deliveries ?d @ new)"
      using Cons.IH [of ?d "rows @ [r]"] Cons.prems(1) keys by auto
    have "new_delivery_for event_id r e"
      by (simp add: new_delivery_for_def r_def)
    with True new show ?thesis
      by (intro exI [of _ "r # new"]) (simp add: add tadd_def)
  qed
qed simp

lemma enqueue_event_frame [simp]:
  "accounts (enqueue_event i now p st ty d) = accounts d"
  "stores (enqueue_event i now p st ty d) = stores d"
  "payment_links (enqueue_event i now p st ty d) = payment_links d"
  "payments (enqueue_event i now p st ty d) = payments d"
  "webhook_endpoints (enqueue_event i now p st ty d) = webhook_endpoints d"
  "plans (enqueue_event i now p st ty d) = plans d"
  "plan_subscriptions (enqueue_event i now p st ty d) = plan_subscriptions d"
  "plan_invoices (enqueue_event i now p st ty d) = plan_invoices d"
  "plan_invoice_reminders (enqueue_event i now p st ty d) = plan_invoice_reminders d"
  "plan_ledger_entries (enqueue_event i now p st ty d) = plan_ledger_entries d"
  "audit_logs (enqueue_event i now p st ty d) = audit_logs d"
  "events (enqueue_event i now p st ty d) = events d @ [event_for i now p st ty]"
proof -
  have *: "\<exists>f. fst (fold (add_delivery i ty) eps a) = (fst a)\<lparr>event_deliveries := f\<rparr>" for eps a
  proof (induction eps arbitrary: a)
    case Nil
    then show ?case by (intro exI [of _ "event_deliveries (fst a)"]) simp
  next
    case (Cons e eps)
    obtain f where f: "fst (fold (add_delivery i ty) eps (add_delivery i ty e a)) =
        (fst (add_delivery i ty e a))\<lparr>event_deliveries := f\<rparr>"
      using Cons by blast
    have "(fst (add_delivery i ty e a))\<lparr>event_deliveries := f\<rparr> = (fst a)\<lparr>event_deliveries := f\<rparr>"
      by (simp add: add_delivery_def Let_def split: prod.split)
    with f show ?case by auto
  qed
  define a where "a = (d\<lparr>events := tadd (event_for i now p st ty) (events d)\<rparr>, [] :: event_delivery list)"
  obtain f rows where "fold (add_delivery i ty) (target_endpoints (fst a) (st_account_id st)) a =
      ((fst a)\<lparr>event_deliveries := f\<rparr>, rows)"
    using * [of "target_endpoints (fst a) (st_account_id st)" a] by (metis prod.collapse)
  then have "enqueue_event i now p st ty d = (let d2 = (fst a)\<lparr>event_deliveries := f\<rparr> in
      d2\<lparr>w2_queue := map_option (\<lambda>q. q @ map w2_job_for rows) (w2_queue d2)\<rparr>)"
    by (simp add: enqueue_event_def a_def Let_def)
  then show "accounts (enqueue_event i now p st ty d) = accounts d"
    "stores (enqueue_event i now p st ty d) = stores d"
    "payment_links (enqueue_event i now p st ty d) = payment_links d"
    "payments (enqueue_event i now p st ty d) = payments d"
    "webhook_endpoints (enqueue_event i now p st ty d) = webhook_endpoints d"
    "plans (enqueue_event i now p st ty d) = plans d"
    "plan_subscriptions (enqueue_event i now p st ty d) = plan_subscriptions d"
    "plan_invoices (enqueue_event i now p st ty d) = plan_invoices d"
    "plan_invoice_reminders (enqueue_event i now p st ty d) = plan_invoice_reminders d"
    "plan_ledger_entries (enqueue_event i now p st ty d) = plan_ledger_entries d"
    "audit_logs (enqueue_event i now p st ty d) = audit_logs d"
    "events (enqueue_event i now p st ty d) = events d @ [event_for i now p st ty]"
    by (simp_all add: a_def tadd_def)
qed

lemma add_delivery_keys:
  "distinct_keys dl_id (event_deliveries (fst a)) \<Longrightarrow>
     distinct_keys dl_id (event_deliveries (fst (add_delivery i ty e a)))"
  by (auto simp: add_delivery_def Let_def distinct_keys_tadd_fresh split: prod.splits)

lemma enqueue_event_delivery_keys:
  assumes "distinct_keys dl_id (event_deliveries d)"
  shows "distinct_keys dl_id (event_deliveries (enqueue_event i now p st ty d))"
proof -
  have "distinct_keys dl_id (event_deliveries (fst a)) \<Longrightarrow>
      distinct_keys dl_id (event_deliveries (fst (fold (add_delivery i ty) eps a)))" for eps a
  proof (induction eps arbitrary: a)
    case (Cons e eps)
    from Cons.IH [OF add_delivery_keys [OF Cons.prems]] show ?case by simp
  qed simp
  then show ?thesis
    using assms by (simp add: enqueue_event_def Let_def case_prod_beta)
qed

section \<open>Scans\<close>

lemma delivery_row_set [simp]: "delivery_row (set_delivery x d) r = delivery_row d r"
  by (simp add: delivery_row_def set_delivery_def find_event_def)

lemma deliver_one_set [simp]: "deliver_one s w now (set_delivery x d) r = deliver_one s w now d r"
  by (simp add: deliver_one_def)

lemma deliver_set [simp]: "deliver s w now (set_delivery x d) r = deliver s w now d r"
  by (simp add: deliver_def)

text \<open>Delivering a batch replaces each of its rows by the outcome of one attempt on the state the
  batch was read from, and no other row.\<close>

lemma fold_set_delivery:
  assumes "\<And>x y r. f (set_delivery x y) r = f y r" "\<And>d r. dl_id (f d r) = dl_id r"
    and "distinct (map dl_id due)"
  shows "event_deliveries (fold (\<lambda>r d. set_delivery (f d r) d) due d) =
    map (\<lambda>r. case find (\<lambda>x. dl_id x = dl_id r) due of None \<Rightarrow> r | Some x \<Rightarrow> f d x) (event_deliveries d)"
  using assms(3)
proof (induction due arbitrary: d)
  case (Cons x due)
  have other: "find (\<lambda>y. dl_id y = dl_id x) due = None"
    using Cons.prems by (auto simp: find_None_iff image_iff)
  have "event_deliveries (set_delivery (f d x) d) =
      map (\<lambda>r. if dl_id r = dl_id x then f d x else r) (event_deliveries d)"
    by (simp add: set_delivery_def tupd_def assms(2))
  then show ?case
    using Cons.prems by (auto simp: Cons.IH assms(1,2) other split: option.splits)
qed simp

lemma find_key_mem:
  assumes "distinct_keys dl_id t" "r \<in> set t" "set due \<subseteq> set t"
  shows "find (\<lambda>x. dl_id x = dl_id r) due = (if r \<in> set due then Some r else None)"
proof (cases "r \<in> set due")
  case True
  then obtain y where y: "find (\<lambda>x. dl_id x = dl_id r) due = Some y"
    by (cases "find (\<lambda>x. dl_id x = dl_id r) due") (auto simp: find_None_iff)
  then have "y \<in> set due" "dl_id y = dl_id r"
    by (auto simp: find_Some_iff)
  then have "y = r"
    using rows.rows_eq [OF assms(1), of y r] assms(2,3) by auto
  with y True show ?thesis by simp
next
  case False
  then show ?thesis
    using rows.rows_eq [OF assms(1) assms(2)] assms(3) by (force simp: find_None_iff)
qed

lemma set_fanout_due:
  "set (fanout_due now n d) \<subseteq> {r \<in> set (event_deliveries d). endpoint_active d r \<and> delivery_due now r}"
  using set_take_subset by (fastforce simp: fanout_due_def limit_def)

lemma distinct_sort_limit:
  "distinct_keys dl_id t \<Longrightarrow> distinct (map dl_id (limit n (sort_key dl_id (filter P t))))"
proof -
  assume "distinct_keys dl_id t"
  then have "distinct (map dl_id (filter P t))"
    by (simp add: distinct_keys_def distinct_map_filter)
  then have "distinct (map dl_id (sort_key dl_id (filter P t)))"
    by (metis distinct_map distinct_sort set_sort)
  then show ?thesis
    by (simp only: limit_def take_map [symmetric] distinct_take)
qed

lemma fanout_scan_rows:
  assumes "distinct_keys dl_id (event_deliveries d)"
  shows "event_deliveries (fst (fanout_scan_and_send s w now False n d)) =
    map (\<lambda>r. if r \<in> set (fanout_due now n d) then deliver_one s w now d r else r) (event_deliveries d)"
proof -
  have sub: "set (fanout_due now n d) \<subseteq> set (event_deliveries d)"
    using set_fanout_due by blast
  have dist: "distinct (map dl_id (fanout_due now n d))"
    unfolding fanout_due_def using assms by (rule distinct_sort_limit)
  show ?thesis
    using fold_set_delivery [of "deliver_one s w now", OF _ _ dist, of d]
      find_key_mem [OF assms _ sub]
    by (auto simp: fanout_scan_and_send_def Let_def)
qed

lemma delivery_backoff_bounds: "1 \<le> n \<Longrightarrow> 2 \<le> delivery_backoff n \<and> delivery_backoff n \<le> 3600"
proof -
  assume "1 \<le> n"
  then have "(2::int) ^ 1 \<le> 2 ^ nat n"
    by (intro power_increasing) auto
  then show ?thesis
    by (simp add: delivery_backoff_def)
qed

section \<open>Properties\<close>

text \<open>Writing an event appends exactly one outbox row, and exactly one pending delivery, not yet
  attempted, for each active endpoint of the store's account that subscribes to the event type, in
  endpoint order; when a transport is installed, exactly those deliveries are queued for the sender.
  Delivery ids stay unique.\<close>

theorem enqueue_event_fanout:
  assumes "distinct (map ep_id (webhook_endpoints d))"
    and "distinct_keys dl_id (event_deliveries d)"
    and "event_id \<notin> dl_event_id ` set (event_deliveries d)"
  shows "\<exists>new. event_deliveries (enqueue_event event_id now p st ty d) = event_deliveries d @ new \<and>
    list_all2 (new_delivery_for event_id) new
      (filter (\<lambda>e. endpoint_wants e ty) (target_endpoints d (st_account_id st))) \<and>
    distinct_keys dl_id (event_deliveries d @ new) \<and>
    events (enqueue_event event_id now p st ty d) = events d @ [event_for event_id now p st ty] \<and>
    w2_queue (enqueue_event event_id now p st ty d) =
      map_option (\<lambda>q. q @ map w2_job_for new) (w2_queue d)"
proof -
  let ?d = "d\<lparr>events := tadd (event_for event_id now p st ty) (events d)\<rparr>"
  let ?eps = "target_endpoints ?d (st_account_id st)"
  have "distinct (map ep_id ?eps)"
    using assms(1) by (simp add: target_endpoints_def distinct_map_filter)
  moreover have "\<forall>r \<in> set (event_deliveries ?d). dl_event_id r = event_id \<longrightarrow> dl_endpoint_id r \<notin> ep_id ` set ?eps"
    using assms(3) by auto
  ultimately obtain new where new: "fold (add_delivery event_id ty) ?eps (?d, []) =
      (?d\<lparr>event_deliveries := event_deliveries ?d @ new\<rparr>, [] @ new)"
    "list_all2 (new_delivery_for event_id) new (filter (\<lambda>e. endpoint_wants e ty) ?eps)"
    "distinct_keys dl_id (event_deliveries ?d @ new)"
    using fold_add_delivery [of ?eps ?d event_id ty "[]"] assms(2) by auto
  show ?thesis
    using new by (intro exI [of _ new]) (simp add: enqueue_event_def Let_def tadd_def)
qed

theorem enqueue_event_fanout_witness:
  "\<exists>new. event_deliveries (enqueue_event ''e2'' 9 demo_payment sample_store EVENT_COMPLETED demo_db) = new \<and>
    list_all2 (new_delivery_for ''e2'') new [demo_endpoint] \<and>
    w2_queue (enqueue_event ''e2'' 9 demo_payment sample_store EVENT_COMPLETED demo_db) = Some (map w2_job_for new)"
proof -
  have "filter (\<lambda>e. endpoint_wants e EVENT_COMPLETED) (target_endpoints demo_db (st_account_id sample_store)) = [demo_endpoint]"
    by (simp add: target_endpoints_def endpoint_wants_def demo_db_def demo_endpoint_def sample_store_def)
  then show ?thesis
    using enqueue_event_fanout [of demo_db "''e2''" 9 demo_payment sample_store EVENT_COMPLETED]
    by (simp add: demo_db_def empty_db_def distinct_keys_def)
qed

text \<open>C11. Retries are bounded: however the merchant's server answers, an open delivery with attempts
  left is closed (succeeded or failed) once as many attempts as the budget allows have been made on
  it, and it never records more attempts than the budget.  The W2 worker and the older outbox loop
  both keep this.\<close>

theorem delivery_attempts_bounded:
  fixes r s d env
  assumes "delivery_open r" and "dl_attempts r < webhook_max_attempts s"
    and "webhook_max_attempts s - dl_attempts r \<le> int (length env)"
  defines "w2 \<equiv> attempt_all (\<lambda>(w, now). deliver_one s w now d) delivery_open env r"
    and "outbox \<equiv> attempt_all (\<lambda>(w, now). deliver s w now d) delivery_open env r"
  shows "\<not> delivery_open w2 \<and> dl_attempts w2 \<le> webhook_max_attempts s \<and>
    \<not> delivery_open outbox \<and> dl_attempts outbox \<le> webhook_max_attempts s"
proof -
  have "env \<noteq> []"
    using assms(2,3) by auto
  then show ?thesis
    unfolding w2_def outbox_def
    using assms(1-3) w2_retry.attempts_end w2_retry.attempts_used
      outbox_retry.attempts_end outbox_retry.attempts_used by blast
qed

theorem delivery_attempts_bounded_witness:
  "\<not> delivery_open (attempt_all (\<lambda>(w, now). deliver_one default_settings w now demo_db) delivery_open
      (replicate 8 (demo_wire, 0)) demo_delivery)"
  using delivery_attempts_bounded [of demo_delivery default_settings "replicate 8 (demo_wire, 0)" demo_db]
  by (simp add: demo_delivery_def delivery_open_def default_settings_def)

text \<open>One scan of the W2 worker makes exactly one attempt on each selected row, on the state it
  read, and leaves every other row as it was.  A selected row is pending or retrying, due, and
  belongs to an active endpoint; at most \<open>max 1 batch_size\<close> rows are selected, lowest id first.\<close>

theorem fanout_scan_touches_only_due:
  assumes "distinct_keys dl_id (event_deliveries d)"
  shows "event_deliveries (fst (fanout_scan_and_send s w now False n d)) =
      map (\<lambda>r. if r \<in> set (fanout_due now n d) then deliver_one s w now d r else r) (event_deliveries d)
    \<and> set (fanout_due now n d) \<subseteq> {r \<in> set (event_deliveries d). endpoint_active d r \<and> delivery_due now r}
    \<and> int (length (fanout_due now n d)) \<le> max 1 n
    \<and> sorted (map dl_id (fanout_due now n d))"
proof (intro conjI)
  show "int (length (fanout_due now n d)) \<le> max 1 n"
    by (simp add: fanout_due_def limit_def)
  show "sorted (map dl_id (fanout_due now n d))"
    by (simp add: fanout_due_def limit_def flip: take_map)
qed (rule fanout_scan_rows [OF assms] set_fanout_due)+

theorem fanout_scan_touches_only_due_witness:
  "map dl_status (event_deliveries (fst (fanout_scan_and_send default_settings demo_wire 0 False 20
    (demo_db\<lparr>event_deliveries := [demo_delivery]\<rparr>)))) = [DELIVERY_RETRYING]"
proof -
  let ?d = "demo_db\<lparr>event_deliveries := [demo_delivery]\<rparr>"
  have "distinct_keys dl_id (event_deliveries ?d)"
    by (simp add: distinct_keys_def)
  moreover have "fanout_due 0 20 ?d = [demo_delivery]"
    by code_simp
  moreover have "dl_status (deliver_one default_settings demo_wire 0 ?d demo_delivery) = DELIVERY_RETRYING"
    by code_simp
  ultimately show ?thesis
    using fanout_scan_touches_only_due [of ?d default_settings demo_wire 0 20] by simp
qed

text \<open>C40. A failed attempt that will be retried is scheduled between two seconds and one hour ahead, and
  the two delivery routines agree on the outcome of every attempt: same status, same attempt count,
  same recorded HTTP status, and the same next attempt whenever the delivery stays open.\<close>

theorem delivery_routines_agree:
  assumes "0 \<le> dl_attempts r"
  shows "dl_status (deliver s w now d r) = dl_status (deliver_one s w now d r) \<and>
    dl_attempts (deliver s w now d r) = dl_attempts (deliver_one s w now d r) \<and>
    dl_last_response_status (deliver s w now d r) = dl_last_response_status (deliver_one s w now d r) \<and>
    (dl_status (deliver_one s w now d r) = DELIVERY_RETRYING \<longrightarrow>
      dl_next_attempt_at (deliver s w now d r) = dl_next_attempt_at (deliver_one s w now d r) \<and>
      (\<exists>t. dl_next_attempt_at (deliver_one s w now d r) = Some t \<and>
        now + seconds 2 \<le> t \<and> t \<le> now + seconds 3600))"
proof -
  have "seconds 2 \<le> seconds (delivery_backoff (dl_attempts r + 1))"
    "seconds (delivery_backoff (dl_attempts r + 1)) \<le> seconds 3600"
    using delivery_backoff_bounds [of "dl_attempts r + 1"] assms by simp_all
  then show ?thesis
    by (auto simp: deliver_defs split: option.split http_outcome.split)
qed

theorem delivery_routines_agree_witness:
  "\<exists>t. dl_next_attempt_at (deliver_one default_settings demo_wire 0 demo_db demo_delivery) = Some t \<and>
    seconds 2 \<le> t \<and> t \<le> seconds 3600"
proof -
  have "dl_status (deliver_one default_settings demo_wire 0 demo_db demo_delivery) = DELIVERY_RETRYING"
    by code_simp
  then show ?thesis
    using delivery_routines_agree [of demo_delivery default_settings demo_wire 0 demo_db]
    by (simp add: demo_delivery_def)
qed

end
