(* ===== verification/Calendar.thy ===== *)
theory Calendar
  imports Prelude
begin

text \<open>
  The calendar arithmetic the sources take from Python's \<^verbatim>\<open>datetime\<close>: the year and month of an instant,
  its \<open>YYYY-MM\<close> label (\<open>period_month_for\<close>, \<open>strftime("%Y-%m")\<close>), the first instant of its month
  (\<open>replace(day=1, hour=0, ...)\<close>) and the first instant of the next one.

  Days are counted from 1 March of year 0, so that the leap day ends a year: \<open>year_days y\<close> is the
  number of days before 1 March of year \<open>y\<close>, and month \<open>k\<close> since that day begins on \<open>month_day k\<close>.
  Instants before that day do not occur (\<^verbatim>\<open>datetime\<close> starts at year 1).
\<close>

definition epoch_day :: "instant \<Rightarrow> int" where
  "epoch_day t = t div days 1 + 719468"

definition year_days :: "int \<Rightarrow> int" where
  "year_days y = 365 * y + y div 4 - y div 100 + y div 400"

text \<open>The March-based year of a day: search down from an upper estimate.\<close>

function year_search :: "int \<Rightarrow> int \<Rightarrow> int" where
  "year_search z y = (if year_days y \<le> z \<or> y \<le> 0 then y else year_search z (y - 1))"
  by pat_completeness auto
termination
  by (relation "measure (\<lambda>(z, y). nat y)") auto

declare year_search.simps [simp del]

definition year_of_day :: "int \<Rightarrow> int" where
  "year_of_day z = year_search z (z div 365)"

definition month_day :: "int \<Rightarrow> int" where
  "month_day k = year_days (k div 12) + (153 * (k mod 12) + 2) div 5"

definition month_index :: "int \<Rightarrow> int" where
  "month_index z =
     (let y = year_of_day z in 12 * y + (5 * (z - year_days y) + 2) div 153)"

definition month_of :: "instant \<Rightarrow> int" where
  "month_of t = month_index (epoch_day t)"

definition month_begin :: "int \<Rightarrow> instant" where
  "month_begin k = days (month_day k - 719468)"

text \<open>\<open>moment.replace(day=1, hour=0, minute=0, second=0, microsecond=0)\<close>.\<close>

definition month_start :: "instant \<Rightarrow> instant" where
  "month_start t = month_begin (month_of t)"

text \<open>\<open>(month_start + timedelta(days=32)).replace(day=1)\<close>.\<close>

definition next_month_start :: "instant \<Rightarrow> instant" where
  "next_month_start t = month_start (month_start t + days 32)"

definition civil_month :: "instant \<Rightarrow> int" where
  "civil_month t = (let m = month_of t mod 12 in if m < 10 then m + 3 else m - 9)"

definition civil_year :: "instant \<Rightarrow> int" where
  "civil_year t = month_of t div 12 + (if month_of t mod 12 < 10 then 0 else 1)"

definition period_month_for :: "instant \<Rightarrow> string" where
  "period_month_for t = pad0 4 (int_str (civil_year t)) @ ''-'' @ pad0 2 (int_str (civil_month t))"

section \<open>The month of an instant\<close>

lemma div_mod_succ:
  fixes y n :: int
  assumes "1 < n"
  shows "(y + 1) div n = y div n + (if n dvd y + 1 then 1 else 0) \<and>
    (y + 1) mod n = (if n dvd y + 1 then 0 else y mod n + 1)"
proof (cases "y mod n + 1 = n")
  case True
  have "y + 1 = n * (y div n) + (y mod n + 1)"
    by simp
  then have e: "y + 1 = n * (y div n + 1)"
    unfolding True by (simp add: distrib_left)
  show ?thesis
    using assms unfolding e by simp
next
  case False
  then have r: "0 \<le> y mod n + 1" "y mod n + 1 < n"
    using assms pos_mod_bound [of n y] pos_mod_sign [of n y] by linarith+
  have e: "y + 1 = n * (y div n) + (y mod n + 1)"
    by simp
  have d: "(y + 1) div n = y div n" "(y + 1) mod n = y mod n + 1"
    using int_div_pos_eq [OF e r] int_mod_pos_eq [OF e r] by auto
  then have "\<not> n dvd y + 1"
    using assms pos_mod_sign [of n y] unfolding dvd_eq_mod_eq_0 d(2) by linarith
  with d show ?thesis
    by simp
qed

lemma year_days_step: "year_days y + 365 \<le> year_days (y + 1)" "year_days (y + 1) \<le> year_days y + 366"
proof -
  have "(400::int) dvd y + 1 \<Longrightarrow> 100 dvd y + 1" "(100::int) dvd y + 1 \<Longrightarrow> 4 dvd y + 1"
    by (auto intro: dvd_trans [rotated])
  then show "year_days y + 365 \<le> year_days (y + 1)" "year_days (y + 1) \<le> year_days y + 366"
    using div_mod_succ [of 4 y] div_mod_succ [of 100 y] div_mod_succ [of 400 y]
    by (auto simp: year_days_def)
qed

lemma year_days_ge: "0 \<le> y \<Longrightarrow> 365 * y \<le> year_days y"
proof -
  assume "0 \<le> y"
  then have "y div 100 \<le> y div 4" "0 \<le> y div 400"
    by (auto simp: pos_imp_zdiv_nonneg_iff intro: zdiv_mono2)
  then show ?thesis
    by (simp add: year_days_def)
qed

lemma year_search_le: "0 \<le> z \<Longrightarrow> 0 \<le> y \<Longrightarrow> year_days (year_search z y) \<le> z \<and> 0 \<le> year_search z y"
proof (induction z y rule: year_search.induct)
  case (1 z y)
  then show ?case
    by (cases "year_days y \<le> z \<or> y \<le> 0")
      (auto simp: year_search.simps [of z y] year_days_def)
qed

lemma year_search_next:
  "z < year_days (y + 1) \<Longrightarrow> 0 \<le> z \<Longrightarrow> 0 \<le> y \<Longrightarrow> z < year_days (year_search z y + 1)"
proof (induction z y rule: year_search.induct)
  case (1 z y)
  then show ?case
    by (cases "year_days y \<le> z \<or> y \<le> 0") (auto simp: year_search.simps [of z y])
qed

lemma year_of_day_bounds:
  assumes "0 \<le> z"
  shows "year_days (year_of_day z) \<le> z" "z < year_days (year_of_day z + 1)"
proof -
  have y: "0 \<le> z div 365"
    using assms by (simp add: pos_imp_zdiv_nonneg_iff)
  then show "year_days (year_of_day z) \<le> z"
    using year_search_le assms by (simp add: year_of_day_def)
  have "z < 365 * (z div 365 + 1)"
    by presburger
  also have "\<dots> \<le> year_days (z div 365 + 1)"
    using y by (intro year_days_ge) simp
  finally show "z < year_days (year_of_day z + 1)"
    using year_search_next y assms by (simp add: year_of_day_def)
qed

lemma month_of_doy:
  fixes d :: int
  assumes "0 \<le> d" "d \<le> 365"
  defines "m \<equiv> (5 * d + 2) div 153"
  shows "0 \<le> m" "m \<le> 11" "(153 * m + 2) div 5 \<le> d" "d < (153 * (m + 1) + 2) div 5"
proof -
  obtain r where m: "5 * d + 2 = 153 * m + r" and b: "0 \<le> r" "r < 153"
  proof
    show "5 * d + 2 = 153 * m + (5 * d + 2) mod 153"
      by (simp add: m_def)
  qed simp_all
  show "0 \<le> m" "m \<le> 11"
    using m b assms(1,2) by linarith+
  have "153 * m + 2 < 5 * (d + 1)" "5 * (d + 1) \<le> 153 * (m + 1) + 2"
    using m b by (simp_all add: algebra_simps)
  then have "(153 * m + 2) div 5 < d + 1" "d + 1 \<le> (153 * (m + 1) + 2) div 5"
    using zdiv_mono1 [of "5 * (d + 1)" "153 * (m + 1) + 2" 5] by (simp_all add: div_less_iff_less_mult)
  then show "(153 * m + 2) div 5 \<le> d" "d < (153 * (m + 1) + 2) div 5"
    by simp_all
qed

lemma month_index_parts:
  assumes "0 \<le> z"
  shows "month_index z div 12 = year_of_day z"
    "month_index z mod 12 = (5 * (z - year_days (year_of_day z)) + 2) div 153"
    "0 \<le> z - year_days (year_of_day z)" "z - year_days (year_of_day z) \<le> 365"
proof -
  show d: "0 \<le> z - year_days (year_of_day z)" "z - year_days (year_of_day z) \<le> 365"
    using year_of_day_bounds [OF assms] year_days_step(2) [of "year_of_day z"] by auto
  show "month_index z div 12 = year_of_day z"
    "month_index z mod 12 = (5 * (z - year_days (year_of_day z)) + 2) div 153"
    using month_of_doy(1,2) [OF d] by (simp_all add: month_index_def Let_def)
qed

lemma Suc_month:
  fixes k :: int
  shows "(k + 1) div 12 = (if k mod 12 = 11 then k div 12 + 1 else k div 12)"
    and "(k + 1) mod 12 = (if k mod 12 = 11 then 0 else k mod 12 + 1)"
proof -
  have "12 dvd k + 1 \<longleftrightarrow> k mod 12 = 11"
    by presburger
  then show "(k + 1) div 12 = (if k mod 12 = 11 then k div 12 + 1 else k div 12)"
    "(k + 1) mod 12 = (if k mod 12 = 11 then 0 else k mod 12 + 1)"
    using div_mod_succ [of 12 k] by auto
qed

text \<open>A day lies in its month: on or after the month's first day, before the next month's.\<close>

lemma month_index_bounds:
  assumes "0 \<le> z"
  shows "month_day (month_index z) \<le> z" "z < month_day (month_index z + 1)"
proof -
  let ?y = "year_of_day z"
  let ?d = "z - year_days ?y"
  let ?m = "(5 * ?d + 2) div 153"
  note parts = month_index_parts [OF assms]
  note doy = month_of_doy [OF parts(3,4)]
  show "month_day (month_index z) \<le> z"
    using doy(3) by (simp add: month_day_def parts(1,2))
  show "z < month_day (month_index z + 1)"
  proof (cases "?m = 11")
    case True
    then show ?thesis
      using year_of_day_bounds(2) [OF assms] by (simp add: month_day_def Suc_month parts(1,2))
  next
    case False
    with doy(4) show ?thesis
      by (simp add: month_day_def Suc_month parts(1,2))
  qed
qed

lemma month_day_gap:
  fixes j :: int
  assumes "0 \<le> j" "j \<le> 10"
  shows "28 \<le> (153 * (j + 1) + 2) div 5 - (153 * j + 2) div 5 \<and>
    (153 * (j + 1) + 2) div 5 - (153 * j + 2) div 5 \<le> 31"
proof -
  have "j = 0 \<or> j = 1 \<or> j = 2 \<or> j = 3 \<or> j = 4 \<or> j = 5 \<or> j = 6 \<or> j = 7 \<or> j = 8 \<or> j = 9 \<or> j = 10"
    using assms by presburger
  then show ?thesis
    by (elim disjE) simp_all
qed

lemma month_length: "28 \<le> month_day (k + 1) - month_day k \<and> month_day (k + 1) - month_day k \<le> 31"
proof (cases "k mod 12 = 11")
  case True
  then show ?thesis
    using year_days_step [of "k div 12"] by (simp add: month_day_def Suc_month)
next
  case False
  then have "0 \<le> k mod 12" "k mod 12 \<le> 10"
    using pos_mod_bound [of 12 k] by auto
  from month_day_gap [OF this] False show ?thesis
    by (simp add: month_day_def Suc_month)
qed

lemma month_day_mono: "j \<le> k \<Longrightarrow> month_day j \<le> month_day k"
proof (induction "nat (k - j)" arbitrary: k)
  case (Suc n)
  then have "month_day j \<le> month_day (k - 1)"
    by (intro Suc.hyps) auto
  then show ?case
    using month_length [of "k - 1"] by simp
qed simp

lemma month_index_unique:
  assumes "0 \<le> z" "month_day k \<le> z" "z < month_day (k + 1)"
  shows "month_index z = k"
proof (rule antisym)
  show "month_index z \<le> k"
    using month_index_bounds(1) [OF assms(1)] assms(3) month_day_mono [of "k + 1" "month_index z"]
    by (rule_tac ccontr) simp
  show "k \<le> month_index z"
    using month_index_bounds(2) [OF assms(1)] assms(2) month_day_mono [of "month_index z + 1" k]
    by (rule_tac ccontr) simp
qed

lemma epoch_day_month_begin [simp]: "epoch_day (month_begin k) = month_day k"
  by (simp add: epoch_day_def month_begin_def days_def)

lemma instant_day: "days (epoch_day t - 719468) \<le> t" "t < days (epoch_day t - 719467)"
proof -
  obtain q r where q: "q = t div 86400000000" and t: "t = 86400000000 * q + r"
    and r: "0 \<le> r" "r < 86400000000"
  proof
    show "t = 86400000000 * (t div 86400000000) + t mod 86400000000"
      by simp
  qed simp_all
  have "epoch_day t = q + 719468"
    by (simp add: epoch_day_def days_def q)
  with t r show "days (epoch_day t - 719468) \<le> t" "t < days (epoch_day t - 719467)"
    by (simp_all add: days_def)
qed

lemma days_less_iff: "t < days (j - 719468) \<longleftrightarrow> epoch_day t < j"
proof
  assume "t < days (j - 719468)"
  with instant_day(1) [of t] have "days (epoch_day t - 719468) < days (j - 719468)"
    by (rule le_less_trans)
  then show "epoch_day t < j"
    by simp
next
  assume "epoch_day t < j"
  then have "days (epoch_day t - 719467) \<le> days (j - 719468)"
    by simp
  with instant_day(2) [of t] show "t < days (j - 719468)"
    by (rule less_le_trans)
qed

lemma before_month_begin: "t < month_begin k \<longleftrightarrow> epoch_day t < month_day k"
  by (simp add: month_begin_def days_less_iff)

lemma month_of_eq:
  assumes "0 \<le> month_day k" "month_begin k \<le> t" "t < month_begin (k + 1)"
  shows "month_of t = k"
proof -
  have "month_day k \<le> epoch_day t" "epoch_day t < month_day (k + 1)"
    using assms(2,3) by (simp_all add: before_month_begin [symmetric] not_less [symmetric])
  with assms(1) show ?thesis
    by (simp add: month_of_def month_index_unique)
qed

lemma month_of_bounds:
  assumes "0 \<le> epoch_day t"
  shows "month_begin (month_of t) \<le> t" "t < month_begin (month_of t + 1)"
  using month_index_bounds [OF assms] before_month_begin [of t]
  by (auto simp: month_of_def not_less [symmetric])

lemma month_index_nonneg:
  assumes "0 \<le> z"
  shows "0 \<le> month_index z"
proof -
  have "0 \<le> year_of_day z"
    using year_search_le [of z "z div 365"] assms
    by (simp add: year_of_day_def pos_imp_zdiv_nonneg_iff)
  then show ?thesis
    using month_index_parts(1) [OF assms] pos_imp_zdiv_nonneg_iff [of 12 "month_index z"] by simp
qed

lemma month_day_nonneg: "0 \<le> k \<Longrightarrow> 0 \<le> month_day k"
  using month_day_mono [of 0 k] by (simp add: month_day_def year_days_def)

text \<open>Adding 32 days to the first of a month and going back to the first of that month is the first
  instant of the following month, whatever the length of the month.\<close>

lemma next_month_start_eq:
  assumes "0 \<le> epoch_day t"
  shows "next_month_start t = month_begin (month_of t + 1)"
proof -
  let ?k = "month_of t"
  have k: "0 \<le> ?k"
    using month_index_nonneg [OF assms] by (simp add: month_of_def)
  have gap: "month_begin (?k + 1) \<le> month_begin ?k + days 32"
    "month_begin ?k + days 32 < month_begin (?k + 1 + 1)"
    using month_length [of ?k] month_length [of "?k + 1"] by (auto simp: month_begin_def days_def)
  have "month_of (month_begin ?k + days 32) = ?k + 1"
    using k by (intro month_of_eq gap month_day_nonneg) simp
  then show ?thesis
    by (simp add: next_month_start_def month_start_def)
qed

lemma next_month_start_after: "0 \<le> epoch_day t \<Longrightarrow> t < next_month_start t"
  by (simp add: next_month_start_eq month_of_bounds)

lemma month_start_before: "0 \<le> epoch_day t \<Longrightarrow> month_start t \<le> t"
  by (simp add: month_start_def month_of_bounds)

end
