(* ===== verification/Stores.thy ===== *)
theory Stores
  imports Models Khqr
begin

text \<open>
  Store provisioning (\<^verbatim>\<open>src/src/chmabapay/services/stores.py\<close>): the destinations of a store, one
  payment link per currency, its status, and the plan's cap on the number of live stores.

  What ABA's share-link page answers is an argument, \<open>payway\<close>: the slug read from a link and the
  outcome of fetching and reading its page.  Public ids are arguments.  An exception's \<open>detail\<close> is its
  error code, the part before the colon.  A raised exception leaves the transaction uncommitted, so a
  result \<open>Inl\<close> carries no state.
\<close>

section \<open>Payloads and the answer of PayWay\<close>

record link_payload =
  lp_raw_link :: string
  lp_merchant_account_id :: string
  lp_merchant_name :: "string option"
  lp_currency :: string
  lp_currency_set :: bool

record store_create =
  sc_name :: string
  sc_external_id :: "string option"
  sc_city :: string
  sc_support_email :: "string option"
  sc_redirect_success_url :: "string option"
  sc_redirect_failure_url :: "string option"
  sc_telegram_chat_id :: "string option"
  sc_brand_color :: "string option"
  sc_logo_image_url :: "string option"
  sc_whitelabel_css :: "string option"
  sc_link :: "link_payload option"
  sc_links :: "link_payload list option"

text \<open>A field that was not sent is \<open>None\<close>; an explicit \<^verbatim>\<open>null\<close> is \<open>Some None\<close>.\<close>

record store_patch =
  sp_name :: "string option option"
  sp_external_id :: "string option option"
  sp_city :: "string option option"
  sp_support_email :: "string option option"
  sp_redirect_success_url :: "string option option"
  sp_redirect_failure_url :: "string option option"
  sp_telegram_chat_id :: "string option option"
  sp_brand_color :: "string option option"
  sp_logo_image_url :: "string option option"
  sp_whitelabel_css :: "string option option"
  sp_link :: "link_payload option option"
  sp_links :: "link_payload list option option"

datatype link_outcome = CHECK_OK | CHECK_NOT_FOUND | CHECK_INCONCLUSIVE

record link_check =
  chk_outcome :: link_outcome
  chk_merchant_name :: "string option"
  chk_currency :: "string option"

text \<open>The page of a link: an HTTP error, a failure to reach or parse it, or the merchant name and
  currency read from it.\<close>

datatype link_page =
    PageHttpError int
  | PageUnreachable
  | PageRead "string option" "string option"

record payway =
  pw_slug :: "string \<Rightarrow> string"
  pw_page :: "string \<Rightarrow> link_page"

definition verify_link :: "payway \<Rightarrow> string \<Rightarrow> link_check" where
  "verify_link pw raw_link =
     (if pw_slug pw raw_link = []
      then \<lparr>chk_outcome = CHECK_NOT_FOUND, chk_merchant_name = None, chk_currency = None\<rparr>
      else case pw_page pw raw_link of
        PageHttpError status \<Rightarrow>
          \<lparr>chk_outcome = (if status = 404 \<or> status = 410 then CHECK_NOT_FOUND else CHECK_INCONCLUSIVE),
           chk_merchant_name = None, chk_currency = None\<rparr>
      | PageUnreachable \<Rightarrow>
          \<lparr>chk_outcome = CHECK_INCONCLUSIVE, chk_merchant_name = None, chk_currency = None\<rparr>
      | PageRead name currency \<Rightarrow>
          if or_str name [] = []
          then \<lparr>chk_outcome = CHECK_INCONCLUSIVE, chk_merchant_name = None, chk_currency = None\<rparr>
          else \<lparr>chk_outcome = CHECK_OK, chk_merchant_name = name, chk_currency = currency\<rparr>)"

section \<open>Links\<close>

definition MAX_LINKS :: nat where
  "MAX_LINKS = 2"

fun seen_currencies :: "string set \<Rightarrow> link_payload list \<Rightarrow> unit result" where
  "seen_currencies seen [] = Inr ()"
| "seen_currencies seen (c # cs) =
     (let currency = normalize_currency (Some (lp_currency c)) in
      if currency \<in> seen then Inl (HTTPException 400 ''duplicate_link_currency'')
      else seen_currencies (insert currency seen) cs)"

definition links_from ::
  "link_payload option \<Rightarrow> link_payload list option \<Rightarrow> link_payload list result"
where
  "links_from single many =
     (let many_sent = (case many of None \<Rightarrow> False | Some ls \<Rightarrow> ls \<noteq> []) in
      if single \<noteq> None \<and> many_sent then Inl (HTTPException 400 ''link_and_links'')
      else
        let candidates =
          (if many_sent then the many else case single of None \<Rightarrow> [] | Some l \<Rightarrow> [l]) in
        if length candidates > MAX_LINKS then Inl (HTTPException 400 ''too_many_links'')
        else rbind (seen_currencies {} candidates) (\<lambda>_. Inr candidates))"

definition PAYWAY_LINK_HOST :: string where
  "PAYWAY_LINK_HOST = ''payway.com.kh''"

definition slug_char :: "char \<Rightarrow> bool" where
  "slug_char c \<longleftrightarrow> is_dec c \<or> (65 \<le> code c \<and> code c \<le> 90) \<or> (97 \<le> code c \<and> code c \<le> 122) \<or>
     c \<in> {CHR ''.'', CHR ''_'', CHR ''-''}"

definition bare_slug :: "string \<Rightarrow> bool" where
  "bare_slug s \<longleftrightarrow> 4 \<le> length s \<and> length s \<le> 64 \<and> list_all slug_char s"

definition link_shape_error :: "string \<Rightarrow> string option" where
  "link_shape_error raw_link =
     (let s = py_strip raw_link in
      if s = [] then Some ''a link is required''
      else if CHR ''/'' \<in> set s then
        (if \<not> py_contains PAYWAY_LINK_HOST (py_lower s)
         then Some ''expected an ABA PayWay share link such as https://link.payway.com.kh/ABAPAYxxxxxxx''
         else None)
      else if \<not> bare_slug s
        then Some ''expected an ABA PayWay share link, or its slug (4-64 characters)''
      else None)"

definition enforce_currency_allowed :: "settings \<Rightarrow> link_payload \<Rightarrow> link_check \<Rightarrow> unit result" where
  "enforce_currency_allowed s payload check =
     (let requested = normalize_currency (Some (lp_currency payload));
          link_currency =
            (case chk_currency check of None \<Rightarrow> None
             | Some c \<Rightarrow> if c = [] then None else Some (normalize_currency (Some c))) in
      if requested = ''KHR'' \<and> \<not> enable_khr_currency s
        then Inl (HTTPException 400 ''khr_currency_disabled'')
      else if link_currency \<noteq> None \<and> link_currency \<noteq> Some requested
        then Inl (HTTPException 400 ''payway_link_currency_mismatch'')
      else if link_currency = None \<and> requested \<noteq> ''USD''
        then Inl (HTTPException 400 ''payway_link_currency_unverified'')
      else Inr ())"

text \<open>\<open>resolve_link\<close> fills a blank merchant name of the payload, so it returns the payload too.\<close>

definition resolve_link ::
  "settings \<Rightarrow> payway \<Rightarrow> link_payload \<Rightarrow> (link_verification \<times> link_payload) result"
where
  "resolve_link s pw payload =
     (let raw = py_strip (lp_raw_link payload) in
      if link_shape_error raw \<noteq> None then Inl (HTTPException 400 ''payway_link_invalid'')
      else let check = verify_link pw raw in
        if chk_outcome check = CHECK_NOT_FOUND then Inl (HTTPException 400 ''payway_link_not_found'')
        else rbind (enforce_currency_allowed s payload check) (\<lambda>_.
          if chk_outcome check = CHECK_OK then
            Inr (LINK_VERIFIED,
              if py_strip (or_str (lp_merchant_name payload) []) = [] \<and>
                 or_str (chk_merchant_name check) [] \<noteq> []
              then payload\<lparr>lp_merchant_name := chk_merchant_name check\<rparr> else payload)
          else Inr (LINK_UNVERIFIED, payload)))"

definition load_links :: "db \<Rightarrow> int \<Rightarrow> payment_link list" where
  "load_links d store_id = sort_key lk_id (filter (\<lambda>l. lk_store_id l = store_id) (payment_links d))"

definition primary_link :: "payment_link list \<Rightarrow> payment_link option" where
  "primary_link links =
     (case find (\<lambda>l. normalize_currency (Some (lk_currency l)) = ''USD'') links of
        Some l \<Rightarrow> Some l
      | None \<Rightarrow> (case links of [] \<Rightarrow> None | l # _ \<Rightarrow> Some l))"

definition load_link :: "db \<Rightarrow> int \<Rightarrow> string option \<Rightarrow> payment_link option result" where
  "load_link d store_id currency =
     (case currency of
        None \<Rightarrow> Inr (primary_link (load_links d store_id))
      | Some c \<Rightarrow> scalar_one_or_none
          (filter (\<lambda>l. lk_store_id l = store_id \<and> lk_currency l = normalize_currency (Some c))
            (payment_links d)))"

definition carry_forward_currency :: "db \<Rightarrow> int \<Rightarrow> link_payload \<Rightarrow> link_payload result" where
  "carry_forward_currency d store_id payload =
     (if lp_currency_set payload then Inr payload
      else let existing = load_links d store_id in
        if length existing = 1 \<and> lk_currency (hd existing) \<noteq> []
          then Inr (payload\<lparr>lp_currency := lk_currency (hd existing)\<rparr>)
        else if length existing > 1 then Inl (HTTPException 400 ''link_currency_required'')
        else Inr payload)"

definition link_values :: "link_payload \<Rightarrow> link_verification \<Rightarrow> payment_link \<Rightarrow> payment_link" where
  "link_values payload verification l =
     l\<lparr>lk_type := LINK_ABA_PAYWAY, lk_raw_link := lp_raw_link payload,
       lk_merchant_account_id := lp_merchant_account_id payload,
       lk_merchant_name := lp_merchant_name payload,
       lk_currency := normalize_currency (Some (lp_currency payload)),
       lk_verification := verification, lk_status := LINK_ACTIVE\<rparr>"

text \<open>A new row with the column defaults, before its values are written.\<close>

definition blank_link :: "db \<Rightarrow> int \<Rightarrow> payment_link" where
  "blank_link d store_id =
     \<lparr>lk_id = fresh_id lk_id (payment_links d), lk_store_id = store_id, lk_type = LINK_ABA_PAYWAY,
      lk_raw_link = [], lk_merchant_account_id = [], lk_merchant_name = None, lk_payway_client_id = None,
      lk_currency = ''USD'', lk_verification = LINK_VERIFIED, lk_min_amount_cents = 1,
      lk_max_amount_cents = None, lk_status = LINK_ACTIVE\<rparr>"

definition attach_link_to_store ::
  "int \<Rightarrow> link_payload \<Rightarrow> link_verification \<Rightarrow> db \<Rightarrow> db result"
where
  "attach_link_to_store store_id payload verification d =
     (let currency = normalize_currency (Some (lp_currency payload)) in
      rbind (scalar_one_or_none
          (filter (\<lambda>l. lk_store_id l = store_id \<and> lk_currency l = currency) (payment_links d)))
        (\<lambda>link. case link of
           None \<Rightarrow> Inr (d\<lparr>payment_links :=
             tadd (link_values payload verification (blank_link d store_id)) (payment_links d)\<rparr>)
         | Some l \<Rightarrow> Inr (d\<lparr>payment_links :=
             tupd lk_id (lk_id l) (link_values payload verification) (payment_links d)\<rparr>)))"

section \<open>Stores\<close>

definition truthy_field :: "string option \<Rightarrow> bool" where
  "truthy_field x \<longleftrightarrow> or_str x [] \<noteq> []"

definition reject_unentitled_branding :: "account \<Rightarrow> string option list \<Rightarrow> unit result" where
  "reject_unentitled_branding acct branding =
     (if acc_whitelabel_enabled acct then Inr ()
      else if list_ex truthy_field branding then Inl (HTTPException 403 ''whitelabel_not_enabled'')
      else Inr ())"

definition set_store :: "store \<Rightarrow> db \<Rightarrow> db" where
  "set_store st d = d\<lparr>stores := tupd st_id (st_id st) (\<lambda>_. st) (stores d)\<rparr>"

definition get_store :: "account \<Rightarrow> string \<Rightarrow> db \<Rightarrow> store result" where
  "get_store acct public_id d =
     rbind (scalar_one_or_none
         (filter (\<lambda>st. st_account_id st = acc_id acct \<and> st_public_id st = public_id) (stores d)))
       (\<lambda>r. case r of None \<Rightarrow> Inl (HTTPException 404 ''store_not_found'') | Some st \<Rightarrow> Inr st)"

definition list_stores :: "account \<Rightarrow> db \<Rightarrow> store list" where
  "list_stores acct d = sort_key st_id (filter (\<lambda>st. st_account_id st = acc_id acct) (stores d))"

definition verification_name :: "link_verification \<Rightarrow> string" where
  "verification_name v = (case v of LINK_VERIFIED \<Rightarrow> ''verified'' | LINK_UNVERIFIED \<Rightarrow> ''unverified'')"

definition store_status_name :: "store_status \<Rightarrow> string" where
  "store_status_name v = (case v of STORE_DRAFT \<Rightarrow> ''draft'' | STORE_LINK_PENDING \<Rightarrow> ''link_pending''
     | STORE_ACTIVE \<Rightarrow> ''active'' | STORE_DISABLED \<Rightarrow> ''disabled'')"

definition link_details :: "link_payload \<Rightarrow> (string \<times> json) list" where
  "link_details payload =
     [(''merchant_account_id'', JStr (lp_merchant_account_id payload)),
      (''merchant_name'', json_opt_str (lp_merchant_name payload))]"

text \<open>One turn of the loop over the links of a create or an update.  \<open>flush\<close> is the outcome of writing
  the pending row, which the query inside \<open>attach_link_to_store\<close> does first; \<open>promote\<close> says which status
  a verified link turns into active.\<close>

definition set_link ::
  "settings \<Rightarrow> payway \<Rightarrow> account \<Rightarrow> unit result \<Rightarrow> (store_status \<Rightarrow> bool) \<Rightarrow> link_payload \<Rightarrow>
     store \<times> db \<Rightarrow> (store \<times> db) result"
where
  "set_link s pw acct flush promote payload st_d =
     (case st_d of (st, d) \<Rightarrow>
        rbind (resolve_link s pw payload) (\<lambda>(verification, payload').
        rbind flush (\<lambda>_.
        rbind (attach_link_to_store (st_id st) payload' verification d) (\<lambda>d1.
          let st1 = (if verification = LINK_VERIFIED \<and> promote (st_status st)
                     then st\<lparr>st_status := STORE_ACTIVE\<rparr> else st);
              d2 = set_store st1 d1
          in Inr (st1, audit_record (Some acct) ''store.link_set'' ''Store'' (st_id st)
               (link_details payload' @
                [(''currency'', JStr (normalize_currency (Some (lp_currency payload')))),
                 (''verification'', JStr (verification_name verification))]) d2)))))"

fun set_links ::
  "settings \<Rightarrow> payway \<Rightarrow> account \<Rightarrow> unit result \<Rightarrow> (store_status \<Rightarrow> bool) \<Rightarrow> link_payload list \<Rightarrow>
     store \<times> db \<Rightarrow> (store \<times> db) result"
where
  "set_links s pw acct flush promote [] st_d = Inr st_d"
| "set_links s pw acct flush promote (p # ps) st_d =
     rbind (set_link s pw acct flush promote p st_d) (set_links s pw acct flush promote ps)"

definition new_store :: "account \<Rightarrow> store_create \<Rightarrow> string \<Rightarrow> instant \<Rightarrow> db \<Rightarrow> store" where
  "new_store acct payload public_id now d =
     \<lparr>st_id = fresh_id st_id (stores d), st_public_id = public_id, st_account_id = acc_id acct,
      st_created_via = ''api'', st_name = sc_name payload, st_external_id = sc_external_id payload,
      st_city = sc_city payload, st_support_email = sc_support_email payload,
      st_redirect_success_url = sc_redirect_success_url payload,
      st_redirect_failure_url = sc_redirect_failure_url payload,
      st_telegram_chat_id = sc_telegram_chat_id payload, st_brand_color = sc_brand_color payload,
      st_logo_image_url = sc_logo_image_url payload, st_whitelabel_css = sc_whitelabel_css payload,
      st_is_internal = False, st_billing_suspended_at = None, st_status = STORE_DRAFT,
      st_created_at = now, st_updated_at = now\<rparr>"

text \<open>\<open>public_id\<close> is the generated id; the unique column refuses one that is taken.\<close>

definition create_store ::
  "settings \<Rightarrow> payway \<Rightarrow> string \<Rightarrow> instant \<Rightarrow> account \<Rightarrow> store_create \<Rightarrow> db \<Rightarrow> (store \<times> db) result"
where
  "create_store s pw public_id now acct payload d =
     rbind (reject_unentitled_branding acct
         [sc_brand_color payload, sc_logo_image_url payload, sc_whitelabel_css payload]) (\<lambda>_.
       let st = new_store acct payload public_id now d;
           d1 = audit_record (Some acct) ''store.created'' ''Store'' (st_id st)
                  [(''name'', JStr (st_name st)), (''external_id'', json_opt_str (st_external_id st))]
                  (d\<lparr>stores := tadd st (stores d)\<rparr>)
       in rbind (guard (public_id \<notin> st_public_id ` set (stores d)) (RuntimeError ''IntegrityError'')) (\<lambda>_.
            rbind (links_from (sc_link payload) (sc_links payload)) (\<lambda>ls.
            set_links s pw acct (Inr ()) (\<lambda>_. True) ls (st, d1))))"

definition attach_link ::
  "settings \<Rightarrow> payway \<Rightarrow> account \<Rightarrow> string \<Rightarrow> link_payload \<Rightarrow> db \<Rightarrow> (store \<times> db) result"
where
  "attach_link s pw acct public_id payload d =
     rbind (get_store acct public_id d) (\<lambda>st.
       if st_status st = STORE_DISABLED then Inl (HTTPException 400 ''store_disabled'')
       else rbind (carry_forward_currency d (st_id st) payload) (\<lambda>payload1.
         rbind (resolve_link s pw payload1) (\<lambda>(verification, payload2).
         rbind (attach_link_to_store (st_id st) payload2 verification d) (\<lambda>d1.
           let st1 = (if verification = LINK_VERIFIED then st\<lparr>st_status := STORE_ACTIVE\<rparr> else st)
           in Inr (st1, audit_record (Some acct) ''store.link_set'' ''Store'' (st_id st)
                (link_details payload2 @ [(''verification'', JStr (verification_name verification))])
                (set_store st1 d1))))))"

definition disable_store :: "account \<Rightarrow> string \<Rightarrow> db \<Rightarrow> (store \<times> db) result" where
  "disable_store acct public_id d =
     rbind (get_store acct public_id d) (\<lambda>st.
       let st1 = st\<lparr>st_status := STORE_DISABLED\<rparr>
       in Inr (st1, audit_record (Some acct) ''store.disabled'' ''Store'' (st_id st)
            [(''name'', JStr (st_name st))] (set_store st1 d)))"

definition enable_store :: "account \<Rightarrow> string \<Rightarrow> db \<Rightarrow> (store \<times> db) result" where
  "enable_store acct public_id d =
     rbind (get_store acct public_id d) (\<lambda>st.
       if st_status st \<noteq> STORE_DISABLED then Inr (st, d)
       else rbind (scalar_one_or_none
              (map lk_id (filter (\<lambda>l. lk_store_id l = st_id st) (payment_links d)))) (\<lambda>has_link.
         let restored = (if has_link \<noteq> None then STORE_ACTIVE else STORE_DRAFT);
             st1 = st\<lparr>st_status := restored\<rparr>
         in Inr (st1, audit_record (Some acct) ''store.enabled'' ''Store'' (st_id st)
              [(''name'', JStr (st_name st)), (''status'', JStr (store_status_name restored))]
              (set_store st1 d))))"

section \<open>The store cap\<close>

text \<open>\<open>plan_max_stores\<close>: the allowance column of the account's live plan.\<close>

definition live_plan_max_stores :: "db \<Rightarrow> account \<Rightarrow> int option result" where
  "live_plan_max_stores d acct =
     rbind (scalar_one_or_none
         [plan_max_stores p. sub \<leftarrow> plan_subscriptions d,
            sub_account_id sub = acc_id acct \<and> (sub_status sub = SUB_TRIAL \<or> sub_status sub = SUB_ACTIVE),
            p \<leftarrow> plans d, plan_id p = sub_plan_id sub])
       (\<lambda>r. Inr (case r of None \<Rightarrow> None | Some m \<Rightarrow> m))"

definition store_held :: "store \<Rightarrow> bool" where
  "store_held st \<longleftrightarrow> st_billing_suspended_at st \<noteq> None"

definition hold_store :: "instant \<Rightarrow> store \<Rightarrow> store" where
  "hold_store now st = st\<lparr>st_billing_suspended_at := Some now, st_updated_at := now\<rparr>"

definition release_store :: "instant \<Rightarrow> store \<Rightarrow> store" where
  "release_store now st = st\<lparr>st_billing_suspended_at := None, st_updated_at := now\<rparr>"

text \<open>The \<open>n\<close> rows with the highest ids, highest first.\<close>

definition newest :: "int \<Rightarrow> store list \<Rightarrow> store list" where
  "newest n sts = take (nat n) (rev (sort_key st_id sts))"

definition modify_stores :: "store list \<Rightarrow> (store \<Rightarrow> store) \<Rightarrow> db \<Rightarrow> db" where
  "modify_stores sts f d =
     d\<lparr>stores := tmodify (\<lambda>st. st_id st \<in> set (map st_id sts)) f (stores d)\<rparr>"

definition apply_store_cap :: "account \<Rightarrow> int option \<Rightarrow> instant \<Rightarrow> db \<Rightarrow> store list \<times> db" where
  "apply_store_cap acct max_stores now d =
     (case max_stores of
        None \<Rightarrow> ([], d)
      | Some m \<Rightarrow>
          let sts = list_stores acct d;
              held = filter store_held sts;
              free = filter (\<lambda>st. \<not> store_held st) sts
          in if int (length free) > m then
               let surplus = newest (int (length free) - m) free
               in (sort_key st_id (map (hold_store now) surplus), modify_stores surplus (hold_store now) d)
             else if int (length free) < m \<and> held \<noteq> [] then
               let shortage = newest (m - int (length free)) held
               in ([], modify_stores shortage (release_store now) d)
             else ([], d))"

record store_slot_move =
  sm_store :: store
  sm_displaced :: "store option"
  sm_moved :: bool

definition live_stores :: "account \<Rightarrow> db \<Rightarrow> store list" where
  "live_stores acct d = filter (\<lambda>st. \<not> store_held st) (list_stores acct d)"

definition move_store_slot ::
  "account \<Rightarrow> string \<Rightarrow> instant \<Rightarrow> db \<Rightarrow> (store_slot_move \<times> db) result"
where
  "move_store_slot acct public_id now d =
     rbind (get_store acct public_id d) (\<lambda>st.
       if st_status st = STORE_DISABLED then Inl (HTTPException 409 ''store_disabled'')
       else if \<not> store_held st then Inr (\<lparr>sm_store = st, sm_displaced = None, sm_moved = False\<rparr>, d)
       else rbind (live_plan_max_stores d acct) (\<lambda>max_stores.
         let st1 = release_store now st;
             d1 = set_store st1 d;
             displaced =
               (case max_stores of
                  None \<Rightarrow> []
                | Some m \<Rightarrow>
                    let live = live_stores acct d1; surplus = int (length live) - m
                    in if surplus > 0 then newest surplus (filter (\<lambda>x. st_id x \<noteq> st_id st) live) else []);
             d2 = modify_stores displaced (hold_store now) d1;
             first = (case displaced of [] \<Rightarrow> None | x # _ \<Rightarrow> Some (hold_store now x))
         in Inr (\<lparr>sm_store = st1, sm_displaced = first, sm_moved = True\<rparr>,
              audit_record (Some acct) ''store.slot_moved'' ''Store'' (st_id st)
                [(''name'', JStr (st_name st)),
                 (''displaced_id'', case first of None \<Rightarrow> JNull | Some x \<Rightarrow> JInt (st_id x)),
                 (''displaced_name'', case first of None \<Rightarrow> JNull | Some x \<Rightarrow> JStr (st_name x))] d2)))"

section \<open>Updating a store\<close>

definition patch_flush :: "store_patch \<Rightarrow> unit result" where
  "patch_flush p = guard (sp_name p \<noteq> Some None \<and> sp_city p \<noteq> Some None) (RuntimeError ''IntegrityError'')"

text \<open>\<open>apply_to\<close>; a \<^verbatim>\<open>null\<close> for a column that is not nullable fails when the row is flushed.\<close>

definition apply_to :: "store_patch \<Rightarrow> store \<Rightarrow> store" where
  "apply_to p st =
     (let set_opt = (\<lambda>v old. case v of None \<Rightarrow> old | Some new \<Rightarrow> new);
          set_req = (\<lambda>v old. case v of Some (Some new) \<Rightarrow> new | _ \<Rightarrow> old)
      in st\<lparr>st_name := set_req (sp_name p) (st_name st),
            st_external_id := set_opt (sp_external_id p) (st_external_id st),
            st_city := set_req (sp_city p) (st_city st),
            st_support_email := set_opt (sp_support_email p) (st_support_email st),
            st_redirect_success_url := set_opt (sp_redirect_success_url p) (st_redirect_success_url st),
            st_redirect_failure_url := set_opt (sp_redirect_failure_url p) (st_redirect_failure_url st),
            st_telegram_chat_id := set_opt (sp_telegram_chat_id p) (st_telegram_chat_id st),
            st_brand_color := set_opt (sp_brand_color p) (st_brand_color st),
            st_logo_image_url := set_opt (sp_logo_image_url p) (st_logo_image_url st),
            st_whitelabel_css := set_opt (sp_whitelabel_css p) (st_whitelabel_css st)\<rparr>)"

definition patch_fields_set :: "store_patch \<Rightarrow> string list" where
  "patch_fields_set p =
     map fst (filter snd
       [(''brand_color'', sp_brand_color p \<noteq> None), (''city'', sp_city p \<noteq> None),
        (''external_id'', sp_external_id p \<noteq> None), (''link'', sp_link p \<noteq> None),
        (''links'', sp_links p \<noteq> None), (''logo_image_url'', sp_logo_image_url p \<noteq> None),
        (''name'', sp_name p \<noteq> None), (''redirect_failure_url'', sp_redirect_failure_url p \<noteq> None),
        (''redirect_success_url'', sp_redirect_success_url p \<noteq> None),
        (''support_email'', sp_support_email p \<noteq> None),
        (''telegram_chat_id'', sp_telegram_chat_id p \<noteq> None),
        (''whitelabel_css'', sp_whitelabel_css p \<noteq> None)])"

definition sent :: "'a option option \<Rightarrow> 'a option" where
  "sent x = (case x of None \<Rightarrow> None | Some v \<Rightarrow> v)"

definition update_store ::
  "settings \<Rightarrow> payway \<Rightarrow> account \<Rightarrow> string \<Rightarrow> store_patch \<Rightarrow> db \<Rightarrow> (store \<times> db) result"
where
  "update_store s pw acct public_id p d =
     rbind (get_store acct public_id d) (\<lambda>st.
       if st_status st = STORE_DISABLED then Inl (HTTPException 400 ''store_disabled'')
       else rbind (reject_unentitled_branding acct
              [sent (sp_brand_color p), sent (sp_logo_image_url p), sent (sp_whitelabel_css p)]) (\<lambda>_.
         let st1 = apply_to p st;
             d1 = set_store st1 d;
             fields = patch_fields_set p;
             d2 = (if fields \<noteq> [] then audit_record (Some acct) ''store.updated'' ''Store'' (st_id st)
                     [(''fields'', JList (map JStr fields))] d1 else d1)
         in rbind (case sent (sp_link p) of
                     None \<Rightarrow> Inr None
                   | Some l \<Rightarrow> rbind (if lp_currency_set l then Inr () else patch_flush p) (\<lambda>_.
                       rbind (carry_forward_currency d2 (st_id st) l) (\<lambda>l1. Inr (Some l1)))) (\<lambda>single.
            rbind (links_from single (sent (sp_links p))) (\<lambda>ls.
            rbind (set_links s pw acct (patch_flush p) (\<lambda>v. v = STORE_DRAFT) ls (st1, d2)) (\<lambda>r.
            rbind (patch_flush p) (\<lambda>_. Inr r))))))"


section \<open>Vocabulary of the statements\<close>

text \<open>A store without its billing hold.\<close>

definition without_hold :: "store \<Rightarrow> store" where
  "without_hold st = st\<lparr>st_billing_suspended_at := None, st_updated_at := 0\<rparr>"

definition links_ok :: "db \<Rightarrow> bool" where
  "links_ok d \<longleftrightarrow> distinct_keys lk_id (payment_links d) \<and>
     distinct (map (\<lambda>l. (lk_store_id l, lk_currency l)) (payment_links d))"

definition store_keys :: "db \<Rightarrow> (int \<times> string) list" where
  "store_keys d = map (\<lambda>st. (st_id st, st_public_id st)) (stores d)"

text \<open>What the unique constraints on stores and links promise, at most one link per store and
  currency among them.\<close>

definition store_inv :: "db \<Rightarrow> bool" where
  "store_inv d \<longleftrightarrow> distinct (map fst (store_keys d)) \<and> distinct (map snd (store_keys d)) \<and> links_ok d"

text \<open>The requests a merchant makes of this component, in any order.\<close>

datatype store_request =
    CreateStore string store_create
  | AttachLink string link_payload
  | DisableStore string
  | EnableStore string
  | MoveSlot string
  | UpdateStore string store_patch

fun handle_store_request ::
  "settings \<Rightarrow> payway \<Rightarrow> account \<Rightarrow> instant \<Rightarrow> store_request \<Rightarrow> db \<Rightarrow> db result"
where
  "handle_store_request s pw acct now (CreateStore pid p) d =
     rbind (create_store s pw pid now acct p d) (\<lambda>r. Inr (snd r))"
| "handle_store_request s pw acct now (AttachLink pid p) d =
     rbind (attach_link s pw acct pid p d) (\<lambda>r. Inr (snd r))"
| "handle_store_request s pw acct now (DisableStore pid) d =
     rbind (disable_store acct pid d) (\<lambda>r. Inr (snd r))"
| "handle_store_request s pw acct now (EnableStore pid) d =
     rbind (enable_store acct pid d) (\<lambda>r. Inr (snd r))"
| "handle_store_request s pw acct now (MoveSlot pid) d =
     rbind (move_store_slot acct pid now d) (\<lambda>r. Inr (snd r))"
| "handle_store_request s pw acct now (UpdateStore pid p) d =
     rbind (update_store s pw acct pid p d) (\<lambda>r. Inr (snd r))"

text \<open>A request that raises leaves the database as it was.\<close>

definition store_request_step ::
  "settings \<Rightarrow> payway \<Rightarrow> account \<times> instant \<times> store_request \<Rightarrow> db \<Rightarrow> db"
where
  "store_request_step s pw r d =
     (case r of (acct, now, req) \<Rightarrow>
        case handle_store_request s pw acct now req d of Inl _ \<Rightarrow> d | Inr d' \<Rightarrow> d')"

text \<open>PayWay's page names a merchant and, where it names a currency, names this one.\<close>

definition link_confirmed :: "payway \<Rightarrow> string \<Rightarrow> string \<Rightarrow> bool" where
  "link_confirmed pw raw currency =
     (case pw_page pw raw of
        PageRead name c \<Rightarrow> or_str name [] \<noteq> [] \<and>
          (if or_str c [] = [] then currency = ''USD'' else normalize_currency c = currency)
      | _ \<Rightarrow> False)"

text \<open>Rows and a page for the concrete instances.\<close>

definition demo_payway :: payway where
  "demo_payway = \<lparr>pw_slug = (\<lambda>s. s), pw_page = (\<lambda>s. PageRead (Some ''Demo Cafe'') (Some ''KHR''))\<rparr>"

definition demo_link_payload :: link_payload where
  "demo_link_payload = \<lparr>lp_raw_link = ''ABAPAYx'', lp_merchant_account_id = ''demo@abaa'',
     lp_merchant_name = None, lp_currency = ''KHR'', lp_currency_set = True\<rparr>"

definition demo_plan :: plan where
  "demo_plan = \<lparr>plan_id = 2, plan_name = ''Starter'', plan_code = ''starter'', plan_monthly_fee_cents = 500,
     plan_base_payments_included = 100, plan_currency = ''USD'', plan_max_stores = Some 1,
     plan_max_keys_per_account = 5, plan_max_webhooks_per_account = 5, plan_priority_support = False,
     plan_is_public = True, plan_is_active = True,
     plan_tagline = None, plan_features = None, plan_is_featured = False\<rparr>"

definition demo_subscription :: plan_subscription where
  "demo_subscription = \<lparr>sub_id = 9, sub_account_id = 3, sub_plan_id = 2, sub_status = SUB_ACTIVE,
     sub_started_at = Some 0, sub_canceled_at = None, sub_next_billing_at = days 30, sub_trial_ends_at = None, sub_created_at = 0,
     sub_updated_at = 0\<rparr>"

definition shop_db :: db where
  "shop_db = empty_db\<lparr>accounts := [sample_account],
     stores := [sample_store, sample_store\<lparr>st_id := 8, st_public_id := ''st_two''\<rparr>,
       sample_store\<lparr>st_id := 9, st_public_id := ''st_three'', st_billing_suspended_at := Some 1\<rparr>],
     payment_links := [sample_link], plans := [demo_plan], plan_subscriptions := [demo_subscription]\<rparr>"

section \<open>Sorted lists of stores\<close>

lemma insort_key_map:
  "(\<And>x. k (g x) = k x) \<Longrightarrow> insort_key k (g x) (map g xs) = map g (insort_key k x xs)"
  by (induction xs) auto

lemma sort_key_map: "(\<And>x. k (g x) = k x) \<Longrightarrow> sort_key k (map g xs) = map g (sort_key k xs)"
  by (induction xs) (simp_all add: insort_key_map)

lemma filter_key_take:
  assumes "distinct (map k xs)"
  shows "filter (\<lambda>x. k x \<notin> k ` set (drop n xs)) xs = take n xs"
proof -
  have "distinct (map k (take n xs @ drop n xs))"
    using assms by simp
  then have "k ` set (take n xs) \<inter> k ` set (drop n xs) = {}"
    by (simp only: map_append distinct_append set_map)
  then have "filter (\<lambda>x. k x \<notin> k ` set (drop n xs)) (take n xs) = take n xs"
    by (auto simp: filter_id_conv)
  moreover have "filter (\<lambda>x. k x \<notin> k ` set (drop n xs)) (drop n xs) = []"
    by (auto simp: filter_empty_conv)
  ultimately have "filter (\<lambda>x. k x \<notin> k ` set (drop n xs)) (take n xs @ drop n xs) = take n xs"
    by (simp only: filter_append append_Nil2)
  then show ?thesis by simp
qed

lemma newest_sorted:
  assumes "sorted (map st_id xs)"
  shows "newest n xs = rev (drop (length xs - nat n) xs)"
  using assms by (simp add: newest_def sorted_sort_id sort_key_id_if_sorted take_rev)

lemma set_newest: "set (newest n xs) \<subseteq> set xs"
  using set_take_subset [of "nat n" "rev (sort_key st_id xs)"] by (simp add: newest_def)

lemma length_newest: "length (newest n xs) = min (nat n) (length xs)"
  by (simp add: newest_def)

lemma distinct_newest: "distinct (map st_id xs) \<Longrightarrow> distinct (map st_id (newest n xs))"
proof -
  assume "distinct (map st_id xs)"
  then have "distinct (map st_id (rev (sort_key st_id xs)))"
    by (metis distinct_map distinct_rev distinct_sort set_rev set_sort)
  then show ?thesis
    by (simp only: newest_def take_map [symmetric] distinct_take)
qed

lemma list_stores_sorted: "sorted (map st_id (list_stores acct d))"
  by (simp add: list_stores_def)

lemma list_stores_distinct:
  assumes "distinct_keys st_id (stores d)"
  shows "distinct (map st_id (list_stores acct d))"
proof -
  have "distinct (map st_id (filter (\<lambda>st. st_account_id st = acc_id acct) (stores d)))"
    using assms by (simp add: distinct_keys_def distinct_map_filter)
  then show ?thesis
    unfolding list_stores_def by (metis distinct_map distinct_sort set_sort)
qed

lemma list_stores_modify:
  assumes "\<And>st. st_id (f st) = st_id st" "\<And>st. st_account_id (f st) = st_account_id st"
  shows "list_stores acct (modify_stores sts f d) =
    map (\<lambda>st. if st_id st \<in> st_id ` set sts then f st else st) (list_stores acct d)"
proof -
  let ?g = "\<lambda>st. if st_id st \<in> st_id ` set sts then f st else st"
  have "filter (\<lambda>st. st_account_id st = acc_id acct) (map ?g xs) =
      map ?g (filter (\<lambda>st. st_account_id st = acc_id acct) xs)" for xs
    by (induction xs) (auto simp: assms(2))
  then show ?thesis
    using assms(1) by (simp add: list_stores_def modify_stores_def tmodify_def sort_key_map)
qed

lemma hold_store_simps [simp]:
  "st_id (hold_store now st) = st_id st" "st_account_id (hold_store now st) = st_account_id st"
  "store_held (hold_store now st)" "without_hold (hold_store now st) = without_hold st"
  "st_id (release_store now st) = st_id st" "st_account_id (release_store now st) = st_account_id st"
  "\<not> store_held (release_store now st)" "without_hold (release_store now st) = without_hold st"
  by (simp_all add: hold_store_def release_store_def store_held_def without_hold_def)

lemma live_stores_hold:
  "live_stores acct (modify_stores sts (hold_store now) d) =
    filter (\<lambda>st. st_id st \<notin> st_id ` set sts) (live_stores acct d)"
proof -
  let ?g = "\<lambda>st. if st_id st \<in> st_id ` set sts then hold_store now st else st"
  have "filter (\<lambda>st. \<not> store_held st) (map ?g xs) =
      filter (\<lambda>st. st_id st \<notin> st_id ` set sts) (filter (\<lambda>st. \<not> store_held st) xs)" for xs
    by (induction xs) auto
  then show ?thesis
    by (simp add: live_stores_def list_stores_modify)
qed

lemma held_stores_release:
  "filter store_held (list_stores acct (modify_stores sts (release_store now) d)) =
    filter (\<lambda>st. st_id st \<notin> st_id ` set sts) (filter store_held (list_stores acct d))"
proof -
  let ?g = "\<lambda>st. if st_id st \<in> st_id ` set sts then release_store now st else st"
  have "filter store_held (map ?g xs) =
      filter (\<lambda>st. st_id st \<notin> st_id ` set sts) (filter store_held xs)" for xs
    by (induction xs) auto
  then show ?thesis
    by (simp add: list_stores_modify)
qed

text \<open>Holding the newest rows of a sorted list keeps exactly its oldest ones.\<close>

lemma filter_newest:
  assumes "sorted (map st_id xs)" "distinct (map st_id xs)"
  shows "filter (\<lambda>st. st_id st \<notin> st_id ` set (newest n xs)) xs = take (length xs - nat n) xs"
  using filter_key_take [OF assms(2)] by (simp add: newest_sorted assms(1))

lemma sorted_distinct_filter:
  assumes "sorted (map st_id xs)" "distinct (map st_id xs)"
  shows "sorted (map st_id (filter P xs)) \<and> distinct (map st_id (filter P xs))"
  using assms by (simp add: sorted_filter distinct_map_filter)

lemma live_stores_sorted: "sorted (map st_id (live_stores acct d))"
  by (simp add: live_stores_def sorted_filter list_stores_sorted)

lemma live_stores_distinct:
  "distinct_keys st_id (stores d) \<Longrightarrow> distinct (map st_id (live_stores acct d))"
  by (simp add: live_stores_def distinct_map_filter list_stores_distinct)

lemma length_live_held:
  "length (live_stores acct d) + length (filter store_held (list_stores acct d)) = length (list_stores acct d)"
  using sum_length_filter_compl [of store_held "list_stores acct d"] by (simp add: live_stores_def)


section \<open>The store cap\<close>

lemma live_stores_hold_newest:
  assumes "distinct_keys st_id (stores d)"
  shows "live_stores acct (modify_stores (newest n (live_stores acct d)) (hold_store now) d) =
    take (length (live_stores acct d) - nat n) (live_stores acct d)"
  using live_stores_sorted live_stores_distinct [OF assms]
  by (simp add: live_stores_hold filter_newest)

lemma held_stores_release_newest:
  fixes acct
  assumes "distinct_keys st_id (stores d)"
  defines "held \<equiv> filter store_held (list_stores acct d)"
  shows "filter store_held (list_stores acct (modify_stores (newest n held) (release_store now) d)) =
    take (length held - nat n) held"
  unfolding held_def held_stores_release
  using sorted_distinct_filter [OF list_stores_sorted list_stores_distinct [OF assms(1)]]
  by (intro filter_newest) auto

lemma length_list_stores_modify:
  "(\<And>st. st_id (f st) = st_id st) \<Longrightarrow> (\<And>st. st_account_id (f st) = st_account_id st) \<Longrightarrow>
    length (list_stores acct (modify_stores sts f d)) = length (list_stores acct d)"
  by (simp add: list_stores_modify)

lemma apply_store_cap_shape:
  "apply_store_cap acct (Some m) now d =
    (if int (length (live_stores acct d)) > m
     then (sort_key st_id (map (hold_store now) (newest (int (length (live_stores acct d)) - m) (live_stores acct d))),
       modify_stores (newest (int (length (live_stores acct d)) - m) (live_stores acct d)) (hold_store now) d)
     else if int (length (live_stores acct d)) < m \<and> filter store_held (list_stores acct d) \<noteq> []
     then ([], modify_stores (newest (m - int (length (live_stores acct d))) (filter store_held (list_stores acct d)))
       (release_store now) d)
     else ([], d))"
  by (simp add: apply_store_cap_def live_stores_def Let_def)

lemma apply_store_cap_live:
  fixes acct now
  assumes "distinct_keys st_id (stores d)" "0 \<le> m"
  defines "d' \<equiv> snd (apply_store_cap acct (Some m) now d)"
  shows "length (live_stores acct d') = min (nat m) (length (list_stores acct d))"
    and "length (list_stores acct d') = length (list_stores acct d)"
    and "nat m \<le> length (live_stores acct d) \<Longrightarrow> live_stores acct d' = take (nat m) (live_stores acct d)"
proof -
  let ?L = "live_stores acct d" and ?H = "filter store_held (list_stores acct d)"
  have total: "length ?L + length ?H = length (list_stores acct d)"
    by (rule length_live_held)
  show n: "length (list_stores acct d') = length (list_stores acct d)"
    by (simp add: d'_def apply_store_cap_shape length_list_stores_modify)
  consider "int (length ?L) > m" | "int (length ?L) < m" "?H \<noteq> []" | "int (length ?L) = m"
    | "int (length ?L) < m" "?H = []"
    by linarith
  then have "length (live_stores acct d') = min (nat m) (length (list_stores acct d)) \<and>
    (nat m \<le> length ?L \<longrightarrow> live_stores acct d' = take (nat m) ?L)" (is ?goal)
  proof cases
    case 1
    then have "live_stores acct d' = take (length ?L - nat (int (length ?L) - m)) ?L"
      by (simp add: d'_def apply_store_cap_shape live_stores_hold_newest [OF assms(1)])
    also have "length ?L - nat (int (length ?L) - m) = nat m"
      using 1 assms(2) by linarith
    finally show ?goal
      using 1 total by auto
  next
    case 2
    then have "filter store_held (list_stores acct d') = take (length ?H - nat (m - int (length ?L))) ?H"
      by (simp add: d'_def apply_store_cap_shape held_stores_release_newest [OF assms(1)])
    then have "length (filter store_held (list_stores acct d')) = length ?H - nat (m - int (length ?L))"
      by simp
    with length_live_held [of acct d'] n total 2
    have "length (live_stores acct d') = min (nat m) (length (list_stores acct d))"
      by linarith
    with 2 show ?goal
      by auto
  next
    case 3
    then show ?goal
      using total by (auto simp: d'_def apply_store_cap_shape)
  next
    case 4
    then show ?goal
      using total by (auto simp: d'_def apply_store_cap_shape)
  qed
  then show "length (live_stores acct d') = min (nat m) (length (list_stores acct d))"
    "nat m \<le> length ?L \<Longrightarrow> live_stores acct d' = take (nat m) ?L"
    by auto
qed

lemma apply_store_cap_stable:
  assumes "length (live_stores acct d) = min (nat m) (length (list_stores acct d))" "0 \<le> m"
  shows "apply_store_cap acct (Some m) now d = ([], d)"
proof -
  have "int (length (live_stores acct d)) \<le> m"
    using assms by linarith
  moreover have "filter store_held (list_stores acct d) = []" if "int (length (live_stores acct d)) < m"
  proof -
    have "length (live_stores acct d) = length (list_stores acct d)"
      using assms that by linarith
    then show ?thesis
      using length_live_held [of acct d] by simp
  qed
  ultimately show ?thesis
    by (auto simp: apply_store_cap_shape)
qed

lemma without_hold_modify:
  "(\<And>st. without_hold (f st) = without_hold st) \<Longrightarrow>
    map without_hold (stores (modify_stores sts f d)) = map without_hold (stores d)"
  by (simp add: modify_stores_def tmodify_def)

lemma modify_stores_frame [simp]: "(modify_stores sts f d)\<lparr>stores := x\<rparr> = d\<lparr>stores := x\<rparr>"
  by (simp add: modify_stores_def)

lemma modify_stores_other:
  assumes "distinct_keys st_id (stores d)" "set sts \<subseteq> set (list_stores acct d)"
    and "\<And>st. st_account_id (f st) = st_account_id st"
  shows "filter (\<lambda>st. st_account_id st \<noteq> acc_id acct) (stores (modify_stores sts f d)) =
    filter (\<lambda>st. st_account_id st \<noteq> acc_id acct) (stores d)"
proof -
  have same: "st_account_id st = acc_id acct" if "st \<in> set (stores d)" "st_id st \<in> st_id ` set sts" for st
    using that assms(2) rows.rows_eq [OF assms(1) that(1)] by (auto simp: list_stores_def)
  let ?g = "\<lambda>st. if st_id st \<in> st_id ` set sts then f st else st"
  have "filter (\<lambda>st. st_account_id st \<noteq> acc_id acct) (map ?g xs) =
      filter (\<lambda>st. st_account_id st \<noteq> acc_id acct) xs" if "set xs \<subseteq> set (stores d)" for xs
    using that by (induction xs) (auto simp: assms(3) same)
  then show ?thesis
    by (simp add: modify_stores_def tmodify_def)
qed


section \<open>Moving a slot\<close>

lemma length_filter_out:
  assumes "distinct (map k xs)" "set ys \<subseteq> set xs" "distinct (map k ys)"
  shows "length (filter (\<lambda>x. k x \<notin> k ` set ys) xs) + length ys = length xs"
proof -
  have inj: "inj_on k (set xs)"
    using assms(1) by (simp add: distinct_map)
  have "set (filter (\<lambda>x. k x \<in> k ` set ys) xs) = set ys"
    using assms(2) inj by (auto dest: inj_onD)
  moreover have "distinct (filter (\<lambda>x. k x \<in> k ` set ys) xs)" "distinct ys"
    using assms(1,3) by (auto simp: distinct_map)
  ultimately have "length (filter (\<lambda>x. k x \<in> k ` set ys) xs) = length ys"
    by (metis distinct_card)
  then show ?thesis
    using sum_length_filter_compl [of "\<lambda>x. k x \<in> k ` set ys" xs] by simp
qed

lemma set_store_modify:
  assumes "distinct_keys st_id (stores d)" "st \<in> set (stores d)" "st_id (f st) = st_id st"
  shows "set_store (f st) d = modify_stores [st] f d"
proof -
  have "tupd st_id (st_id (f st)) (\<lambda>_. f st) (stores d) = tmodify (\<lambda>x. st_id x \<in> set (map st_id [st])) f (stores d)"
    unfolding tupd_def tmodify_def
    using rows.rows_eq [OF assms(1) _ assms(2)] assms(3) by auto
  then show ?thesis
    by (simp add: set_store_def modify_stores_def)
qed

lemma get_store_Inr:
  "get_store acct pid d = Inr st \<Longrightarrow>
    st \<in> set (stores d) \<and> st_account_id st = acc_id acct \<and> st_public_id st = pid"
proof -
  assume "get_store acct pid d = Inr st"
  then have "filter (\<lambda>st. st_account_id st = acc_id acct \<and> st_public_id st = pid) (stores d) = [st]"
    by (auto simp: get_store_def scalar_one_or_none_Inr split: option.splits)
  then show ?thesis
    by (auto dest!: arg_cong [of _ _ set])
qed

lemma distinct_keys_modify_stores:
  "distinct_keys st_id (stores d) \<Longrightarrow> (\<And>st. st_id (f st) = st_id st) \<Longrightarrow>
    distinct_keys st_id (stores (modify_stores sts f d))"
  by (simp add: modify_stores_def distinct_keys_tmodify)

text \<open>A released store joins the live ones, and the room it needs is taken from the newest others.\<close>

lemma released_live:
  fixes now
  assumes "distinct_keys st_id (stores d)" "st \<in> set (list_stores acct d)" "store_held st"
  defines "d1 \<equiv> modify_stores [st] (release_store now) d"
  shows "length (live_stores acct d1) = Suc (length (live_stores acct d))"
    and "release_store now st \<in> set (live_stores acct d1)"
proof -
  let ?H = "filter store_held (list_stores acct d)"
  have "length (filter (\<lambda>x. st_id x \<notin> st_id ` set [st]) ?H) + length [st] = length ?H"
    using assms(2,3) sorted_distinct_filter [OF list_stores_sorted list_stores_distinct [OF assms(1)]]
    by (intro length_filter_out) auto
  moreover have "filter store_held (list_stores acct d1) = filter (\<lambda>x. st_id x \<notin> st_id ` set [st]) ?H"
    unfolding d1_def by (rule held_stores_release)
  ultimately have "length (filter store_held (list_stores acct d1)) + 1 = length ?H"
    by simp
  then show "length (live_stores acct d1) = Suc (length (live_stores acct d))"
    using length_live_held [of acct d] length_live_held [of acct d1]
    by (simp add: d1_def length_list_stores_modify)
  show "release_store now st \<in> set (live_stores acct d1)"
    using assms(2) by (auto simp: live_stores_def d1_def list_stores_modify intro!: image_eqI [of _ _ st])
qed

lemma displaced_live:
  fixes now n
  assumes "distinct_keys st_id (stores d)" "x \<in> set (live_stores acct d)"
  defines "others \<equiv> filter (\<lambda>y. st_id y \<noteq> st_id x) (live_stores acct d)"
  defines "d2 \<equiv> modify_stores (newest n others) (hold_store now) d"
  shows "length (live_stores acct d2) = length (live_stores acct d) - min (nat n) (length (live_stores acct d) - 1)"
    and "x \<in> set (live_stores acct d2)"
proof -
  have dist: "distinct (map st_id (live_stores acct d))"
    by (rule live_stores_distinct [OF assms(1)])
  have "length (filter (\<lambda>y. st_id y \<notin> st_id ` set [x]) (live_stores acct d)) + length [x] = length (live_stores acct d)"
    using assms(2) by (intro length_filter_out dist) auto
  then have others: "length others = length (live_stores acct d) - 1"
    by (simp add: others_def)
  have sub: "set (newest n others) \<subseteq> set others"
    by (rule set_newest)
  have "distinct (map st_id (newest n others))"
    using dist by (intro distinct_newest) (simp add: others_def distinct_map_filter)
  then have "length (filter (\<lambda>y. st_id y \<notin> st_id ` set (newest n others)) (live_stores acct d)) +
      length (newest n others) = length (live_stores acct d)"
    using sub by (intro length_filter_out dist) (auto simp: others_def)
  then show "length (live_stores acct d2) = length (live_stores acct d) - min (nat n) (length (live_stores acct d) - 1)"
    by (simp add: d2_def live_stores_hold length_newest others)
  show "x \<in> set (live_stores acct d2)"
    using assms(2) sub by (auto simp: d2_def live_stores_hold others_def)
qed

lemma newest_none [simp]: "n \<le> 0 \<Longrightarrow> newest n xs = []"
  by (simp add: newest_def)

lemma modify_no_stores [simp]: "modify_stores [] f d = d"
  by (simp add: modify_stores_def tmodify_def)

lemma audit_record_stores [simp]:
  "stores (audit_record a b c i e d) = stores d"
  "payment_links (audit_record a b c i e d) = payment_links d"
  "list_stores acct (audit_record a b c i e d) = list_stores acct d"
  "live_stores acct (audit_record a b c i e d) = live_stores acct d"
  by (simp_all add: audit_record_def list_stores_def live_stores_def)

lemma move_store_slot_live:
  assumes "distinct_keys st_id (stores d)"
    and "move_store_slot acct pid now d = Inr (mv, d')" "sm_moved mv"
    and "live_plan_max_stores d acct = Inr (Some m)"
  shows "length (live_stores acct d') =
      min (Suc (length (live_stores acct d))) (max 1 (nat m))"
    and "sm_store mv \<in> set (live_stores acct d')"
    and "length (list_stores acct d') = length (list_stores acct d)"
proof -
  obtain st where st: "get_store acct pid d = Inr st" "store_held st"
    using assms(2,3) by (auto simp: move_store_slot_def split: if_splits)
  define d1 where "d1 = modify_stores [st] (release_store now) d"
  define n where "n = int (length (live_stores acct d1)) - m"
  define others where "others = filter (\<lambda>x. st_id x \<noteq> st_id (release_store now st)) (live_stores acct d1)"
  define d2 where "d2 = modify_stores (newest n others) (hold_store now) d1"
  have mem: "st \<in> set (stores d)" "st \<in> set (list_stores acct d)"
    using get_store_Inr [OF st(1)] by (auto simp: list_stores_def)
  have rel: "set_store (release_store now st) d = d1"
    unfolding d1_def using assms(1) mem(1) by (intro set_store_modify) auto
  have out: "sm_store mv = release_store now st" "live_stores acct d' = live_stores acct d2"
    "list_stores acct d' = list_stores acct d2"
    using assms(2-4) st
    by (auto simp: move_store_slot_def Let_def rel n_def others_def d2_def split: if_splits)
  have keys: "distinct_keys st_id (stores d1)"
    unfolding d1_def by (rule distinct_keys_modify_stores [OF assms(1)]) simp
  have live1: "length (live_stores acct d1) = Suc (length (live_stores acct d))"
    "release_store now st \<in> set (live_stores acct d1)"
    unfolding d1_def by (rule released_live [OF assms(1) mem(2) st(2)])+
  note live2 = displaced_live [OF keys live1(2), of n now, folded others_def, folded d2_def]
  show "sm_store mv \<in> set (live_stores acct d')"
    using live2(2) by (simp add: out)
  show "length (list_stores acct d') = length (list_stores acct d)"
    by (simp add: out d2_def d1_def length_list_stores_modify)
  show "length (live_stores acct d') = min (Suc (length (live_stores acct d))) (max 1 (nat m))"
    using live2(1) live1(1) by (simp add: out n_def) linarith
qed


section \<open>One link per currency\<close>

lemma link_values_simps [simp]:
  "lk_id (link_values p v l) = lk_id l" "lk_store_id (link_values p v l) = lk_store_id l"
  "lk_currency (link_values p v l) = normalize_currency (Some (lp_currency p))"
  "lk_raw_link (link_values p v l) = lp_raw_link p" "lk_verification (link_values p v l) = v"
  "lk_status (link_values p v l) = LINK_ACTIVE"
  by (simp_all add: link_values_def)

text \<open>Writing a destination leaves exactly one link for its store and currency, the one written, and
  every other link as it was.\<close>

lemma attach_link_to_store_Inr:
  fixes sid payload
  assumes "links_ok d" "attach_link_to_store sid payload v d = Inr d'"
  defines "here \<equiv> \<lambda>x. lk_store_id x = sid \<and> lk_currency x = normalize_currency (Some (lp_currency payload))"
  shows "\<exists>l. filter here (payment_links d') = [link_values payload v l]"
    and "filter (\<lambda>x. \<not> here x) (payment_links d') = filter (\<lambda>x. \<not> here x) (payment_links d)"
    and "links_ok d'" "stores d' = stores d"
proof -
  let ?r = "link_values payload v (blank_link d sid)"
  have keys: "distinct_keys lk_id (payment_links d)"
    using assms(1) by (simp add: links_ok_def)
  consider "filter here (payment_links d) = []" "d' = d\<lparr>payment_links := tadd ?r (payment_links d)\<rparr>"
    | l where "filter here (payment_links d) = [l]"
      "d' = d\<lparr>payment_links := tupd lk_id (lk_id l) (link_values payload v) (payment_links d)\<rparr>"
    using assms(2)
    by (auto simp: attach_link_to_store_def Let_def scalar_one_or_none_Inr here_def split: option.splits)
  then have "(\<exists>l. filter here (payment_links d') = [link_values payload v l]) \<and>
    filter (\<lambda>x. \<not> here x) (payment_links d') = filter (\<lambda>x. \<not> here x) (payment_links d) \<and>
    links_ok d' \<and> stores d' = stores d"
  proof cases
    case 1
    have "here ?r" "lk_id ?r = fresh_id lk_id (payment_links d)"
      by (simp_all add: here_def blank_link_def)
    moreover have "(sid, normalize_currency (Some (lp_currency payload))) \<notin>
        (\<lambda>l. (lk_store_id l, lk_currency l)) ` set (payment_links d)"
      using 1(1) by (auto simp: filter_empty_conv here_def)
    moreover have "lk_store_id ?r = sid"
      by (simp add: blank_link_def)
    ultimately show ?thesis
      using 1 assms(1) distinct_keys_tadd_fresh [OF keys, of ?r]
      by (auto simp: links_ok_def tadd_def)
  next
    case (2 l)
    have l: "l \<in> set (payment_links d)" "here l"
      using arg_cong [OF 2(1), of set] by auto
    have "map (\<lambda>l. (lk_store_id l, lk_currency l)) (payment_links d') =
        map (\<lambda>l. (lk_store_id l, lk_currency l)) (payment_links d)"
      using l(2) by (auto simp: 2(2) tupd_def here_def dest!: rows.rows_eq [OF keys _ l(1)])
    moreover have "here (link_values payload v l)"
      using l(2) by (simp add: here_def)
    ultimately show ?thesis
      using filter_tupd [OF keys 2(1), of "link_values payload v"] assms(1) 2(2)
      by (auto simp: links_ok_def distinct_keys_def map_key_tupd)
  qed
  then show "\<exists>l. filter here (payment_links d') = [link_values payload v l]"
    "filter (\<lambda>x. \<not> here x) (payment_links d') = filter (\<lambda>x. \<not> here x) (payment_links d)"
    "links_ok d'" "stores d' = stores d"
    by simp_all
qed

lemma links_ok_frame [simp]:
  "links_ok (audit_record a b c i e d) = links_ok d" "links_ok (set_store st d) = links_ok d"
  "links_ok (modify_stores sts f d) = links_ok d" "links_ok (d\<lparr>stores := t\<rparr>) = links_ok d"
  by (simp_all add: links_ok_def set_store_def modify_stores_def)

lemma store_keys_frame [simp]:
  "store_keys (audit_record a b c i e d) = store_keys d"
  by (simp add: store_keys_def)

lemma store_keys_set_store:
  assumes "distinct (map fst (store_keys d))" "(st_id st, st_public_id st) \<in> set (store_keys d)"
  shows "store_keys (set_store st d) = store_keys d"
proof -
  obtain x where x: "x \<in> set (stores d)" "st_id x = st_id st" "st_public_id x = st_public_id st"
    using assms(2) by (auto simp: store_keys_def)
  have "distinct_keys st_id (stores d)"
    using assms(1) by (simp add: store_keys_def distinct_keys_def o_def)
  then have "st_public_id y = st_public_id st" if "y \<in> set (stores d)" "st_id y = st_id st" for y
    using rows.rows_eq [of st_id "stores d" y x] that x by auto
  then show ?thesis
    by (auto simp: store_keys_def set_store_def tupd_def)
qed

lemma store_keys_modify:
  "(\<And>st. st_id (f st) = st_id st) \<Longrightarrow> (\<And>st. st_public_id (f st) = st_public_id st) \<Longrightarrow>
    store_keys (modify_stores sts f d) = store_keys d"
  by (simp add: store_keys_def modify_stores_def tmodify_def)


lemma store_inv_set_store:
  assumes "store_inv d" "(st_id st, st_public_id st) \<in> set (store_keys d)"
  shows "store_inv (set_store st d)" "store_keys (set_store st d) = store_keys d"
  using assms store_keys_set_store by (auto simp: store_inv_def)

lemma store_inv_audit [simp]: "store_inv (audit_record a b c i e d) = store_inv d"
  by (simp add: store_inv_def)

lemma store_inv_attach:
  assumes "store_inv d" "attach_link_to_store sid payload v d = Inr d'"
  shows "store_inv d'" "store_keys d' = store_keys d"
  using assms attach_link_to_store_Inr(3,4) [of d sid payload v d']
  by (auto simp: store_inv_def store_keys_def)

lemma store_inv_modify:
  "store_inv d \<Longrightarrow> (\<And>st. st_id (f st) = st_id st) \<Longrightarrow> (\<And>st. st_public_id (f st) = st_public_id st) \<Longrightarrow>
    store_inv (modify_stores sts f d)"
  by (simp add: store_inv_def store_keys_modify)

lemma get_store_key: "get_store acct pid d = Inr st \<Longrightarrow> (st_id st, st_public_id st) \<in> set (store_keys d)"
  by (auto simp: store_keys_def dest!: get_store_Inr)

text \<open>What every step keeps: the invariant, and the key of the store being worked on.\<close>

definition keeps_store :: "store \<times> db \<Rightarrow> bool" where
  "keeps_store r \<longleftrightarrow> store_inv (snd r) \<and> (st_id (fst r), st_public_id (fst r)) \<in> set (store_keys (snd r))"

lemma keeps_set_store:
  assumes "keeps_store (st, d)" "st_id st' = st_id st" "st_public_id st' = st_public_id st"
  shows "keeps_store (st', set_store st' d)"
  using assms store_inv_set_store [of d st'] by (simp add: keeps_store_def)

lemma keeps_attach:
  "keeps_store (st, d) \<Longrightarrow> attach_link_to_store sid p v d = Inr d' \<Longrightarrow> keeps_store (st, d')"
  using store_inv_attach by (auto simp: keeps_store_def)

lemma keeps_audit [simp]: "keeps_store (st, audit_record a b c i e d) = keeps_store (st, d)"
  by (simp add: keeps_store_def)

lemma keeps_get: "store_inv d \<Longrightarrow> get_store acct pid d = Inr st \<Longrightarrow> keeps_store (st, d)"
  by (simp add: keeps_store_def get_store_key)

lemma set_link_keeps:
  assumes "keeps_store (st, d)"
  shows "returns (set_link s pw acct flush promote p (st, d)) keeps_store"
  unfolding set_link_def Let_def prod.case case_prod_beta
  by (intro returns_rbind) (simp add: keeps_set_store [OF keeps_attach [OF assms]])

lemma set_links_keeps:
  "keeps_store r \<Longrightarrow> returns (set_links s pw acct flush promote ps r) keeps_store"
proof (induction ps arbitrary: r)
  case (Cons p ps)
  have "returns (set_link s pw acct flush promote p r) keeps_store"
    using set_link_keeps [of "fst r" "snd r"] Cons.prems by simp
  then show ?case
    unfolding set_links.simps using Cons.IH by (rule returns_rbind_pre)
qed simp

lemma create_store_keeps:
  assumes "store_inv d"
  shows "returns (create_store s pw pid now acct p d) keeps_store"
proof -
  let ?st = "new_store acct p pid now d"
  let ?d = "d\<lparr>stores := tadd ?st (stores d)\<rparr>"
  have key: "st_id ?st = fresh_id st_id (stores d)" "st_public_id ?st = pid"
    by (simp_all add: new_store_def)
  then have keys: "store_keys ?d = store_keys d @ [(fresh_id st_id (stores d), pid)]"
    by (simp add: store_keys_def tadd_def)
  have "fst ` set (store_keys d) = st_id ` set (stores d)" "snd ` set (store_keys d) = st_public_id ` set (stores d)"
    by (simp_all add: store_keys_def image_image)
  then have "keeps_store (?st, ?d)" if "pid \<notin> st_public_id ` set (stores d)"
    using assms that fresh_id_not_used [of st_id "stores d"]
    by (simp add: keeps_store_def store_inv_def keys key)
  then show ?thesis
    unfolding create_store_def Let_def by (intro returns_rbind set_links_keeps) simp
qed

lemma attach_link_keeps:
  assumes "store_inv d"
  shows "returns (attach_link s pw acct pid p d) keeps_store"
  unfolding attach_link_def Let_def case_prod_beta
  by (intro returns_intros) (simp_all add: keeps_set_store [OF keeps_attach [OF keeps_get [OF assms]]])

lemma disable_store_keeps:
  assumes "store_inv d"
  shows "returns (disable_store acct pid d) keeps_store"
  unfolding disable_store_def Let_def
  by (intro returns_intros) (simp add: keeps_set_store [OF keeps_get [OF assms]])

lemma enable_store_keeps:
  assumes "store_inv d"
  shows "returns (enable_store acct pid d) keeps_store"
  unfolding enable_store_def Let_def
  by (intro returns_intros) (simp_all add: keeps_get [OF assms] keeps_set_store [OF keeps_get [OF assms]])

lemma move_store_slot_keeps:
  assumes "store_inv d"
  shows "returns (move_store_slot acct pid now d) (\<lambda>r. store_inv (snd r))"
proof -
  have "store_inv (modify_stores sts (hold_store now) (set_store (release_store now st) d))"
    if "get_store acct pid d = Inr st" for st sts
    using keeps_set_store [OF keeps_get [OF assms that], of "release_store now st"]
    by (intro store_inv_modify) (simp_all add: hold_store_def release_store_def keeps_store_def)
  then show ?thesis
    unfolding move_store_slot_def Let_def by (intro returns_intros) (simp_all add: assms)
qed

lemma update_store_keeps:
  assumes "store_inv d"
  shows "returns (update_store s pw acct pid p d) keeps_store"
proof -
  have "keeps_store (apply_to p st, set_store (apply_to p st) d)" if "get_store acct pid d = Inr st" for st
    by (rule keeps_set_store [OF keeps_get [OF assms that]]) (simp_all add: apply_to_def Let_def)
  then have links: "returns (set_links s pw acct (patch_flush p) (\<lambda>v. v = STORE_DRAFT) ls
      (apply_to p st, if b then audit_record (Some acct) ''store.updated'' ''Store'' (st_id st) x
        (set_store (apply_to p st) d) else set_store (apply_to p st) d)) keeps_store"
    if "get_store acct pid d = Inr st" for st ls b x
    using that by (intro set_links_keeps) simp
  show ?thesis
    unfolding update_store_def Let_def
    by (intro returns_if returns_simps(2) returns_rbind)
      (rule returns_simps(1) [THEN iffD2], rule returnsD [OF links], assumption+)
qed

lemma returns_snd: "returns m keeps_store \<Longrightarrow> returns (rbind m (\<lambda>r. Inr (snd r))) store_inv"
  by (erule returns_rbind_pre) (simp add: keeps_store_def)

lemma handle_store_request_inv:
  assumes "store_inv d"
  shows "returns (handle_store_request s pw acct now req d) store_inv"
proof (cases req)
  case (MoveSlot pid)
  show ?thesis
    unfolding MoveSlot handle_store_request.simps
    by (rule returns_rbind_pre [OF move_store_slot_keeps [OF assms]]) simp
qed (simp_all add: returns_snd create_store_keeps attach_link_keeps disable_store_keeps
    enable_store_keeps update_store_keeps assms)


section \<open>What a resolved link promises\<close>

lemma verify_link_OK:
  assumes "chk_outcome (verify_link pw raw) = CHECK_OK"
  shows "\<exists>name c. pw_page pw raw = PageRead name c \<and> or_str name [] \<noteq> [] \<and>
    chk_currency (verify_link pw raw) = c"
  using assms by (auto simp: verify_link_def split: if_splits link_page.splits)

lemma verify_link_inconclusive:
  "chk_outcome (verify_link pw raw) = CHECK_INCONCLUSIVE \<Longrightarrow> chk_currency (verify_link pw raw) = None"
  by (auto simp: verify_link_def split: if_splits link_page.splits)

lemma enforce_currency_allowed_Inr:
  assumes "enforce_currency_allowed s p check = Inr ()"
  shows "normalize_currency (Some (lp_currency p)) = ''KHR'' \<longrightarrow> enable_khr_currency s"
    and "if or_str (chk_currency check) [] = [] then normalize_currency (Some (lp_currency p)) = ''USD''
      else normalize_currency (chk_currency check) = normalize_currency (Some (lp_currency p))"
  using assms
  by (auto simp: enforce_currency_allowed_def Let_def or_str_def split: if_splits option.splits)

lemma resolve_link_Inr:
  assumes "resolve_link s pw p = Inr (v, p')"
  shows "lp_currency p' = lp_currency p" "lp_raw_link p' = lp_raw_link p"
    and "normalize_currency (Some (lp_currency p)) = ''KHR'' \<longrightarrow> enable_khr_currency s"
    and "if v = LINK_VERIFIED
      then link_confirmed pw (py_strip (lp_raw_link p)) (normalize_currency (Some (lp_currency p)))
      else normalize_currency (Some (lp_currency p)) = ''USD''"
proof -
  let ?check = "verify_link pw (py_strip (lp_raw_link p))"
  have found: "chk_outcome ?check \<noteq> CHECK_NOT_FOUND"
    and cur: "enforce_currency_allowed s p ?check = Inr ()"
    and v: "v = (if chk_outcome ?check = CHECK_OK then LINK_VERIFIED else LINK_UNVERIFIED)"
    using assms by (auto simp: resolve_link_def Let_def split: if_splits)
  show "lp_currency p' = lp_currency p" "lp_raw_link p' = lp_raw_link p"
    using assms by (auto simp: resolve_link_def Let_def split: if_splits)
  show "normalize_currency (Some (lp_currency p)) = ''KHR'' \<longrightarrow> enable_khr_currency s"
    by (rule enforce_currency_allowed_Inr(1) [OF cur])
  show "if v = LINK_VERIFIED
      then link_confirmed pw (py_strip (lp_raw_link p)) (normalize_currency (Some (lp_currency p)))
      else normalize_currency (Some (lp_currency p)) = ''USD''"
  proof (cases "chk_outcome ?check = CHECK_OK")
    case True
    then show ?thesis
      using verify_link_OK [OF True] enforce_currency_allowed_Inr(2) [OF cur] v
      by (auto simp: link_confirmed_def split: if_splits)
  next
    case False
    then have "chk_outcome ?check = CHECK_INCONCLUSIVE"
      using found by (cases "chk_outcome ?check") auto
    then show ?thesis
      using verify_link_inconclusive enforce_currency_allowed_Inr(2) [OF cur] v
      by (simp add: or_str_def)
  qed
qed


section \<open>Properties\<close>

text \<open>C19. After the store cap of an allowance \<open>m\<close> has been applied, the account has exactly \<open>m\<close> live
  stores, or all of them when it has fewer; when stores had to be held, the ones left live are those
  with the lowest ids among the stores that were live.  Nothing but the hold flag and its timestamp
  changes, and no store of another account is touched.\<close>

theorem store_cap_allowance:
  assumes "distinct_keys st_id (stores d)" and "0 \<le> m"
  shows "length (live_stores acct (snd (apply_store_cap acct (Some m) now d))) =
      min (nat m) (length (list_stores acct d)) \<and>
    (nat m \<le> length (live_stores acct d) \<longrightarrow>
      live_stores acct (snd (apply_store_cap acct (Some m) now d)) = take (nat m) (live_stores acct d)) \<and>
    map without_hold (stores (snd (apply_store_cap acct (Some m) now d))) = map without_hold (stores d) \<and>
    filter (\<lambda>st. st_account_id st \<noteq> acc_id acct) (stores (snd (apply_store_cap acct (Some m) now d))) =
      filter (\<lambda>st. st_account_id st \<noteq> acc_id acct) (stores d) \<and>
    (snd (apply_store_cap acct (Some m) now d))\<lparr>stores := stores d\<rparr> = d"
proof (intro conjI impI)
  have sub: "set (newest n (live_stores acct d)) \<subseteq> set (list_stores acct d)"
    "set (newest n (filter store_held (list_stores acct d))) \<subseteq> set (list_stores acct d)" for n
    using set_newest by (fastforce simp: live_stores_def)+
  show "filter (\<lambda>st. st_account_id st \<noteq> acc_id acct) (stores (snd (apply_store_cap acct (Some m) now d))) =
      filter (\<lambda>st. st_account_id st \<noteq> acc_id acct) (stores d)"
    using modify_stores_other [OF assms(1) sub(1)] modify_stores_other [OF assms(1) sub(2)]
    by (simp add: apply_store_cap_shape)
  show "map without_hold (stores (snd (apply_store_cap acct (Some m) now d))) = map without_hold (stores d)"
    by (simp add: apply_store_cap_shape without_hold_modify)
  show "(snd (apply_store_cap acct (Some m) now d))\<lparr>stores := stores d\<rparr> = d"
    by (simp add: apply_store_cap_shape)
qed (use apply_store_cap_live [OF assms] in auto)

theorem store_cap_allowance_witness:
  "live_stores sample_account (snd (apply_store_cap sample_account (Some 1) 5 shop_db)) = [sample_store]"
proof -
  have "distinct_keys st_id (stores shop_db)" "live_stores sample_account shop_db =
      [sample_store, sample_store\<lparr>st_id := 8, st_public_id := ''st_two''\<rparr>]"
    by code_simp+
  then show ?thesis
    using store_cap_allowance [of shop_db 1 sample_account 5] by simp
qed

text \<open>The cap is idempotent: applying it a second time, at any later time, holds nothing, releases
  nothing and leaves the database as it is, whichever stores are live.\<close>

theorem store_cap_idempotent:
  assumes "distinct_keys st_id (stores d)" and "0 \<le> m"
  shows "apply_store_cap acct (Some m) later (snd (apply_store_cap acct (Some m) now d)) =
    ([], snd (apply_store_cap acct (Some m) now d))"
  using apply_store_cap_live(1,2) [OF assms] assms(2) by (intro apply_store_cap_stable) simp_all

theorem store_cap_idempotent_witness:
  "apply_store_cap sample_account (Some 1) 6 (snd (apply_store_cap sample_account (Some 1) 5 shop_db)) =
    ([], snd (apply_store_cap sample_account (Some 1) 5 shop_db))"
proof -
  have "distinct_keys st_id (stores shop_db)"
    by code_simp
  then show ?thesis
    using store_cap_idempotent [of shop_db 1] by simp
qed



text \<open>C21. Whatever sequence of store requests is made, by whichever accounts and with whatever answers
  from PayWay, store ids and public ids stay unique and a store never holds two links in one currency.
  A request that raises leaves the database unchanged.\<close>

theorem store_requests_keep_invariant:
  assumes "store_inv d"
  shows "store_inv (fold (store_request_step s pw) requests d)"
  using assms
proof (induction requests arbitrary: d)
  case (Cons r rs)
  have "store_inv (store_request_step s pw r d)"
    using Cons.prems returnsD [OF handle_store_request_inv [OF Cons.prems]]
    by (auto simp: store_request_step_def split: prod.split sum.split)
  then show ?case
    using Cons.IH by simp
qed simp

theorem store_requests_keep_invariant_witness:
  "store_inv (fold (store_request_step default_settings demo_payway)
    [(sample_account, 1, AttachLink ''st_demo'' demo_link_payload), (sample_account, 2, DisableStore ''st_demo'')] shop_db)"
  by (rule store_requests_keep_invariant) code_simp

text \<open>Attaching a link writes exactly one destination: afterwards the store has one link for the
  currency, the one sent, and every other link is as it was.  The link is marked verified only when
  PayWay's page named a merchant and did not name another currency, an unverified link is always a
  dollar link, riel is accepted only when the deployment enables it, and the store becomes active only
  through a verified link.\<close>

theorem attach_link_destination:
  assumes "store_inv d" and "attach_link s pw acct pid p d = Inr (st', d')"
  shows "\<exists>currency l st. get_store acct pid d = Inr st \<and> st_id st' = st_id st \<and>
    filter (\<lambda>x. lk_store_id x = st_id st \<and> lk_currency x = currency) (payment_links d') = [l] \<and>
    filter (\<lambda>x. \<not> (lk_store_id x = st_id st \<and> lk_currency x = currency)) (payment_links d') =
      filter (\<lambda>x. \<not> (lk_store_id x = st_id st \<and> lk_currency x = currency)) (payment_links d) \<and>
    lk_raw_link l = lp_raw_link p \<and>
    (lp_currency_set p \<longrightarrow> currency = normalize_currency (Some (lp_currency p))) \<and>
    (currency = ''KHR'' \<longrightarrow> enable_khr_currency s) \<and>
    (if lk_verification l = LINK_VERIFIED then link_confirmed pw (py_strip (lp_raw_link p)) currency
     else currency = ''USD'') \<and>
    (st_status st' = STORE_ACTIVE \<longrightarrow> lk_verification l = LINK_VERIFIED \<or> st_status st = STORE_ACTIVE)"
proof -
  obtain st where st: "get_store acct pid d = Inr st"
    using assms(2) by (auto simp: attach_link_def)
  obtain p1 v p2 where p1: "carry_forward_currency d (st_id st) p = Inr p1"
    and res: "resolve_link s pw p1 = Inr (v, p2)"
    using assms(2) st by (auto simp: attach_link_def split: prod.splits if_splits)
  then obtain d1 where att: "attach_link_to_store (st_id st) p2 v d = Inr d1"
    using assms(2) st by (auto simp: attach_link_def split: if_splits)
  then have st': "st' = (if v = LINK_VERIFIED then st\<lparr>st_status := STORE_ACTIVE\<rparr> else st)"
    and links: "payment_links d' = payment_links d1"
    using assms(2) st p1 res by (auto simp: attach_link_def Let_def set_store_def split: if_splits)
  have raw: "lp_raw_link p1 = lp_raw_link p" "lp_currency_set p \<longrightarrow> lp_currency p1 = lp_currency p"
    using p1 by (auto simp: carry_forward_currency_def Let_def split: if_splits)
  note r = resolve_link_Inr [OF res]
  have "links_ok d"
    using assms(1) by (simp add: store_inv_def)
  note a = attach_link_to_store_Inr [OF this att]
  obtain l where l: "filter (\<lambda>x. lk_store_id x = st_id st \<and>
      lk_currency x = normalize_currency (Some (lp_currency p2))) (payment_links d1) = [link_values p2 v l]"
    using a(1) by auto
  show ?thesis
    using st l a(2) r raw
    by (intro exI [of _ "normalize_currency (Some (lp_currency p2))"] exI [of _ "link_values p2 v l"] exI [of _ st])
      (auto simp: links st' split: if_splits)
qed

theorem attach_link_destination_witness:
  "\<exists>l. filter (\<lambda>x. lk_store_id x = 7 \<and> lk_currency x = ''KHR'')
      (payment_links (snd (projr (attach_link (default_settings\<lparr>enable_khr_currency := True\<rparr>) demo_payway
        sample_account ''st_demo'' demo_link_payload shop_db)))) = [l] \<and>
    lk_raw_link l = ''ABAPAYx'' \<and> lk_verification l = LINK_VERIFIED"
proof -
  let ?s = "default_settings\<lparr>enable_khr_currency := True\<rparr>"
  let ?r = "attach_link ?s demo_payway sample_account ''st_demo'' demo_link_payload shop_db"
  have inv: "store_inv shop_db"
    by code_simp
  have "?r = Inr (fst (projr ?r), snd (projr ?r))"
    by code_simp
  from attach_link_destination [OF inv this] obtain currency l st where
    w: "get_store sample_account ''st_demo'' shop_db = Inr st"
    "filter (\<lambda>x. lk_store_id x = st_id st \<and> lk_currency x = currency) (payment_links (snd (projr ?r))) = [l]"
    "lk_raw_link l = lp_raw_link demo_link_payload"
    "lp_currency_set demo_link_payload \<longrightarrow> currency = normalize_currency (Some (lp_currency demo_link_payload))"
    "if lk_verification l = LINK_VERIFIED then link_confirmed demo_payway (py_strip (lp_raw_link demo_link_payload)) currency
     else currency = ''USD''"
    by blast
  have "get_store sample_account ''st_demo'' shop_db = Inr sample_store" "st_id sample_store = 7"
    "normalize_currency (Some (lp_currency demo_link_payload)) = ''KHR''"
    by code_simp+
  with w show ?thesis
    by (auto simp: demo_link_payload_def split: if_splits)
qed

text \<open>Re-enabling a disabled store puts it back to active when it has its one link and to draft when
  it has none; but a store that holds a link for each currency cannot be re-enabled at all, because the
  query for its link expects at most one row.\<close>

theorem enable_store_outcome:
  assumes "get_store acct pid d = Inr st" and "st_status st = STORE_DISABLED"
  shows "enable_store acct pid d =
    (case load_links d (st_id st) of
       [] \<Rightarrow> Inr (st\<lparr>st_status := STORE_DRAFT\<rparr>, audit_record (Some acct) ''store.enabled'' ''Store'' (st_id st)
          [(''name'', JStr (st_name st)), (''status'', JStr ''draft'')] (set_store (st\<lparr>st_status := STORE_DRAFT\<rparr>) d))
     | [l] \<Rightarrow> Inr (st\<lparr>st_status := STORE_ACTIVE\<rparr>, audit_record (Some acct) ''store.enabled'' ''Store'' (st_id st)
          [(''name'', JStr (st_name st)), (''status'', JStr ''active'')] (set_store (st\<lparr>st_status := STORE_ACTIVE\<rparr>) d))
     | _ \<Rightarrow> Inl (RuntimeError ''MultipleResultsFound''))"
proof -
  let ?ls = "filter (\<lambda>l. lk_store_id l = st_id st) (payment_links d)"
  have len: "length (load_links d (st_id st)) = length ?ls"
    by (simp add: load_links_def)
  consider "?ls = []" | l where "?ls = [l]" | l1 l2 ls where "?ls = l1 # l2 # ls"
    by (metis neq_Nil_conv)
  then show ?thesis
  proof cases
    case 3
    then obtain k1 k2 ks where "load_links d (st_id st) = k1 # k2 # ks"
      using len by (metis Suc_length_conv length_Cons)
    with 3 assms show ?thesis
      by (simp add: enable_store_def)
  qed (use assms in \<open>simp_all add: enable_store_def load_links_def Let_def store_status_name_def\<close>)
qed

theorem enable_store_outcome_witness:
  "enable_store sample_account ''st_demo''
    (shop_db\<lparr>stores := [sample_store\<lparr>st_status := STORE_DISABLED\<rparr>],
      payment_links := [sample_link, sample_link\<lparr>lk_id := 12, lk_currency := ''KHR''\<rparr>]\<rparr>) =
    Inl (RuntimeError ''MultipleResultsFound'')"
proof -
  let ?d = "shop_db\<lparr>stores := [sample_store\<lparr>st_status := STORE_DISABLED\<rparr>],
      payment_links := [sample_link, sample_link\<lparr>lk_id := 12, lk_currency := ''KHR''\<rparr>]\<rparr>"
  have "get_store sample_account ''st_demo'' ?d = Inr (sample_store\<lparr>st_status := STORE_DISABLED\<rparr>)"
    "load_links ?d (st_id (sample_store\<lparr>st_status := STORE_DISABLED\<rparr>)) =
      [sample_link, sample_link\<lparr>lk_id := 12, lk_currency := ''KHR''\<rparr>]"
    by code_simp+
  then show ?thesis
    using enable_store_outcome [of sample_account "''st_demo''" ?d] by simp
qed

end
