(* ===== verification/Billing.thy ===== *)
theory Billing
  imports Stores Calendar
begin

text \<open>
  Plan billing (\<^verbatim>\<open>src/src/chmabapay/services/billing.py\<close> and the plan change of
  \<^verbatim>\<open>routers/billing.py\<close>): raising invoices, the dunning clock, the freeze, settlement and
  reinstatement, and moving between plans.

  The clock is an argument: one \<open>now\<close> per operation, and \<open>paid_at\<close> where the source takes it.  The
  announcements to the activity feed are output only and left out; the e-mail provider is an argument.
  The partial unique index on invoices (one live invoice per subscription and period start) is
  checked where a row is written: a write it refuses is an \<^verbatim>\<open>IntegrityError\<close>.
\<close>

section \<open>Constants\<close>

definition CREDIT_PERIOD :: int where
  "CREDIT_PERIOD = days 30"

fun unpaid :: "invoice_status \<Rightarrow> bool" where
  "unpaid INVOICE_OPEN = True"
| "unpaid INVOICE_DRAFT = True"
| "unpaid INVOICE_ISSUED = True"
| "unpaid INVOICE_PAID = False"
| "unpaid INVOICE_VOID = False"
| "unpaid INVOICE_WAIVED = False"
| "unpaid INVOICE_CREDITED = False"

definition live_sub :: "plan_subscription \<Rightarrow> bool" where
  "live_sub s \<longleftrightarrow> sub_status s = SUB_TRIAL \<or> sub_status s = SUB_ACTIVE"

definition HQ_STORE_NAME :: string where
  "HQ_STORE_NAME = ''ChmabaPay HQ''"

definition TIER_OFFSETS :: "(notice_state \<times> int) list" where
  "TIER_OFFSETS = [(DUE_3, days (-3)), (DUE_1, days (-1)), (DUE_TODAY, days 0),
     (OVERDUE_1, days 1), (OVERDUE_3, days 3), (OVERDUE_FINAL, days 6)]"

definition TIERS :: "notice_state list" where
  "TIERS = map fst TIER_OFFSETS"

datatype notice_level = INFO | WARNING | CRITICAL

fun NOTICE_LEVELS :: "notice_state \<Rightarrow> notice_level" where
  "NOTICE_LEVELS STATE_ISSUANCE = INFO"
| "NOTICE_LEVELS DUE_3 = INFO"
| "NOTICE_LEVELS DUE_1 = INFO"
| "NOTICE_LEVELS DUE_TODAY = WARNING"
| "NOTICE_LEVELS OVERDUE_1 = WARNING"
| "NOTICE_LEVELS OVERDUE_3 = WARNING"
| "NOTICE_LEVELS OVERDUE_FINAL = CRITICAL"
| "NOTICE_LEVELS STATE_FROZEN = CRITICAL"

definition NOTICE_ORDER :: "notice_state list" where
  "NOTICE_ORDER = STATE_ISSUANCE # TIERS @ [STATE_FROZEN]"

definition grace_period :: "settings \<Rightarrow> int" where
  "grace_period s = days (max 0 (billing_grace_days s))"

section \<open>Rows\<close>

definition mod_account :: "int \<Rightarrow> (account \<Rightarrow> account) \<Rightarrow> db \<Rightarrow> db" where
  "mod_account i f d = d\<lparr>accounts := tupd acc_id i f (accounts d)\<rparr>"

definition mod_sub :: "int \<Rightarrow> (plan_subscription \<Rightarrow> plan_subscription) \<Rightarrow> db \<Rightarrow> db" where
  "mod_sub i f d = d\<lparr>plan_subscriptions := tupd sub_id i f (plan_subscriptions d)\<rparr>"

definition mod_invoice :: "int \<Rightarrow> (plan_invoice \<Rightarrow> plan_invoice) \<Rightarrow> db \<Rightarrow> db" where
  "mod_invoice i f d = d\<lparr>plan_invoices := tupd inv_id i f (plan_invoices d)\<rparr>"

definition add_sub :: "plan_subscription \<Rightarrow> db \<Rightarrow> db" where
  "add_sub s d = d\<lparr>plan_subscriptions := tadd s (plan_subscriptions d)\<rparr>"

definition add_invoice :: "plan_invoice \<Rightarrow> db \<Rightarrow> db" where
  "add_invoice i d = d\<lparr>plan_invoices := tadd i (plan_invoices d)\<rparr>"

text \<open>The key of the partial unique index; a row with a \<^verbatim>\<open>NULL\<close> in it, or a void row, has none.\<close>

definition invoice_window :: "plan_invoice \<Rightarrow> (int \<times> instant) option" where
  "invoice_window i =
     (if inv_status i = INVOICE_VOID then None
      else case (inv_subscription_id i, inv_period_start i) of
        (Some sid, Some t) \<Rightarrow> Some (sid, t) | _ \<Rightarrow> None)"

definition cancel_sub :: "instant \<Rightarrow> plan_subscription \<Rightarrow> plan_subscription" where
  "cancel_sub now s = s\<lparr>sub_status := SUB_CANCELED, sub_canceled_at := Some now, sub_updated_at := now\<rparr>"

definition void_invoice :: "void_reason \<Rightarrow> instant \<Rightarrow> plan_invoice \<Rightarrow> plan_invoice" where
  "void_invoice reason now i =
     i\<lparr>inv_status := INVOICE_VOID, inv_void_reason := Some reason, inv_voided_at := Some now,
       inv_updated_at := now\<rparr>"

section \<open>Reading\<close>

definition period_usage :: "db \<Rightarrow> int \<Rightarrow> string \<Rightarrow> int \<times> int" where
  "period_usage d account_id period_month =
     (let rows = filter (\<lambda>e. led_account_id e = account_id \<and> led_period_month e = period_month)
                   (plan_ledger_entries d)
      in (sum_list (map led_total_payments_count rows), sum_list (map led_amount_cents_delta rows)))"

datatype hq_source = HQ_env | HQ_console | HQ_fallback | HQ_none

definition owned_by_admin :: "db \<Rightarrow> store \<Rightarrow> bool" where
  "owned_by_admin d st =
     (case tget acc_id (st_account_id st) (accounts d) of
        None \<Rightarrow> False | Some a \<Rightarrow> acc_is_platform_admin a)"

definition first_by_id :: "store list \<Rightarrow> store option" where
  "first_by_id sts = (case sort_key st_id sts of [] \<Rightarrow> None | st # _ \<Rightarrow> Some st)"

definition resolve_hq_store :: "settings \<Rightarrow> db \<Rightarrow> (store option \<times> hq_source) result" where
  "resolve_hq_store s d =
     (let pinned = py_strip (or_str (chmabapay_hq_store_id s) []) in
      rbind
        (if pinned = [] then Inr None
         else scalar_one_or_none (filter (\<lambda>st.
             (case py_int pinned of None \<Rightarrow> False | Some i \<Rightarrow> st_id st = i) \<or> st_public_id st = pinned)
           (stores d)))
        (\<lambda>by_pin. case by_pin of
           Some st \<Rightarrow> Inr (Some st, HQ_env)
         | None \<Rightarrow>
             (case first_by_id (filter (\<lambda>st. st_name st = HQ_STORE_NAME \<and> owned_by_admin d st) (stores d)) of
                Some st \<Rightarrow> Inr (Some st, HQ_console)
              | None \<Rightarrow>
                  (case find acc_is_platform_admin (accounts d) of
                     None \<Rightarrow> Inr (None, HQ_none)
                   | Some a \<Rightarrow>
                       (case first_by_id (filter (\<lambda>st. st_account_id st = acc_id a \<and> st_status st = STORE_ACTIVE)
                                (stores d)) of
                          Some st \<Rightarrow> Inr (Some st, HQ_fallback)
                        | None \<Rightarrow> Inr (None, HQ_none))))))"

definition find_invoice_for_window :: "db \<Rightarrow> int \<Rightarrow> instant \<Rightarrow> plan_invoice option result" where
  "find_invoice_for_window d subscription_id period_start =
     scalar_one_or_none (filter (\<lambda>i. inv_subscription_id i = Some subscription_id \<and>
       inv_period_start i = Some period_start \<and> inv_status i \<noteq> INVOICE_VOID) (plan_invoices d))"

definition find_open_invoice :: "db \<Rightarrow> int \<Rightarrow> plan_invoice option" where
  "find_open_invoice d account_id =
     (case sort_key inv_id (filter (\<lambda>i. inv_account_id i = account_id \<and> unpaid (inv_status i)) (plan_invoices d)) of
        [] \<Rightarrow> None | i # _ \<Rightarrow> Some i)"

section \<open>Raising invoices\<close>

definition new_invoice ::
  "plan_subscription \<Rightarrow> plan \<Rightarrow> instant \<Rightarrow> instant \<Rightarrow> instant \<Rightarrow> instant \<Rightarrow> db \<Rightarrow> plan_invoice"
where
  "new_invoice sub pl period_start period_end due_at now d =
     (let label = period_month_for period_start;
          counted = fst (period_usage d (sub_account_id sub) label)
      in \<lparr>inv_id = fresh_id inv_id (plan_invoices d), inv_account_id = sub_account_id sub,
          inv_subscription_id = Some (sub_id sub), inv_period_month = label,
          inv_period_start = Some period_start, inv_period_end = Some period_end, inv_due_at = Some due_at,
          inv_status = INVOICE_OPEN, inv_base_fee_cents = plan_monthly_fee_cents pl,
          inv_usage_payments_count = counted,
          inv_overage_payments_count = max 0 (counted - plan_base_payments_included pl),
          inv_overage_fee_cents = 0, inv_total_due_cents = plan_monthly_fee_cents pl,
          inv_paid_at = None, inv_voided_at = None, inv_void_reason = None, inv_payment_id = None,
          inv_updated_at = now\<rparr>)"

definition issue_invoice ::
  "plan_subscription \<Rightarrow> plan \<Rightarrow> instant \<Rightarrow> instant \<Rightarrow> instant \<Rightarrow> instant \<Rightarrow> db \<Rightarrow>
     ((plan_invoice option \<times> bool) \<times> db) result"
where
  "issue_invoice sub pl period_start period_end due_at now d =
     (if plan_monthly_fee_cents pl \<le> 0 then Inr ((None, False), d)
      else rbind (find_invoice_for_window d (sub_id sub) period_start) (\<lambda>existing.
        case existing of
          Some i \<Rightarrow> Inr ((Some i, False), d)
        | None \<Rightarrow>
            let i = new_invoice sub pl period_start period_end due_at now d
            in Inr ((Some i, True), add_invoice i d)))"

definition window_claimed :: "db \<Rightarrow> plan_subscription \<Rightarrow> bool" where
  "window_claimed d sub = list_ex (\<lambda>i. invoice_window i = Some (sub_id sub, sub_next_billing_at sub)) (plan_invoices d)"

text \<open>The rows of the sweep: live subscriptions on a paid plan whose period end has entered the lead
  window and is not yet claimed by a live invoice.\<close>

definition due_subscriptions :: "settings \<Rightarrow> instant \<Rightarrow> int \<Rightarrow> db \<Rightarrow> (plan_subscription \<times> plan) list" where
  "due_subscriptions s now lim d =
     limit lim (sort_key (\<lambda>r. sub_next_billing_at (fst r))
       [(sub, pl). sub \<leftarrow> plan_subscriptions d, pl \<leftarrow> plans d,
          plan_id pl = sub_plan_id sub \<and> live_sub sub \<and> plan_monthly_fee_cents pl > 0 \<and>
          sub_next_billing_at sub \<le> now + days (max 0 (billing_lead_days s)) \<and> \<not> window_claimed d sub])"

record issue_counts =
  ic_due :: nat
  ic_invoices :: nat
  ic_nothing :: nat

fun issue_loop ::
  "instant \<Rightarrow> (plan_subscription \<times> plan) list \<Rightarrow> issue_counts \<times> db \<Rightarrow> (issue_counts \<times> db) result"
where
  "issue_loop now [] acc = Inr acc"
| "issue_loop now ((sub, pl) # rest) (c, d) =
     rbind (issue_invoice sub pl (sub_next_billing_at sub) (sub_next_billing_at sub + CREDIT_PERIOD)
         (sub_next_billing_at sub) now d) (\<lambda>((ivc, created), d').
       issue_loop now rest
         (case ivc of None \<Rightarrow> c\<lparr>ic_nothing := ic_nothing c + 1\<rparr> | Some _ \<Rightarrow> c\<lparr>ic_invoices := ic_invoices c + 1\<rparr>, d'))"

definition issue_due_invoices :: "settings \<Rightarrow> instant \<Rightarrow> int \<Rightarrow> db \<Rightarrow> (issue_counts \<times> db) result" where
  "issue_due_invoices s now lim d =
     (let due = due_subscriptions s now lim d
      in issue_loop now due (\<lparr>ic_due = length due, ic_invoices = 0, ic_nothing = 0\<rparr>, d))"

section \<open>The dunning clock\<close>

text \<open>The loop over the tiers: the last one whose offset has passed.\<close>

definition tier_state :: "instant \<Rightarrow> instant \<Rightarrow> notice_state" where
  "tier_state due_at now =
     fold (\<lambda>(tier, offset) state. if now \<ge> due_at + offset then tier else state) TIER_OFFSETS STATE_ISSUANCE"

definition derived_state :: "account option \<Rightarrow> plan_invoice \<Rightarrow> instant \<Rightarrow> notice_state option" where
  "derived_state acct ivc now =
     (case acct of
        None \<Rightarrow> None
      | Some a \<Rightarrow>
          if \<not> unpaid (inv_status ivc) then None
          else if acc_status a = ACCOUNT_SUSPENDED then None
          else if acc_status a = ACCOUNT_RESTRICTED then Some STATE_FROZEN
          else case inv_due_at ivc of None \<Rightarrow> None | Some due \<Rightarrow> Some (tier_state due now))"

definition find_reminder :: "db \<Rightarrow> int \<Rightarrow> notice_state \<Rightarrow> channel \<Rightarrow> plan_invoice_reminder option result" where
  "find_reminder d invoice_id tier ch =
     scalar_one_or_none (filter (\<lambda>r. rem_invoice_id r = invoice_id \<and> rem_tier r = tier \<and> rem_channel r = ch)
       (plan_invoice_reminders d))"

type_synonym unpaid_row = "plan_invoice \<times> plan_subscription \<times> account"

definition unpaid_invoice_query :: "bool \<Rightarrow> db \<Rightarrow> unpaid_row list" where
  "unpaid_invoice_query respect_admin_exemption d =
     sort_key (\<lambda>(i, _). the (inv_due_at i))
       [(i, sub, a). i \<leftarrow> plan_invoices d, sub \<leftarrow> plan_subscriptions d, a \<leftarrow> accounts d,
          inv_subscription_id i = Some (sub_id sub) \<and> acc_id a = inv_account_id i \<and>
          unpaid (inv_status i) \<and> inv_due_at i \<noteq> None \<and> live_sub sub \<and> acc_status a = ACCOUNT_ACTIVE \<and>
          (respect_admin_exemption \<longrightarrow> \<not> acc_is_platform_admin a)]"

definition add_reminder :: "int \<Rightarrow> notice_state \<Rightarrow> channel \<Rightarrow> instant \<Rightarrow> json \<Rightarrow> db \<Rightarrow> db" where
  "add_reminder invoice_id tier ch now info d =
     d\<lparr>plan_invoice_reminders := tadd \<lparr>rem_id = fresh_id rem_id (plan_invoice_reminders d),
         rem_invoice_id = invoice_id, rem_tier = tier, rem_channel = ch, rem_sent_at = now,
         rem_detail = info\<rparr> (plan_invoice_reminders d)\<rparr>"

record reminder_counts =
  rc_considered :: nat
  rc_recorded :: nat
  rc_silent :: nat
  rc_emailed :: nat
  rc_email_failed :: nat
  rc_email_silent :: nat

fun record_loop ::
  "instant \<Rightarrow> unpaid_row list \<Rightarrow> reminder_counts \<Rightarrow> (unpaid_row \<times> notice_state) list \<Rightarrow> db \<Rightarrow>
     (reminder_counts \<times> (unpaid_row \<times> notice_state) list \<times> db) result"
where
  "record_loop now [] c candidates d = Inr (c, candidates, d)"
| "record_loop now ((i, sub, a) # rest) c candidates d =
     (case derived_state (Some a) i now of
        None \<Rightarrow> record_loop now rest (c\<lparr>rc_silent := rc_silent c + 1\<rparr>) candidates d
      | Some state \<Rightarrow>
          if state \<notin> set TIERS
          then record_loop now rest (c\<lparr>rc_silent := rc_silent c + 1\<rparr>) candidates d
          else let candidates' = candidates @ [((i, sub, a), state)] in
            rbind (find_reminder d (inv_id i) state CHANNEL_IN_APP) (\<lambda>r.
              if r \<noteq> None then record_loop now rest (c\<lparr>rc_silent := rc_silent c + 1\<rparr>) candidates' d
              else record_loop now rest (c\<lparr>rc_recorded := rc_recorded c + 1\<rparr>) candidates'
                (add_reminder (inv_id i) state CHANNEL_IN_APP now JNull d)))"

text \<open>The provider's answer to one message: its id, or the error.\<close>

type_synonym mailer = "unpaid_row \<Rightarrow> notice_state \<Rightarrow> string + string"

fun email_loop ::
  "mailer \<Rightarrow> instant \<Rightarrow> (unpaid_row \<times> notice_state) list \<Rightarrow> reminder_counts \<Rightarrow> db \<Rightarrow> (reminder_counts \<times> db) result"
where
  "email_loop send now [] c d = Inr (c, d)"
| "email_loop send now ((row, state) # rest) c d =
     rbind (find_reminder d (inv_id (fst row)) state CHANNEL_EMAIL) (\<lambda>r.
       if r \<noteq> None then email_loop send now rest (c\<lparr>rc_email_silent := rc_email_silent c + 1\<rparr>) d
       else case send row state of
         Inl err \<Rightarrow> email_loop send now rest (c\<lparr>rc_email_failed := rc_email_failed c + 1\<rparr>)
           (add_reminder (inv_id (fst row)) state CHANNEL_EMAIL now
             (JObj [(''delivery'', JStr ''failed''), (''error'', JStr err)]) d)
       | Inr provider_id \<Rightarrow> email_loop send now rest (c\<lparr>rc_emailed := rc_emailed c + 1\<rparr>)
           (add_reminder (inv_id (fst row)) state CHANNEL_EMAIL now
             (JObj [(''delivery'', JStr ''sent''), (''provider_id'', JStr provider_id)]) d))"

definition email_reminders ::
  "mailer option \<Rightarrow> instant \<Rightarrow> (unpaid_row \<times> notice_state) list \<Rightarrow> reminder_counts \<Rightarrow> db \<Rightarrow> (reminder_counts \<times> db) result"
where
  "email_reminders mail now candidates c d =
     (case mail of
        None \<Rightarrow> Inr (c\<lparr>rc_email_silent := length candidates\<rparr>, d)
      | Some send \<Rightarrow> email_loop send now candidates c d)"

text \<open>The sweep commits its in-app rows before it hands the first message to the provider.  The model has one
  transaction: the second phase could lose the first only by raising, and all it raises is a duplicate
  row for one invoice, tier and channel, which the unique key of the table excludes.\<close>

definition record_due_reminders ::
  "mailer option \<Rightarrow> instant \<Rightarrow> int \<Rightarrow> db \<Rightarrow> (reminder_counts \<times> db) result"
where
  "record_due_reminders mail now lim d =
     (let rows = limit lim (unpaid_invoice_query False d);
          c0 = \<lparr>rc_considered = length rows, rc_recorded = 0, rc_silent = 0, rc_emailed = 0,
                rc_email_failed = 0, rc_email_silent = 0\<rparr>
      in rbind (record_loop now rows c0 [] d) (\<lambda>(c, candidates, d1). email_reminders mail now candidates c d1))"


section \<open>Notices\<close>

record notice =
  nt_state :: notice_state
  nt_level :: notice_level
  nt_invoice_id :: "int option"
  nt_period_label :: "string option"
  nt_amount_cents :: "int option"
  nt_due_at :: "instant option"
  nt_freeze_at :: "instant option"
  nt_days_until_due :: "int option"
  nt_action_url :: string
  nt_dismissible :: bool

text \<open>\<open>_render_notice\<close> without its copy (title, body, label and the formatted amount, which
  \<^verbatim>\<open>notifications.py\<close> words): the days are those of a \<^verbatim>\<open>timedelta\<close>, rounded down, and
  \<open>nt_freeze_at\<close> is the instant the copy promises.\<close>

definition render_notice :: "settings \<Rightarrow> notice_state \<Rightarrow> plan_invoice option \<Rightarrow> instant \<Rightarrow> notice" where
  "render_notice s state ivc now =
     (let due_at = (case ivc of None \<Rightarrow> None | Some i \<Rightarrow> inv_due_at i)
      in \<lparr>nt_state = state, nt_level = NOTICE_LEVELS state,
          nt_invoice_id = map_option inv_id ivc,
          nt_period_label = map_option inv_period_month ivc,
          nt_amount_cents = map_option inv_total_due_cents ivc,
          nt_due_at = due_at,
          nt_freeze_at = map_option (\<lambda>t. t + grace_period s) due_at,
          nt_days_until_due = map_option (\<lambda>t. (t - now) div days 1) due_at,
          nt_action_url = (case ivc of None \<Rightarrow> ''/dashboard/billing''
            | Some i \<Rightarrow> ''/dashboard/billing?pay='' @ int_str (inv_id i)),
          nt_dismissible = (NOTICE_LEVELS state = INFO)\<rparr>)"

fun index_of :: "'a \<Rightarrow> 'a list \<Rightarrow> nat" where
  "index_of x [] = 0"
| "index_of x (y # ys) = (if x = y then 0 else Suc (index_of x ys))"

definition notice_rank :: "notice \<Rightarrow> nat \<times> int" where
  "notice_rank n =
     (index_of (nt_state n) NOTICE_ORDER,
      - (case nt_days_until_due n of None \<Rightarrow> 0 | Some k \<Rightarrow> k))"

text \<open>Comparison of ranks is that of Python tuples.\<close>

definition rank_greater :: "nat \<times> int \<Rightarrow> nat \<times> int \<Rightarrow> bool" where
  "rank_greater a b \<longleftrightarrow> fst a > fst b \<or> (fst a = fst b \<and> snd a > snd b)"

definition notice_rows :: "account \<Rightarrow> db \<Rightarrow> plan_invoice list" where
  "notice_rows acct d =
     sort_key (\<lambda>i. the (inv_due_at i))
       [i. i \<leftarrow> plan_invoices d, sub \<leftarrow> plan_subscriptions d, pl \<leftarrow> plans d,
          inv_subscription_id i = Some (sub_id sub) \<and> plan_id pl = sub_plan_id sub \<and>
          inv_account_id i = acc_id acct \<and> unpaid (inv_status i) \<and> inv_due_at i \<noteq> None \<and> live_sub sub]"

definition pick_notice ::
  "settings \<Rightarrow> account \<Rightarrow> instant \<Rightarrow> plan_invoice \<Rightarrow> notice option \<Rightarrow> notice option"
where
  "pick_notice s acct now i best =
     (case derived_state (Some acct) i now of
        None \<Rightarrow> best
      | Some state \<Rightarrow>
          let n = render_notice s state (Some i) now in
          case best of
            None \<Rightarrow> Some n
          | Some b \<Rightarrow> if rank_greater (notice_rank n) (notice_rank b) then Some n else best)"

definition derive_notices :: "settings \<Rightarrow> account \<Rightarrow> instant \<Rightarrow> db \<Rightarrow> notice list" where
  "derive_notices s acct now d =
     (let rows = notice_rows acct d in
      if acc_status acct = ACCOUNT_RESTRICTED
      then [render_notice s STATE_FROZEN (case rows of [] \<Rightarrow> None | i # _ \<Rightarrow> Some i) now]
      else case fold (pick_notice s acct now) rows None of None \<Rightarrow> [] | Some n \<Rightarrow> [n])"

section \<open>The freeze\<close>

definition grace_due :: "settings \<Rightarrow> instant \<Rightarrow> int \<Rightarrow> db \<Rightarrow> (plan_invoice \<times> account) list" where
  "grace_due s now lim d =
     [(i, a). (i, sub, a) \<leftarrow> limit lim (unpaid_invoice_query True d),
        (case inv_due_at i of None \<Rightarrow> False | Some due \<Rightarrow> due + grace_period s \<le> now)]"

definition freeze_account :: "settings \<Rightarrow> instant \<Rightarrow> plan_invoice \<times> account \<Rightarrow> db \<Rightarrow> db" where
  "freeze_account s now r d =
     (case r of (i, a) \<Rightarrow>
        audit_record None ''billing.account_frozen'' ''Account'' (acc_id a)
          [(''invoice_id'', JInt (inv_id i)), (''period_month'', JStr (inv_period_month i)),
           (''total_due_cents'', JInt (inv_total_due_cents i)),
           (''due_at'', case inv_due_at i of None \<Rightarrow> JNull | Some t \<Rightarrow> JInt t),
           (''grace_days'', JInt (billing_grace_days s))]
          (mod_account (acc_id a) (\<lambda>x. x\<lparr>acc_status := ACCOUNT_RESTRICTED, acc_updated_at := now\<rparr>) d))"

definition parked_purchases :: "instant \<Rightarrow> int \<Rightarrow> db \<Rightarrow> plan_subscription list" where
  "parked_purchases now lim d =
     limit lim (filter (\<lambda>sub. sub_status sub = SUBSCRIPTION_PENDING \<and> sub_created_at sub \<le> now - CREDIT_PERIOD)
       (plan_subscriptions d))"

definition expire_purchase :: "instant \<Rightarrow> plan_subscription \<Rightarrow> db \<Rightarrow> db" where
  "expire_purchase now sub d =
     mod_sub (sub_id sub) (cancel_sub now)
       (d\<lparr>plan_invoices := tmodify (\<lambda>i. inv_subscription_id i = Some (sub_id sub) \<and> unpaid (inv_status i))
           (void_invoice VOID_SUPERSEDED now) (plan_invoices d)\<rparr>)"

definition expire_abandoned_purchases :: "instant \<Rightarrow> int \<Rightarrow> db \<Rightarrow> nat \<times> db" where
  "expire_abandoned_purchases now lim d =
     (let parked = parked_purchases now lim d
      in (length parked, fold (expire_purchase now) parked d))"

record enforce_counts =
  ec_enforced :: bool
  ec_due :: nat
  ec_frozen :: nat
  ec_abandoned :: nat

definition enforce_grace :: "settings \<Rightarrow> instant \<Rightarrow> int \<Rightarrow> db \<Rightarrow> enforce_counts \<times> db" where
  "enforce_grace s now lim d =
     (let due = grace_due s now lim d;
          d1 = (if billing_enforce_enabled s then fold (freeze_account s now) due d else d);
          (abandoned, d2) = expire_abandoned_purchases now 500 d1
      in (\<lparr>ec_enforced = billing_enforce_enabled s, ec_due = length due,
           ec_frozen = (if billing_enforce_enabled s then length due else 0), ec_abandoned = abandoned\<rparr>, d2))"

section \<open>Settlement\<close>

definition lift_hold :: "instant \<Rightarrow> account \<Rightarrow> account" where
  "lift_hold now a =
     (if acc_status a = ACCOUNT_RESTRICTED
      then a\<lparr>acc_status := ACCOUNT_ACTIVE, acc_updated_at := now\<rparr> else a)"

definition lift_billing_hold :: "int \<Rightarrow> instant \<Rightarrow> db \<Rightarrow> db" where
  "lift_billing_hold account_id now d = mod_account account_id (lift_hold now) d"

definition retire_live_subscriptions :: "int \<Rightarrow> instant \<Rightarrow> db \<Rightarrow> db" where
  "retire_live_subscriptions account_id now d =
     d\<lparr>plan_subscriptions := tmodify (\<lambda>sub. sub_account_id sub = account_id \<and> live_sub sub)
         (cancel_sub now) (plan_subscriptions d)\<rparr>"

definition extend_coverage :: "plan_invoice \<Rightarrow> instant \<Rightarrow> db \<Rightarrow> db" where
  "extend_coverage i now d =
     (case (inv_period_end i, inv_subscription_id i) of
        (Some end_at, Some sid) \<Rightarrow>
          mod_sub sid (\<lambda>sub. sub\<lparr>sub_next_billing_at := end_at, sub_updated_at := now\<rparr>) d
      | _ \<Rightarrow> d)"

definition activate_subscription :: "int \<Rightarrow> instant \<Rightarrow> db \<Rightarrow> db" where
  "activate_subscription sid now d =
     (case tget sub_id sid (plan_subscriptions d) of
        None \<Rightarrow> d
      | Some sub \<Rightarrow>
          if sub_status sub \<noteq> SUBSCRIPTION_PENDING then d
          else mod_sub sid (\<lambda>x. x\<lparr>sub_status := SUB_ACTIVE,
                   sub_started_at := (case sub_started_at x of None \<Rightarrow> Some now | Some t \<Rightarrow> Some t),
                   sub_updated_at := now\<rparr>)
                 (d\<lparr>plan_subscriptions := tmodify (\<lambda>x. sub_account_id x = sub_account_id sub \<and>
                      sub_id x \<noteq> sub_id sub \<and> live_sub x) (cancel_sub now) (plan_subscriptions d)\<rparr>))"

text \<open>The subscription and the invoice a reinstatement writes.\<close>

definition reinstated_sub :: "plan_invoice \<Rightarrow> plan_subscription \<Rightarrow> instant \<Rightarrow> instant \<Rightarrow> db \<Rightarrow> plan_subscription" where
  "reinstated_sub i sub paid_at now d =
     \<lparr>sub_id = fresh_id sub_id (plan_subscriptions d), sub_account_id = inv_account_id i,
      sub_plan_id = sub_plan_id sub, sub_status = SUB_ACTIVE, sub_started_at = Some paid_at,
      sub_canceled_at = None, sub_next_billing_at = paid_at + CREDIT_PERIOD, sub_trial_ends_at = None,
      sub_created_at = now, sub_updated_at = now\<rparr>"

definition granted_invoice :: "plan_invoice \<Rightarrow> int \<Rightarrow> int option \<Rightarrow> instant \<Rightarrow> instant \<Rightarrow> db \<Rightarrow> plan_invoice" where
  "granted_invoice i sid payment_id paid_at now d =
     \<lparr>inv_id = fresh_id inv_id (plan_invoices d), inv_account_id = inv_account_id i,
      inv_subscription_id = Some sid, inv_period_month = period_month_for paid_at,
      inv_period_start = Some paid_at, inv_period_end = Some (paid_at + CREDIT_PERIOD),
      inv_due_at = Some paid_at, inv_status = INVOICE_PAID, inv_base_fee_cents = inv_base_fee_cents i,
      inv_usage_payments_count = 0, inv_overage_payments_count = 0, inv_overage_fee_cents = 0,
      inv_total_due_cents = inv_total_due_cents i, inv_paid_at = Some paid_at, inv_voided_at = None,
      inv_void_reason = None, inv_payment_id = payment_id, inv_updated_at = now\<rparr>"

definition retire_claim :: "int option \<Rightarrow> instant \<Rightarrow> plan_invoice \<Rightarrow> plan_invoice" where
  "retire_claim payment_id now i =
     (let v = void_invoice VOID_GRACE_EXPIRED now i
      in if payment_id \<noteq> None then v\<lparr>inv_payment_id := None\<rparr> else v)"

definition reinstate ::
  "plan_invoice \<Rightarrow> plan_subscription \<Rightarrow> int option \<Rightarrow> instant \<Rightarrow> instant \<Rightarrow> string \<Rightarrow> db \<Rightarrow> db"
where
  "reinstate i sub payment_id paid_at now source d =
     (let d1 = retire_live_subscriptions (inv_account_id i) now d;
          re = reinstated_sub i sub paid_at now d1;
          d2 = add_sub re d1;
          granted = granted_invoice i (sub_id re) payment_id paid_at now d2;
          d3 = add_invoice granted d2;
          d4 = mod_invoice (inv_id i) (retire_claim payment_id now) d3;
          gap = (paid_at - (case inv_due_at i of None \<Rightarrow> paid_at | Some t \<Rightarrow> t)) div days 1
      in audit_record None ''billing.reinstated'' ''Account'' (inv_account_id i)
           [(''lapsed_invoice_id'', JInt (inv_id i)), (''granted_invoice_id'', JInt (inv_id granted)),
            (''gap_days'', JInt gap), (''period_end'', JInt (paid_at + CREDIT_PERIOD)),
            (''source'', JStr source)] d4)"

definition mark_invoice_paid :: "instant \<Rightarrow> instant \<Rightarrow> plan_invoice \<Rightarrow> plan_invoice" where
  "mark_invoice_paid paid_at now i =
     i\<lparr>inv_status := INVOICE_PAID, inv_paid_at := Some paid_at, inv_updated_at := now\<rparr>"

definition lapsed :: "settings \<Rightarrow> plan_invoice \<Rightarrow> instant \<Rightarrow> bool" where
  "lapsed s i paid_at = (case inv_due_at i of None \<Rightarrow> False | Some due \<Rightarrow> paid_at > due + grace_period s)"

text \<open>No other live invoice claims the window this one would take.\<close>

definition window_free :: "plan_invoice \<Rightarrow> db \<Rightarrow> bool" where
  "window_free i d \<longleftrightarrow> invoice_window i = None \<or>
     list_all (\<lambda>j. inv_id j = inv_id i \<or> invoice_window j \<noteq> invoice_window i) (plan_invoices d)"

definition settle_invoice ::
  "settings \<Rightarrow> plan_invoice \<Rightarrow> int option \<Rightarrow> instant \<Rightarrow> instant \<Rightarrow> string \<Rightarrow> db \<Rightarrow> (bool \<times> db) result"
where
  "settle_invoice s i payment_id paid_at now source d =
     (if inv_status i = INVOICE_PAID then Inr (False, d)
      else
        let sub = (case inv_subscription_id i of None \<Rightarrow> None | Some sid \<Rightarrow> tget sub_id sid (plan_subscriptions d)) in
        case sub of
          None \<Rightarrow>
            rbind (guard (window_free (mark_invoice_paid paid_at now i) d) (RuntimeError ''IntegrityError'')) (\<lambda>_.
              Inr (True, mod_invoice (inv_id i) (mark_invoice_paid paid_at now) d))
        | Some sub \<Rightarrow>
            rbind
              (if lapsed s i paid_at then Inr (reinstate i sub payment_id paid_at now source d)
               else rbind (guard (window_free (mark_invoice_paid paid_at now i) d) (RuntimeError ''IntegrityError''))
                 (\<lambda>_. Inr (extend_coverage i now (activate_subscription (sub_id sub) now
                    (mod_invoice (inv_id i) (mark_invoice_paid paid_at now) d)))))
              (\<lambda>d1. case tget acc_id (inv_account_id i) (accounts d) of
                 None \<Rightarrow> Inr (True, d1)
               | Some a \<Rightarrow>
                   let d2 = lift_billing_hold (acc_id a) now d1 in
                   case tget plan_id (sub_plan_id sub) (plans d) of
                     None \<Rightarrow> Inr (True, d2)
                   | Some pl \<Rightarrow> Inr (True, snd (apply_store_cap a (plan_max_stores pl) now d2))))"

text \<open>\<open>settle_invoice_for_payment\<close>: false when there is no such invoice or it is already settled.\<close>

definition settle_invoice_for_payment ::
  "settings \<Rightarrow> int \<Rightarrow> instant \<Rightarrow> instant \<Rightarrow> db \<Rightarrow> (bool \<times> db) result"
where
  "settle_invoice_for_payment s payment_id paid_at now d =
     rbind (scalar_one_or_none (filter (\<lambda>i. inv_payment_id i = Some payment_id) (plan_invoices d)))
       (\<lambda>r. case r of
          None \<Rightarrow> Inr (False, d)
        | Some i \<Rightarrow> settle_invoice s i (Some payment_id) paid_at now ''khqr'' d)"

section \<open>Changing plans\<close>

definition get_active_sub :: "db \<Rightarrow> int \<Rightarrow> (plan_subscription \<times> plan) option result" where
  "get_active_sub d account_id =
     scalar_one_or_none [(sub, pl). sub \<leftarrow> plan_subscriptions d, pl \<leftarrow> plans d,
       plan_id pl = sub_plan_id sub \<and> sub_account_id sub = account_id \<and> live_sub sub]"

definition void_open_invoices :: "int \<Rightarrow> void_reason \<Rightarrow> instant \<Rightarrow> db \<Rightarrow> db" where
  "void_open_invoices account_id reason now d =
     d\<lparr>plan_invoices := tmodify (\<lambda>i. inv_account_id i = account_id \<and> unpaid (inv_status i))
         (void_invoice reason now) (plan_invoices d)\<rparr>"

definition new_sub :: "int \<Rightarrow> int \<Rightarrow> subscription_status \<Rightarrow> instant option \<Rightarrow> instant \<Rightarrow> db \<Rightarrow> plan_subscription" where
  "new_sub account_id pid status started now d =
     \<lparr>sub_id = fresh_id sub_id (plan_subscriptions d), sub_account_id = account_id, sub_plan_id = pid,
      sub_status = status, sub_started_at = started, sub_canceled_at = None,
      sub_next_billing_at = now + CREDIT_PERIOD, sub_trial_ends_at = None, sub_created_at = now,
      sub_updated_at = now\<rparr>"

definition plan_code_json :: "plan option \<Rightarrow> json" where
  "plan_code_json p = (case p of None \<Rightarrow> JNull | Some x \<Rightarrow> JStr (plan_code x))"

definition move_to_free ::
  "account \<Rightarrow> plan \<Rightarrow> (plan_subscription \<times> plan) option \<Rightarrow> instant \<Rightarrow> db \<Rightarrow> plan_subscription \<times> db"
where
  "move_to_free acct pl old now d =
     (let d1 = void_open_invoices (acc_id acct) VOID_DOWNGRADED now d;
          d2 = lift_billing_hold (acc_id acct) now d1;
          d3 = (case old of None \<Rightarrow> d2 | Some (sub, _) \<Rightarrow> mod_sub (sub_id sub) (cancel_sub now) d2);
          sub = new_sub (acc_id acct) (plan_id pl) SUB_ACTIVE (Some now) now d3;
          d4 = add_sub sub d3;
          d5 = snd (apply_store_cap acct (plan_max_stores pl) now d4)
      in (sub, audit_record (Some acct) ''plan.changed'' ''Account'' (acc_id acct)
           [(''from_plan'', plan_code_json (map_option snd old)), (''to_plan'', JStr (plan_code pl))] d5))"

definition buy_plan ::
  "account \<Rightarrow> plan \<Rightarrow> (plan_subscription \<times> plan) option \<Rightarrow> instant \<Rightarrow> db \<Rightarrow>
     ((plan_subscription \<times> plan_invoice option) \<times> db) result"
where
  "buy_plan acct pl old now d =
     rbind
       (case find_open_invoice d (acc_id acct) of
          None \<Rightarrow> Inr d
        | Some i \<Rightarrow>
            if acc_status acct \<noteq> ACCOUNT_RESTRICTED then Inl (HTTPException 409 ''open_invoice_unpaid'')
            else Inr (retire_live_subscriptions (acc_id acct) now
                   (void_open_invoices (acc_id acct) VOID_DOWNGRADED now d)))
       (\<lambda>d1.
          let pending = new_sub (acc_id acct) (plan_id pl) SUBSCRIPTION_PENDING None now d1;
              d2 = add_sub pending d1
          in rbind (issue_invoice pending pl now (now + CREDIT_PERIOD) now now d2) (\<lambda>((ivc, created), d3).
               case ivc of
                 None \<Rightarrow> Inl (HTTPException 500 ''invoice_not_raised'')
               | Some i \<Rightarrow> Inr ((pending, Some i),
                   audit_record (Some acct) ''plan.change_requested'' ''Account'' (acc_id acct)
                     [(''from_plan'', plan_code_json (map_option snd old)), (''to_plan'', JStr (plan_code pl)),
                      (''invoice_id'', JInt (inv_id i)), (''period_month'', JStr (inv_period_month i))] d3)))"

definition change_plan ::
  "account \<Rightarrow> string \<Rightarrow> instant \<Rightarrow> db \<Rightarrow> ((plan_subscription \<times> plan_invoice option) \<times> db) result"
where
  "change_plan acct code_wanted now d =
     rbind (scalar_one_or_none (filter (\<lambda>p. plan_code p = code_wanted) (plans d))) (\<lambda>found.
       case found of
         None \<Rightarrow> Inl (HTTPException 404 ''plan_not_found'')
       | Some pl \<Rightarrow>
           if \<not> plan_is_public pl \<or> \<not> plan_is_active pl then Inl (HTTPException 400 ''plan_not_available'')
           else rbind (get_active_sub d (acc_id acct)) (\<lambda>old.
             if (case old of None \<Rightarrow> False | Some (_, p) \<Rightarrow> plan_id p = plan_id pl)
               then Inl (HTTPException 400 ''plan_unchanged'')
             else if plan_monthly_fee_cents pl \<le> 0
               then (case move_to_free acct pl old now d of (sub, d') \<Rightarrow> Inr ((sub, None), d'))
             else buy_plan acct pl old now d))"


section \<open>Vocabulary of the statements\<close>

text \<open>The account a live subscription puts a plan in force for.\<close>

definition live_account :: "plan_subscription \<Rightarrow> int option" where
  "live_account sub = (if live_sub sub then Some (sub_account_id sub) else None)"

text \<open>Keys are unique, an account has at most one live subscription, a subscription has at most one live
  invoice per period, a subscription names a plan that exists and an invoice a subscription that exists.\<close>

definition billing_inv :: "db \<Rightarrow> bool" where
  "billing_inv d \<longleftrightarrow>
     distinct_keys plan_id (plans d) \<and>
     distinct_keys sub_id (plan_subscriptions d) \<and>
     distinct_keys inv_id (plan_invoices d) \<and>
     unique_by sub_id live_account (plan_subscriptions d) \<and>
     unique_by inv_id invoice_window (plan_invoices d) \<and>
     (\<forall>sub \<in> set (plan_subscriptions d). sub_plan_id sub \<in> plan_id ` set (plans d)) \<and>
     (\<forall>i \<in> set (plan_invoices d). inv_subscription_id i \<in> insert None (Some ` sub_id ` set (plan_subscriptions d)))"

text \<open>What happens to billing: the two sweeps, the reminder run, a merchant's plan change, a payment that
  settles an invoice, an operator who settles one by hand.\<close>

datatype billing_event =
    IssueSweep instant int
  | EnforceSweep instant int
  | ReminderSweep instant int
  | ChangePlan int string instant
  | SettlePayment int instant instant
  | SettleByHand int instant instant

fun handle_billing_event :: "settings \<Rightarrow> mailer option \<Rightarrow> billing_event \<Rightarrow> db \<Rightarrow> db result" where
  "handle_billing_event s mail (IssueSweep now lim) d =
     rbind (issue_due_invoices s now lim d) (\<lambda>r. Inr (snd r))"
| "handle_billing_event s mail (EnforceSweep now lim) d = Inr (snd (enforce_grace s now lim d))"
| "handle_billing_event s mail (ReminderSweep now lim) d =
     rbind (record_due_reminders mail now lim d) (\<lambda>r. Inr (snd r))"
| "handle_billing_event s mail (ChangePlan account_id wanted now) d =
     (case tget acc_id account_id (accounts d) of
        None \<Rightarrow> Inl (HTTPException 401 ''not_authenticated'')
      | Some a \<Rightarrow> rbind (change_plan a wanted now d) (\<lambda>r. Inr (snd r)))"
| "handle_billing_event s mail (SettlePayment payment_id paid_at now) d =
     rbind (settle_invoice_for_payment s payment_id paid_at now d) (\<lambda>r. Inr (snd r))"
| "handle_billing_event s mail (SettleByHand invoice_id paid_at now) d =
     (case tget inv_id invoice_id (plan_invoices d) of
        None \<Rightarrow> Inl (HTTPException 404 ''invoice_not_found'')
      | Some i \<Rightarrow> rbind (settle_invoice s i None paid_at now ''admin'' d) (\<lambda>r. Inr (snd r)))"

definition billing_step :: "settings \<Rightarrow> mailer option \<Rightarrow> billing_event \<Rightarrow> db \<Rightarrow> db" where
  "billing_step s mail ev d = (case handle_billing_event s mail ev d of Inl _ \<Rightarrow> d | Inr d' \<Rightarrow> d')"

text \<open>The renewal invoice of a subscription: one period from the end of the current one, due then, for
  the plan's fee.\<close>

definition renewal_invoice :: "plan_invoice \<Rightarrow> plan_subscription \<times> plan \<Rightarrow> bool" where
  "renewal_invoice i r \<longleftrightarrow>
     inv_account_id i = sub_account_id (fst r) \<and> inv_subscription_id i = Some (sub_id (fst r)) \<and>
     inv_period_start i = Some (sub_next_billing_at (fst r)) \<and>
     inv_period_end i = Some (sub_next_billing_at (fst r) + CREDIT_PERIOD) \<and>
     inv_due_at i = Some (sub_next_billing_at (fst r)) \<and> inv_status i = INVOICE_OPEN \<and>
     inv_total_due_cents i = plan_monthly_fee_cents (snd r) \<and> plan_monthly_fee_cents (snd r) > 0"

text \<open>The subscription with this id is in force for its account, and no other is.\<close>

definition only_live :: "db \<Rightarrow> int \<Rightarrow> int \<Rightarrow> bool" where
  "only_live d account_id sid \<longleftrightarrow>
     (\<forall>x \<in> set (plan_subscriptions d). live_account x = Some account_id \<longleftrightarrow> sub_id x = sid)"

text \<open>Rows for the concrete instances: a merchant on the starter plan whose renewal invoice has been
  raised.\<close>

definition demo_invoice :: plan_invoice where
  "demo_invoice = \<lparr>inv_id = 31, inv_account_id = 3, inv_subscription_id = Some 9, inv_period_month = ''1970-01'',
     inv_period_start = Some (days 30), inv_period_end = Some (days 60), inv_due_at = Some (days 30),
     inv_status = INVOICE_OPEN, inv_base_fee_cents = 500, inv_usage_payments_count = 0,
     inv_overage_payments_count = 0, inv_overage_fee_cents = 0, inv_total_due_cents = 500, inv_paid_at = None,
     inv_voided_at = None, inv_void_reason = None, inv_payment_id = Some 21, inv_updated_at = 0\<rparr>"

definition billed_db :: db where
  "billed_db = shop_db\<lparr>plan_invoices := [demo_invoice]\<rparr>"

section \<open>The two unique indexes\<close>

interpretation windows: retirable inv_id invoice_window "void_invoice reason now" for reason now
  by unfold_locales (simp_all add: void_invoice_def invoice_window_def)

interpretation live: retirable sub_id live_account "cancel_sub now" for now
  by unfold_locales (simp_all add: cancel_sub_def live_account_def live_sub_def)

lemma billing_inv_frame:
  assumes "plans d' = plans d" "plan_subscriptions d' = plan_subscriptions d" "plan_invoices d' = plan_invoices d"
  shows "billing_inv d' = billing_inv d"
  using assms by (simp add: billing_inv_def)

lemma billing_inv_invoices:
  assumes "billing_inv d" "distinct_keys inv_id t" "unique_by inv_id invoice_window t"
    and "\<And>i. i \<in> set t \<Longrightarrow> inv_subscription_id i \<in> insert None (Some ` sub_id ` set (plan_subscriptions d))"
  shows "billing_inv (d\<lparr>plan_invoices := t\<rparr>)"
  using assms by (simp add: billing_inv_def)

lemma billing_inv_subs:
  assumes "billing_inv d" "distinct_keys sub_id t" "unique_by sub_id live_account t"
    and "\<And>sub. sub \<in> set t \<Longrightarrow> sub_plan_id sub \<in> plan_id ` set (plans d)"
    and "sub_id ` set (plan_subscriptions d) \<subseteq> sub_id ` set t"
  shows "billing_inv (d\<lparr>plan_subscriptions := t\<rparr>)"
  using assms image_mono [OF assms(5), of Some] by (simp add: billing_inv_def) blast

lemma apply_store_cap_frame [simp]:
  "plans (snd (apply_store_cap a m now d)) = plans d"
  "accounts (snd (apply_store_cap a m now d)) = accounts d"
  "plan_subscriptions (snd (apply_store_cap a m now d)) = plan_subscriptions d"
  "plan_invoices (snd (apply_store_cap a m now d)) = plan_invoices d"
  "plan_invoice_reminders (snd (apply_store_cap a m now d)) = plan_invoice_reminders d"
  "plan_ledger_entries (snd (apply_store_cap a m now d)) = plan_ledger_entries d"
  "payments (snd (apply_store_cap a m now d)) = payments d"
  by (cases m; simp add: apply_store_cap_def Let_def modify_stores_def)+

lemma audit_record_frame [simp]:
  "accounts (audit_record a b c i e d) = accounts d"
  "payments (audit_record a b c i e d) = payments d"
  "plans (audit_record a b c i e d) = plans d"
  "plan_subscriptions (audit_record a b c i e d) = plan_subscriptions d"
  "plan_invoices (audit_record a b c i e d) = plan_invoices d"
  "plan_invoice_reminders (audit_record a b c i e d) = plan_invoice_reminders d"
  "plan_ledger_entries (audit_record a b c i e d) = plan_ledger_entries d"
  by (simp_all add: audit_record_def)

lemma mod_frames [simp]:
  "plans (mod_account k f d) = plans d" "plan_subscriptions (mod_account k f d) = plan_subscriptions d"
  "plan_invoices (mod_account k f d) = plan_invoices d" "stores (mod_account k f d) = stores d"
  "plans (mod_sub k g d) = plans d" "plan_invoices (mod_sub k g d) = plan_invoices d"
  "accounts (mod_sub k g d) = accounts d" "stores (mod_sub k g d) = stores d"
  "plans (mod_invoice k h d) = plans d" "plan_subscriptions (mod_invoice k h d) = plan_subscriptions d"
  "accounts (mod_invoice k h d) = accounts d" "stores (mod_invoice k h d) = stores d"
  by (simp_all add: mod_account_def mod_sub_def mod_invoice_def)

lemma billing_inv_simps [simp]:
  "billing_inv (audit_record a b c i e d) = billing_inv d"
  "billing_inv (mod_account k f d) = billing_inv d"
  "billing_inv (snd (apply_store_cap acct m now d)) = billing_inv d"
  "billing_inv (lift_billing_hold k now d) = billing_inv d"
  by (rule billing_inv_frame; simp add: lift_billing_hold_def)+


lemma billing_invD:
  assumes "billing_inv d"
  shows "distinct_keys plan_id (plans d)" "distinct_keys sub_id (plan_subscriptions d)"
    "distinct_keys inv_id (plan_invoices d)" "unique_by sub_id live_account (plan_subscriptions d)"
    "unique_by inv_id invoice_window (plan_invoices d)"
    "sub \<in> set (plan_subscriptions d) \<Longrightarrow> sub_plan_id sub \<in> plan_id ` set (plans d)"
    "i \<in> set (plan_invoices d) \<Longrightarrow>
      inv_subscription_id i \<in> insert None (Some ` sub_id ` set (plan_subscriptions d))"
  using assms by (simp_all add: billing_inv_def)

lemma billing_inv_void:
  assumes "billing_inv d"
  shows "billing_inv (d\<lparr>plan_invoices := tmodify P (void_invoice reason now) (plan_invoices d)\<rparr>)"
proof (intro billing_inv_invoices assms windows.retire_keeps windows.retire_distinct)
  fix i
  assume "i \<in> set (tmodify P (void_invoice reason now) (plan_invoices d))"
  then obtain j where "j \<in> set (plan_invoices d)" "inv_subscription_id i = inv_subscription_id j"
    by (auto simp: set_tmodify void_invoice_def split: if_splits)
  then show "inv_subscription_id i \<in> insert None (Some ` sub_id ` set (plan_subscriptions d))"
    using billing_invD(7) [OF assms] by metis
qed (use billing_invD [OF assms] in auto)

lemma cancel_sub_plan [simp]: "sub_plan_id (cancel_sub now sub) = sub_plan_id sub"
  "sub_id (cancel_sub now sub) = sub_id sub" "sub_account_id (cancel_sub now sub) = sub_account_id sub"
  "\<not> live_sub (cancel_sub now sub)" "live_account (cancel_sub now sub) = None"
  by (simp_all add: cancel_sub_def live_sub_def live_account_def)

lemma billing_inv_cancel:
  assumes "billing_inv d"
  shows "billing_inv (d\<lparr>plan_subscriptions := tmodify P (cancel_sub now) (plan_subscriptions d)\<rparr>)"
proof (intro billing_inv_subs assms live.retire_keeps live.retire_distinct)
  show "sub_id ` set (plan_subscriptions d) \<subseteq> sub_id ` set (tmodify P (cancel_sub now) (plan_subscriptions d))"
    using arg_cong [OF map_key_tmodify [of sub_id "cancel_sub now" P "plan_subscriptions d"], of set] by simp
qed (use billing_invD [OF assms] in \<open>auto simp: set_tmodify\<close>)

lemma mod_sub_tmodify:
  "mod_sub k f d = d\<lparr>plan_subscriptions := tmodify (\<lambda>x. sub_id x = k) f (plan_subscriptions d)\<rparr>"
  by (simp add: mod_sub_def tupd_tmodify)

lemma billing_inv_expire: "billing_inv d \<Longrightarrow> billing_inv (expire_purchase now sub d)"
  unfolding expire_purchase_def mod_sub_tmodify by (intro billing_inv_cancel billing_inv_void)

lemma billing_inv_retire: "billing_inv d \<Longrightarrow> billing_inv (retire_live_subscriptions a now d)"
  unfolding retire_live_subscriptions_def by (rule billing_inv_cancel)

lemma billing_inv_void_open: "billing_inv d \<Longrightarrow> billing_inv (void_open_invoices a reason now d)"
  unfolding void_open_invoices_def by (rule billing_inv_void)

lemma billing_inv_add_sub:
  assumes "billing_inv d" "sub_id sub = fresh_id sub_id (plan_subscriptions d)"
    and "unclaimed live_account (live_account sub) (plan_subscriptions d)"
    and "sub_plan_id sub \<in> plan_id ` set (plans d)"
  shows "billing_inv (add_sub sub d)"
  unfolding add_sub_def using billing_invD [OF assms(1)] assms(4)
  by (intro billing_inv_subs assms(1) distinct_keys_tadd_fresh unique_by_tadd assms(2,3)) (auto simp: tadd_def)

lemma billing_inv_add_invoice:
  assumes "billing_inv d" "inv_id i = fresh_id inv_id (plan_invoices d)"
    and "unclaimed invoice_window (invoice_window i) (plan_invoices d)"
    and "inv_subscription_id i \<in> insert None (Some ` sub_id ` set (plan_subscriptions d))"
  shows "billing_inv (add_invoice i d)"
  unfolding add_invoice_def using billing_invD(1-6) [OF assms(1)] billing_invD(7) [OF assms(1)] assms(4)
  by (intro billing_inv_invoices assms(1) distinct_keys_tadd_fresh unique_by_tadd assms(2,3)) (auto simp: tadd_def)

section \<open>Raising invoices\<close>

lemma find_invoice_for_window_unclaimed:
  assumes "find_invoice_for_window d sid t = Inr None"
  shows "unclaimed invoice_window (Some (sid, t)) (plan_invoices d)"
  using assms
  by (auto simp: find_invoice_for_window_def scalar_one_or_none_Inr filter_empty_conv unclaimed_def
      invoice_window_def split: option.splits if_splits)

lemma new_invoice_simps [simp]:
  "inv_id (new_invoice sub pl a b c now d) = fresh_id inv_id (plan_invoices d)"
  "invoice_window (new_invoice sub pl a b c now d) = Some (sub_id sub, a)"
  "inv_account_id (new_invoice sub pl a b c now d) = sub_account_id sub"
  "inv_subscription_id (new_invoice sub pl a b c now d) = Some (sub_id sub)"
  "inv_period_start (new_invoice sub pl a b c now d) = Some a"
  "inv_period_end (new_invoice sub pl a b c now d) = Some b"
  "inv_due_at (new_invoice sub pl a b c now d) = Some c"
  "inv_status (new_invoice sub pl a b c now d) = INVOICE_OPEN"
  "inv_total_due_cents (new_invoice sub pl a b c now d) = plan_monthly_fee_cents pl"
  by (simp_all add: new_invoice_def Let_def invoice_window_def)

lemma issue_invoice_inv:
  assumes "billing_inv d" "sub_id sub \<in> sub_id ` set (plan_subscriptions d)"
  shows "returns (issue_invoice sub pl a b c now d) (\<lambda>r. billing_inv (snd r))"
proof -
  have "billing_inv (add_invoice (new_invoice sub pl a b c now d) d)"
    if "find_invoice_for_window d (sub_id sub) a = Inr None"
    using find_invoice_for_window_unclaimed [OF that] assms(2)
    by (intro billing_inv_add_invoice assms(1)) simp_all
  then show ?thesis
    unfolding issue_invoice_def Let_def
    by (intro returns_intros) (auto simp: assms split: option.split)
qed

text \<open>Issuing only ever adds invoices.\<close>

lemma issue_invoice_frame:
  "returns (issue_invoice sub pl a b c now d) (\<lambda>r. \<exists>new. snd r = d\<lparr>plan_invoices := plan_invoices d @ new\<rparr>)"
proof -
  have "\<exists>new. d = d\<lparr>plan_invoices := plan_invoices d @ new\<rparr>"
    by (rule exI [of _ "[]"]) simp
  then show ?thesis
    unfolding issue_invoice_def Let_def add_invoice_def tadd_def
    by (intro returns_intros) (auto split: option.split)
qed

lemma issue_loop_inv:
  "billing_inv d \<Longrightarrow> (\<And>r. r \<in> set due \<Longrightarrow> sub_id (fst r) \<in> sub_id ` set (plan_subscriptions d)) \<Longrightarrow>
    returns (issue_loop now due (c, d)) (\<lambda>r. billing_inv (snd r))"
proof (induction due arbitrary: c d)
  case (Cons r due)
  obtain sub pl where r: "r = (sub, pl)" by force
  have mem: "sub_id sub \<in> sub_id ` set (plan_subscriptions d)"
    using Cons.prems(2) [of r] by (simp add: r)
  have one: "returns (issue_invoice sub pl a b c now d)
      (\<lambda>x. billing_inv (snd x) \<and> plan_subscriptions (snd x) = plan_subscriptions d)" for a b c
    using issue_invoice_inv [OF Cons.prems(1) mem, of pl a b c now] issue_invoice_frame [of sub pl a b c now d]
    unfolding returns_def by fastforce
  show ?case
    unfolding r issue_loop.simps case_prod_beta
    by (rule returns_rbind_pre [OF one], rule Cons.IH) (use Cons.prems(2) in auto)
qed simp

lemma issue_loop_frame:
  "returns (issue_loop now due (c, d)) (\<lambda>r. \<exists>new. snd r = d\<lparr>plan_invoices := plan_invoices d @ new\<rparr>)"
proof (induction due arbitrary: c d)
  case Nil
  show ?case
    by (auto intro: exI [of _ "[]"])
next
  case (Cons r due)
  obtain sub pl where r: "r = (sub, pl)" by force
  show ?case
    unfolding r issue_loop.simps case_prod_beta
  proof (rule returns_rbind_pre [OF issue_invoice_frame])
    fix x :: "(plan_invoice option \<times> bool) \<times> db"
    assume "\<exists>new. snd x = d\<lparr>plan_invoices := plan_invoices d @ new\<rparr>"
    then obtain new where x: "snd x = d\<lparr>plan_invoices := plan_invoices d @ new\<rparr>" by blast
    show "returns (issue_loop now due
        (case fst (fst x) of None \<Rightarrow> c\<lparr>ic_nothing := ic_nothing c + 1\<rparr>
          | Some _ \<Rightarrow> c\<lparr>ic_invoices := ic_invoices c + 1\<rparr>, snd x))
        (\<lambda>r. \<exists>new. snd r = d\<lparr>plan_invoices := plan_invoices d @ new\<rparr>)"
      using Cons.IH [of "case fst (fst x) of None \<Rightarrow> c\<lparr>ic_nothing := ic_nothing c + 1\<rparr>
          | Some _ \<Rightarrow> c\<lparr>ic_invoices := ic_invoices c + 1\<rparr>" "snd x"]
      unfolding x returns_def by fastforce
  qed
qed


lemma scalar_one_or_none_unique:
  assumes "distinct_keys key t" "\<And>x y. x \<in> set t \<Longrightarrow> y \<in> set t \<Longrightarrow> P x \<Longrightarrow> P y \<Longrightarrow> key x = key y"
  shows "scalar_one_or_none (filter P t) = Inr (find P t)"
  using assms
proof (induction t)
  case (Cons a t)
  have dist: "key a \<notin> key ` set t" "distinct_keys key t"
    using Cons.prems(1) by (simp_all add: distinct_keys_def)
  have rest: "scalar_one_or_none (filter P t) = Inr (find P t)"
  proof (rule Cons.IH [OF dist(2)])
    fix x y
    assume "x \<in> set t" "y \<in> set t" "P x" "P y"
    then show "key x = key y"
      by (intro Cons.prems(2)) auto
  qed
  have "\<not> P x" if "P a" "x \<in> set t" for x
  proof
    assume "P x"
    with that have "key x = key a"
      by (intro Cons.prems(2)) auto
    with that(2) dist(1) show False
      by (metis imageI)
  qed
  then have "P a \<Longrightarrow> filter P t = []"
    by (simp add: filter_empty_conv)
  with rest show ?case
    by simp
qed simp

lemma short_distinct: "length xs \<le> 1 \<Longrightarrow> distinct (map f xs)"
  by (cases xs; cases "tl xs") auto

lemma find_invoice_for_window_ok:
  assumes "billing_inv d"
  shows "find_invoice_for_window d sid t =
    Inr (find (\<lambda>i. invoice_window i = Some (sid, t)) (plan_invoices d))"
proof -
  have eq: "(\<lambda>i. inv_subscription_id i = Some sid \<and> inv_period_start i = Some t \<and> inv_status i \<noteq> INVOICE_VOID) =
      (\<lambda>i. invoice_window i = Some (sid, t))"
    by (auto simp: fun_eq_iff invoice_window_def split: option.splits)
  show ?thesis
    unfolding find_invoice_for_window_def eq
  proof (rule scalar_one_or_none_unique)
    fix x y
    assume "x \<in> set (plan_invoices d)" "y \<in> set (plan_invoices d)"
      "invoice_window x = Some (sid, t)" "invoice_window y = Some (sid, t)"
    then show "inv_id x = inv_id y"
      using unique_byD [OF billing_invD(5) [OF assms], of x y] by simp
  qed (rule billing_invD(3) [OF assms])
qed

lemma issue_invoice_new:
  assumes "billing_inv d" "plan_monthly_fee_cents pl > 0"
    and "unclaimed invoice_window (Some (sub_id sub, a)) (plan_invoices d)"
  shows "issue_invoice sub pl a b c now d =
    Inr ((Some (new_invoice sub pl a b c now d), True), add_invoice (new_invoice sub pl a b c now d) d)"
proof -
  have "find (\<lambda>i. invoice_window i = Some (sub_id sub, a)) (plan_invoices d) = None"
    using assms(3) by (simp add: unclaimed_def find_None_iff)
  then show ?thesis
    using assms(2) by (simp add: issue_invoice_def find_invoice_for_window_ok [OF assms(1)] Let_def)
qed

lemma issue_loop_new:
  assumes "billing_inv d" "distinct (map (\<lambda>r. sub_id (fst r)) due)"
    and "\<And>r. r \<in> set due \<Longrightarrow> plan_monthly_fee_cents (snd r) > 0 \<and>
      unclaimed invoice_window (Some (sub_id (fst r), sub_next_billing_at (fst r))) (plan_invoices d)"
    and "\<And>r. r \<in> set due \<Longrightarrow> sub_id (fst r) \<in> sub_id ` set (plan_subscriptions d)"
  shows "\<exists>new. issue_loop now due (c, d) =
      Inr (c\<lparr>ic_invoices := ic_invoices c + length due\<rparr>, d\<lparr>plan_invoices := plan_invoices d @ new\<rparr>) \<and>
    list_all2 renewal_invoice new due"
  using assms
proof (induction due arbitrary: c d)
  case Nil
  then show ?case by (intro exI [of _ "[]"]) simp
next
  case (Cons r due)
  obtain sub pl where r: "r = (sub, pl)" by force
  let ?i = "new_invoice sub pl (sub_next_billing_at sub) (sub_next_billing_at sub + CREDIT_PERIOD)
    (sub_next_billing_at sub) now d"
  let ?d = "add_invoice ?i d"
  have fee: "plan_monthly_fee_cents pl > 0"
    and free: "unclaimed invoice_window (Some (sub_id sub, sub_next_billing_at sub)) (plan_invoices d)"
    using Cons.prems(3) [of r] r by auto
  have inv: "billing_inv ?d"
    using free Cons.prems(4) [of r] by (intro billing_inv_add_invoice Cons.prems(1)) (auto simp: r)
  have "\<exists>new. issue_loop now due (c\<lparr>ic_invoices := ic_invoices c + 1\<rparr>, ?d) =
      Inr ((c\<lparr>ic_invoices := ic_invoices c + 1\<rparr>)\<lparr>ic_invoices := ic_invoices (c\<lparr>ic_invoices := ic_invoices c + 1\<rparr>) + length due\<rparr>,
        ?d\<lparr>plan_invoices := plan_invoices ?d @ new\<rparr>) \<and>
      list_all2 renewal_invoice new due"
  proof (rule Cons.IH [OF inv])
    fix q
    assume q: "q \<in> set due"
    then have "sub_id (fst q) \<noteq> sub_id sub"
      using Cons.prems(2) r by force
    with q show "plan_monthly_fee_cents (snd q) > 0 \<and>
        unclaimed invoice_window (Some (sub_id (fst q), sub_next_billing_at (fst q))) (plan_invoices ?d)"
      using Cons.prems(3) [of q] by (auto simp: unclaimed_def add_invoice_def tadd_def)
  qed (use Cons.prems(2,4) in \<open>auto simp: add_invoice_def\<close>)
  then obtain new where new: "issue_loop now due (c\<lparr>ic_invoices := ic_invoices c + 1\<rparr>, ?d) =
      Inr (c\<lparr>ic_invoices := ic_invoices c + 1 + length due\<rparr>, ?d\<lparr>plan_invoices := plan_invoices ?d @ new\<rparr>)"
    "list_all2 renewal_invoice new due"
    by auto
  have "renewal_invoice ?i r"
    using fee by (simp add: renewal_invoice_def r)
  then show ?case
    using new issue_invoice_new [OF Cons.prems(1) fee free]
    by (intro exI [of _ "?i # new"]) (simp add: r add_invoice_def tadd_def)
qed

text \<open>A subscription is in the sweep at most once.\<close>

lemma sub_rows_distinct:
  assumes "distinct_keys plan_id ps" "distinct_keys sub_id ss"
  shows "distinct (map (\<lambda>r. sub_id (fst r)) [(sub, pl). sub \<leftarrow> ss, pl \<leftarrow> ps, plan_id pl = sub_plan_id sub \<and> Q sub pl])"
  using assms(2)
proof (induction ss)
  case (Cons sub ss)
  have inner: "length [(sub, pl). pl \<leftarrow> ps, plan_id pl = sub_plan_id sub \<and> Q sub pl] \<le> 1"
    using assms(1)
  proof (induction ps)
    case (Cons p ps)
    have "[(sub, pl). pl \<leftarrow> ps, plan_id pl = sub_plan_id sub \<and> Q sub pl] = []" if "plan_id p = sub_plan_id sub"
      using Cons.prems that by (auto simp: distinct_keys_def image_iff)
    with Cons show ?case
      by (auto simp: distinct_keys_def)
  qed simp
  then have "distinct (map (\<lambda>r. sub_id (fst r)) [(sub, pl). pl \<leftarrow> ps, plan_id pl = sub_plan_id sub \<and> Q sub pl])"
    by (rule short_distinct)
  moreover have "sub_id sub \<notin> sub_id ` set ss"
    using Cons.prems by (simp add: distinct_keys_def)
  ultimately show ?case
    using Cons by (auto simp: distinct_keys_def)
qed simp


lemma due_subscriptions_sub:
  "r \<in> set (due_subscriptions s now lim d) \<Longrightarrow>
    fst r \<in> set (plan_subscriptions d) \<and> snd r \<in> set (plans d) \<and> plan_id (snd r) = sub_plan_id (fst r) \<and>
    live_sub (fst r) \<and> plan_monthly_fee_cents (snd r) > 0 \<and>
    sub_next_billing_at (fst r) \<le> now + days (max 0 (billing_lead_days s)) \<and>
    unclaimed invoice_window (Some (sub_id (fst r), sub_next_billing_at (fst r))) (plan_invoices d)"
  by (auto simp: due_subscriptions_def limit_def window_claimed_def list_ex_iff unclaimed_def
      dest!: in_set_takeD split: if_splits)

lemma distinct_map_sort_take: "distinct (map f xs) \<Longrightarrow> distinct (map f (take n (sort_key k xs)))"
proof -
  assume "distinct (map f xs)"
  then have "distinct (map f (sort_key k xs))"
    by (simp add: distinct_map)
  then show ?thesis
    by (simp only: take_map [symmetric] distinct_take)
qed

lemma due_subscriptions_distinct:
  assumes "billing_inv d"
  shows "distinct (map (\<lambda>r. sub_id (fst r)) (due_subscriptions s now lim d))"
  unfolding due_subscriptions_def limit_def
  by (intro distinct_map_sort_take sub_rows_distinct billing_invD [OF assms])

lemma issue_sweep_result:
  assumes "billing_inv d"
  shows "\<exists>new. issue_due_invoices s now lim d =
      Inr (\<lparr>ic_due = length (due_subscriptions s now lim d), ic_invoices = length (due_subscriptions s now lim d), ic_nothing = 0\<rparr>,
        d\<lparr>plan_invoices := plan_invoices d @ new\<rparr>) \<and>
    list_all2 renewal_invoice new (due_subscriptions s now lim d)"
proof -
  let ?due = "due_subscriptions s now lim d"
  have "\<exists>new. issue_loop now ?due (\<lparr>ic_due = length ?due, ic_invoices = 0, ic_nothing = 0\<rparr>, d) =
      Inr (\<lparr>ic_due = length ?due, ic_invoices = 0, ic_nothing = 0\<rparr>\<lparr>ic_invoices := ic_invoices \<lparr>ic_due = length ?due, ic_invoices = 0, ic_nothing = 0\<rparr> + length ?due\<rparr>,
        d\<lparr>plan_invoices := plan_invoices d @ new\<rparr>) \<and> list_all2 renewal_invoice new ?due"
    by (rule issue_loop_new [OF assms due_subscriptions_distinct [OF assms]])
      (blast dest: due_subscriptions_sub)+
  then show ?thesis
    by (simp add: issue_due_invoices_def Let_def)
qed

lemma renewal_invoice_window:
  "renewal_invoice i r \<Longrightarrow> invoice_window i = Some (sub_id (fst r), sub_next_billing_at (fst r))"
  by (simp add: renewal_invoice_def invoice_window_def)

text \<open>Once the whole sweep fits in its limit, nothing is left for a second one.\<close>

lemma due_subscriptions_after:
  assumes new: "list_all2 renewal_invoice new (due_subscriptions s now lim d)"
    and all: "\<And>r. r \<in> set (due_subscriptions s now lim' (d\<lparr>plan_invoices := plan_invoices d @ new\<rparr>)) \<Longrightarrow>
      r \<in> set (due_subscriptions s now lim d)"
  shows "due_subscriptions s now lim' (d\<lparr>plan_invoices := plan_invoices d @ new\<rparr>) = []"
proof (rule ccontr)
  let ?d = "d\<lparr>plan_invoices := plan_invoices d @ new\<rparr>"
  assume "due_subscriptions s now lim' ?d \<noteq> []"
  then obtain r where r: "r \<in> set (due_subscriptions s now lim' ?d)"
    by (meson list.set_sel(1))
  from all [OF r] obtain i where "i \<in> set new" "renewal_invoice i r"
    using new by (metis in_set_conv_nth list_all2_conv_all_nth)
  then have "\<not> unclaimed invoice_window (Some (sub_id (fst r), sub_next_billing_at (fst r))) (plan_invoices ?d)"
    by (auto simp: unclaimed_def dest!: renewal_invoice_window)
  with due_subscriptions_sub [OF r] show False
    by blast
qed


section \<open>Settling and changing plans\<close>

lemma issue_due_invoices_inv:
  "billing_inv d \<Longrightarrow> returns (issue_due_invoices s now lim d) (\<lambda>r. billing_inv (snd r))"
  unfolding issue_due_invoices_def Let_def by (rule issue_loop_inv) (auto dest: due_subscriptions_sub)

lemma fold_expire_inv: "billing_inv d \<Longrightarrow> billing_inv (fold (expire_purchase now) parked d)"
  by (induction parked arbitrary: d) (simp_all add: billing_inv_expire)

lemma fold_freeze_inv: "billing_inv (fold (freeze_account s now) due d) = billing_inv d"
  by (induction due arbitrary: d) (simp_all add: freeze_account_def case_prod_beta)

lemma enforce_grace_inv: "billing_inv d \<Longrightarrow> billing_inv (snd (enforce_grace s now lim d))"
  by (simp add: enforce_grace_def expire_abandoned_purchases_def Let_def fold_expire_inv fold_freeze_inv)

lemma add_reminder_frame [simp]:
  "(add_reminder x y z n v d)\<lparr>plan_invoice_reminders := []\<rparr> = d\<lparr>plan_invoice_reminders := []\<rparr>"
  by (simp add: add_reminder_def)

lemma record_loop_frame:
  "returns (record_loop now rows c cs d)
    (\<lambda>r. (snd (snd r))\<lparr>plan_invoice_reminders := []\<rparr> = d\<lparr>plan_invoice_reminders := []\<rparr>)"
proof (induction rows arbitrary: c cs d)
  case (Cons row rest)
  obtain i sub a where row: "row = (i, sub, a)" by (cases row)
  have "returns (record_loop now rest c' cs' (add_reminder x y z n v d))
      (\<lambda>r. (snd (snd r))\<lparr>plan_invoice_reminders := []\<rparr> = d\<lparr>plan_invoice_reminders := []\<rparr>)" for c' cs' x y z n v
    using Cons.IH [of c' cs' "add_reminder x y z n v d"] by simp
  with Cons.IH show ?case
    by (auto simp: row Let_def split: option.split intro!: returns_rbind)
qed simp

lemma email_loop_frame:
  "returns (email_loop send now cs c d)
    (\<lambda>r. (snd r)\<lparr>plan_invoice_reminders := []\<rparr> = d\<lparr>plan_invoice_reminders := []\<rparr>)"
proof (induction cs arbitrary: c d)
  case (Cons x rest)
  obtain row state where x: "x = (row, state)" by (cases x)
  have "returns (email_loop send now rest c' (add_reminder x y z n v d))
      (\<lambda>r. (snd r)\<lparr>plan_invoice_reminders := []\<rparr> = d\<lparr>plan_invoice_reminders := []\<rparr>)" for c' x y z n v
    using Cons.IH [of c' "add_reminder x y z n v d"] by simp
  with Cons.IH show ?case
    by (auto simp: x split: sum.split intro!: returns_rbind)
qed simp

lemma record_due_reminders_frame:
  "returns (record_due_reminders mail now lim d)
    (\<lambda>r. (snd r)\<lparr>plan_invoice_reminders := []\<rparr> = d\<lparr>plan_invoice_reminders := []\<rparr>)"
  unfolding record_due_reminders_def Let_def case_prod_beta
proof (rule returns_rbind_pre [OF record_loop_frame])
  fix x :: "reminder_counts \<times> (unpaid_row \<times> notice_state) list \<times> db"
  assume "(snd (snd x))\<lparr>plan_invoice_reminders := []\<rparr> = d\<lparr>plan_invoice_reminders := []\<rparr>"
  then show "returns (email_reminders mail now (fst (snd x)) (fst x) (snd (snd x)))
      (\<lambda>r. (snd r)\<lparr>plan_invoice_reminders := []\<rparr> = d\<lparr>plan_invoice_reminders := []\<rparr>)"
    using email_loop_frame [of "the mail" now "fst (snd x)" "fst x" "snd (snd x)"]
    by (auto simp: email_reminders_def split: option.split)
qed

lemma record_due_reminders_inv:
  assumes "billing_inv d"
  shows "returns (record_due_reminders mail now lim d) (\<lambda>r. billing_inv (snd r))"
proof -
  have erase: "billing_inv (x\<lparr>plan_invoice_reminders := []\<rparr>) = billing_inv x" for x
    by (simp add: billing_inv_def)
  have "billing_inv (snd r)" if "(snd r)\<lparr>plan_invoice_reminders := []\<rparr> = d\<lparr>plan_invoice_reminders := []\<rparr>"
    for r :: "reminder_counts \<times> db"
    using arg_cong [OF that, of billing_inv] assms by (simp only: erase)
  then show ?thesis
    using record_due_reminders_frame [of mail now lim d] unfolding returns_def by blast
qed

text \<open>Reinstatement: every live subscription of the account is retired and one takes its place.\<close>

lemma retire_live_unclaimed:
  "unclaimed live_account (Some account_id) (plan_subscriptions (retire_live_subscriptions account_id now d))"
  unfolding retire_live_subscriptions_def
  by (simp, rule live.retire_frees) (auto simp: live_account_def split: if_splits)

lemma retire_frame [simp]:
  "plan_invoices (retire_live_subscriptions a now d) = plan_invoices d"
  "plans (retire_live_subscriptions a now d) = plans d"
  "accounts (retire_live_subscriptions a now d) = accounts d"
  "stores (retire_live_subscriptions a now d) = stores d"
  by (simp_all add: retire_live_subscriptions_def)

lemma reinstated_sub_simps [simp]:
  "sub_id (reinstated_sub i sub paid_at now d) = fresh_id sub_id (plan_subscriptions d)"
  "sub_plan_id (reinstated_sub i sub paid_at now d) = sub_plan_id sub"
  "sub_account_id (reinstated_sub i sub paid_at now d) = inv_account_id i"
  "sub_status (reinstated_sub i sub paid_at now d) = SUB_ACTIVE"
  "sub_started_at (reinstated_sub i sub paid_at now d) = Some paid_at"
  "sub_next_billing_at (reinstated_sub i sub paid_at now d) = paid_at + CREDIT_PERIOD"
  "live_account (reinstated_sub i sub paid_at now d) = Some (inv_account_id i)"
  by (simp_all add: reinstated_sub_def live_account_def live_sub_def)

lemma granted_invoice_simps [simp]:
  "inv_id (granted_invoice i sid pid paid_at now d) = fresh_id inv_id (plan_invoices d)"
  "invoice_window (granted_invoice i sid pid paid_at now d) = Some (sid, paid_at)"
  "inv_status (granted_invoice i sid pid paid_at now d) = INVOICE_PAID"
  "inv_payment_id (granted_invoice i sid pid paid_at now d) = pid"
  "inv_subscription_id (granted_invoice i sid pid paid_at now d) = Some sid"
  by (simp_all add: granted_invoice_def invoice_window_def)

lemma retire_claim_simps [simp]:
  "inv_id (retire_claim pid now i) = inv_id i" "invoice_window (retire_claim pid now i) = None"
  "inv_status (retire_claim pid now i) = INVOICE_VOID"
  by (simp_all add: retire_claim_def void_invoice_def invoice_window_def Let_def)

lemma mod_invoice_inv:
  assumes "billing_inv d" "\<And>i. inv_id (f i) = inv_id i" "\<And>i. inv_subscription_id (f i) = inv_subscription_id i"
    and "unique_by inv_id invoice_window (tupd inv_id k f (plan_invoices d))"
  shows "billing_inv (mod_invoice k f d)"
  unfolding mod_invoice_def
proof (rule billing_inv_invoices [OF assms(1) _ assms(4)])
  show "distinct_keys inv_id (tupd inv_id k f (plan_invoices d))"
    using billing_invD(3) [OF assms(1)] by (simp add: distinct_keys_def map_key_tupd assms(2))
next
  fix i
  assume "i \<in> set (tupd inv_id k f (plan_invoices d))"
  then obtain j where "j \<in> set (plan_invoices d)" "inv_subscription_id i = inv_subscription_id j"
    using assms(3) by (auto simp: tupd_def split: if_splits)
  then show "inv_subscription_id i \<in> insert None (Some ` sub_id ` set (plan_subscriptions d))"
    using billing_invD(7) [OF assms(1)] by metis
qed

lemma mod_invoice_retire_inv:
  assumes "billing_inv d"
  shows "billing_inv (mod_invoice k (retire_claim pid now) d)"
  by (rule mod_invoice_inv [OF assms])
    (auto simp: retire_claim_def void_invoice_def Let_def invoice_window_def
      intro!: unique_by_tupd billing_invD(5) [OF assms])

lemma reinstate_inv:
  assumes "billing_inv d" "sub \<in> set (plan_subscriptions d)"
  shows "billing_inv (reinstate i sub pid paid_at now source d)"
proof -
  let ?d1 = "retire_live_subscriptions (inv_account_id i) now d"
  let ?re = "reinstated_sub i sub paid_at now ?d1"
  let ?d2 = "add_sub ?re ?d1"
  let ?g = "granted_invoice i (sub_id ?re) pid paid_at now ?d2"
  have inv1: "billing_inv ?d1"
    by (rule billing_inv_retire [OF assms(1)])
  have inv2: "billing_inv ?d2"
    using retire_live_unclaimed billing_invD(6) [OF assms]
    by (intro billing_inv_add_sub inv1) simp_all
  have "invoice_window j \<noteq> Some (sub_id ?re, paid_at)" if "j \<in> set (plan_invoices d)" for j
    using billing_invD(7) [OF inv1, of j] that fresh_id_greater [of _ "plan_subscriptions ?d1" sub_id]
    by (force simp: invoice_window_def split: option.splits if_splits)
  then have inv3: "billing_inv (add_invoice ?g ?d2)"
    by (intro billing_inv_add_invoice inv2) (auto simp: unclaimed_def add_sub_def tadd_def)
  show ?thesis
    unfolding reinstate_def Let_def billing_inv_simps by (rule mod_invoice_retire_inv [OF inv3])
qed


lemma mod_sub_inv:
  assumes "billing_inv d" "\<And>x. sub_id (f x) = sub_id x" "\<And>x. sub_plan_id (f x) = sub_plan_id x"
    and "unique_by sub_id live_account (tupd sub_id k f (plan_subscriptions d))"
  shows "billing_inv (mod_sub k f d)"
  unfolding mod_sub_def
proof (rule billing_inv_subs [OF assms(1) _ assms(4)])
  have keys: "map sub_id (tupd sub_id k f (plan_subscriptions d)) = map sub_id (plan_subscriptions d)"
    by (simp add: map_key_tupd assms(2))
  then show "distinct_keys sub_id (tupd sub_id k f (plan_subscriptions d))"
    using billing_invD(2) [OF assms(1)] by (simp add: distinct_keys_def)
  show "sub_id ` set (plan_subscriptions d) \<subseteq> sub_id ` set (tupd sub_id k f (plan_subscriptions d))"
    using arg_cong [OF keys, of set] by simp
  fix x
  assume "x \<in> set (tupd sub_id k f (plan_subscriptions d))"
  then obtain y where "y \<in> set (plan_subscriptions d)" "sub_plan_id x = sub_plan_id y"
    using assms(3) by (auto simp: tupd_def split: if_splits)
  then show "sub_plan_id x \<in> plan_id ` set (plans d)"
    using billing_invD(6) [OF assms(1)] by metis
qed

lemma extend_coverage_inv: "billing_inv d \<Longrightarrow> billing_inv (extend_coverage i now d)"
  unfolding extend_coverage_def
  by (auto split: option.split intro!: mod_sub_inv unique_by_tupd billing_invD(4)
      simp: live_account_def live_sub_def)

lemma activate_subscription_inv:
  assumes "billing_inv d"
  shows "billing_inv (activate_subscription sid now d)"
proof (cases "tget sub_id sid (plan_subscriptions d)")
  case (Some sub)
  have sub: "sub \<in> set (plan_subscriptions d)" "sub_id sub = sid"
    using Some tget_Some [OF billing_invD(2) [OF assms]] by auto
  let ?P = "\<lambda>x. sub_account_id x = sub_account_id sub \<and> sub_id x \<noteq> sub_id sub \<and> live_sub x"
  let ?d = "d\<lparr>plan_subscriptions := tmodify ?P (cancel_sub now) (plan_subscriptions d)\<rparr>"
  let ?f = "\<lambda>x. x\<lparr>sub_status := SUB_ACTIVE,
    sub_started_at := (case sub_started_at x of None \<Rightarrow> Some now | Some t \<Rightarrow> Some t), sub_updated_at := now\<rparr>"
  have inv: "billing_inv ?d"
    by (rule billing_inv_cancel [OF assms])
  have "unique_by sub_id live_account (tupd sub_id sid ?f (plan_subscriptions ?d))"
  proof (rule unique_by_tupd_claim)
    fix x y
    assume x: "x \<in> set (plan_subscriptions ?d)" "sub_id x = sid"
      and y: "y \<in> set (plan_subscriptions ?d)" "sub_id y \<noteq> sid"
    obtain x0 where x0: "x0 \<in> set (plan_subscriptions d)" "x = (if ?P x0 then cancel_sub now x0 else x0)"
      using x(1) by (auto simp: tmodify_def)
    then have "sub_id x0 = sub_id sub"
      using x(2) sub(2) by (simp split: if_splits)
    then have "x0 = sub"
      using rows.rows_eq [OF billing_invD(2) [OF assms] x0(1) sub(1)] by blast
    with x0(2) have "x = sub"
      by simp
    moreover obtain y0 where "y0 \<in> set (plan_subscriptions d)" "y = (if ?P y0 then cancel_sub now y0 else y0)"
      using y(1) by (auto simp: tmodify_def)
    then have "live_account y \<noteq> Some (sub_account_id sub)"
      using y(2) sub(2) by (cases "?P y0") (auto simp: live_account_def)
    ultimately show "live_account y \<noteq> live_account (?f x)"
      by (simp add: live_account_def live_sub_def)
  qed (use billing_invD [OF inv] in simp_all)
  then have "billing_inv (mod_sub sid ?f ?d)"
    by (intro mod_sub_inv inv) simp_all
  with Some assms show ?thesis
    by (simp add: activate_subscription_def)
qed (simp add: activate_subscription_def assms)

lemma mark_invoice_paid_simps [simp]:
  "inv_id (mark_invoice_paid p now i) = inv_id i"
  "inv_subscription_id (mark_invoice_paid p now i) = inv_subscription_id i"
  "inv_status (mark_invoice_paid p now i) = INVOICE_PAID"
  "inv_payment_id (mark_invoice_paid p now i) = inv_payment_id i"
  by (simp_all add: mark_invoice_paid_def)

lemma mark_paid_inv:
  assumes "billing_inv d" "i \<in> set (plan_invoices d)" "window_free (mark_invoice_paid paid_at now i) d"
  shows "billing_inv (mod_invoice (inv_id i) (mark_invoice_paid paid_at now) d)"
proof (rule mod_invoice_inv [OF assms(1)])
  show "unique_by inv_id invoice_window (tupd inv_id (inv_id i) (mark_invoice_paid paid_at now) (plan_invoices d))"
  proof (rule unique_by_tupd_claim)
    fix x y
    assume x: "x \<in> set (plan_invoices d)" "inv_id x = inv_id i"
      and y: "y \<in> set (plan_invoices d)" "inv_id y \<noteq> inv_id i"
      and w: "invoice_window (mark_invoice_paid paid_at now x) \<noteq> None"
    have "x = i"
      using rows.rows_eq [OF billing_invD(3) [OF assms(1)] x(1) assms(2) x(2)] .
    then show "invoice_window y \<noteq> invoice_window (mark_invoice_paid paid_at now x)"
      using assms(3) w y by (auto simp: window_free_def list_all_iff)
  qed (use billing_invD [OF assms(1)] in simp_all)
qed simp_all

lemma settle_invoice_inv:
  assumes "billing_inv d" "i \<in> set (plan_invoices d)"
  shows "returns (settle_invoice s i pid paid_at now source d) (\<lambda>r. billing_inv (snd r))"
proof -
  have re: "billing_inv (reinstate i sub pid paid_at now source d)"
    if "tget sub_id sid (plan_subscriptions d) = Some sub" for sid sub
    using tget_Some [OF billing_invD(2) [OF assms(1)]] that by (intro reinstate_inv assms(1)) auto
  note ext = extend_coverage_inv [OF activate_subscription_inv [OF mark_paid_inv [OF assms]]]
  show ?thesis
    unfolding settle_invoice_def Let_def
    by (auto split: option.split simp: assms(1) re ext mark_paid_inv [OF assms] guard_def intro!: returns_rbind returns_if)
qed

lemma settle_for_payment_inv:
  assumes "billing_inv d"
  shows "returns (settle_invoice_for_payment s pid paid_at now d) (\<lambda>r. billing_inv (snd r))"
proof -
  have "i \<in> set (plan_invoices d)"
    if "scalar_one_or_none (filter (\<lambda>i. inv_payment_id i = Some pid) (plan_invoices d)) = Inr (Some i)" for i
    using scalar_one_or_none_mem [OF that] by simp
  then show ?thesis
    unfolding settle_invoice_for_payment_def
    by (intro returns_rbind) (auto split: option.split intro: settle_invoice_inv [OF assms] simp: assms)
qed


lemma get_active_sub_None:
  assumes "billing_inv d" "get_active_sub d a = Inr None"
  shows "unclaimed live_account (Some a) (plan_subscriptions d)"
proof -
  have none: "\<not> (plan_id pl = sub_plan_id sub \<and> sub_account_id sub = a \<and> live_sub sub)"
    if "sub \<in> set (plan_subscriptions d)" "pl \<in> set (plans d)" for sub pl
    using assms(2) that by (auto simp: get_active_sub_def scalar_one_or_none_Inr split: if_splits)
  have "live_account sub \<noteq> Some a" if mem: "sub \<in> set (plan_subscriptions d)" for sub
  proof -
    obtain pl where "pl \<in> set (plans d)" "plan_id pl = sub_plan_id sub"
      using billing_invD(6) [OF assms(1) mem] by (metis imageE)
    then show ?thesis
      using none [OF mem] by (auto simp: live_account_def)
  qed
  then show ?thesis
    by (simp add: unclaimed_def)
qed

lemma get_active_sub_Some:
  assumes "get_active_sub d a = Inr (Some (sub, pl))"
  shows "sub \<in> set (plan_subscriptions d)" "sub_account_id sub = a" "live_sub sub"
    "pl \<in> set (plans d)" "plan_id pl = sub_plan_id sub"
proof -
  have "(sub, pl) \<in> set [(sub, pl). sub \<leftarrow> plan_subscriptions d, pl \<leftarrow> plans d,
       plan_id pl = sub_plan_id sub \<and> sub_account_id sub = a \<and> live_sub sub]"
    using assms by (simp add: get_active_sub_def scalar_one_or_none_Inr del: set_concat)
  then show "sub \<in> set (plan_subscriptions d)" "sub_account_id sub = a" "live_sub sub"
    "pl \<in> set (plans d)" "plan_id pl = sub_plan_id sub"
    by (auto split: if_splits)
qed

lemma new_sub_simps [simp]:
  "sub_id (new_sub a p st started now d) = fresh_id sub_id (plan_subscriptions d)"
  "sub_plan_id (new_sub a p st started now d) = p"
  "sub_account_id (new_sub a p st started now d) = a"
  "sub_status (new_sub a p st started now d) = st"
  "sub_next_billing_at (new_sub a p st started now d) = now + CREDIT_PERIOD"
  by (simp_all add: new_sub_def)

lemma live_account_new_sub [simp]:
  "live_account (new_sub a p SUB_ACTIVE started now d) = Some a"
  "live_account (new_sub a p SUBSCRIPTION_PENDING started now d) = None"
  by (simp_all add: live_account_def live_sub_def)

text \<open>Once the plan in force is canceled, the account has none.\<close>

lemma cancel_active_unclaimed:
  fixes now
  assumes "billing_inv d" "get_active_sub d a = Inr old"
  defines "t \<equiv> case old of None \<Rightarrow> plan_subscriptions d
    | Some (sub, _) \<Rightarrow> tupd sub_id (sub_id sub) (cancel_sub now) (plan_subscriptions d)"
  shows "unclaimed live_account (Some a) t"
proof (cases old)
  case None
  then show ?thesis
    using get_active_sub_None assms by (simp add: t_def)
next
  case (Some r)
  obtain sub pl where r: "r = (sub, pl)" by force
  note sub = get_active_sub_Some [of d a sub pl]
  have "sub_id x = sub_id sub" if "x \<in> set (plan_subscriptions d)" "live_account x = Some a" for x
    using unique_byD [OF billing_invD(4) [OF assms(1)], of x sub] that sub assms(2) Some r
    by (simp add: live_account_def)
  then have "unclaimed live_account (Some a) (tmodify (\<lambda>x. sub_id x = sub_id sub) (cancel_sub now) (plan_subscriptions d))"
    by (rule live.retire_frees)
  then show ?thesis
    by (simp add: t_def Some r tupd_tmodify)
qed

lemma get_active_sub_frame:
  "plan_subscriptions d' = plan_subscriptions d \<Longrightarrow> plans d' = plans d \<Longrightarrow> get_active_sub d' a = get_active_sub d a"
  by (simp add: get_active_sub_def)

lemma void_open_frame [simp]:
  "plan_subscriptions (void_open_invoices a reason now d) = plan_subscriptions d"
  "plans (void_open_invoices a reason now d) = plans d"
  "accounts (void_open_invoices a reason now d) = accounts d"
  "stores (void_open_invoices a reason now d) = stores d"
  by (simp_all add: void_open_invoices_def)

lemma lift_hold_frame [simp]:
  "plan_subscriptions (lift_billing_hold a now d) = plan_subscriptions d"
  "plans (lift_billing_hold a now d) = plans d"
  "plan_invoices (lift_billing_hold a now d) = plan_invoices d"
  "stores (lift_billing_hold a now d) = stores d"
  by (simp_all add: lift_billing_hold_def)

lemma move_to_free_inv:
  assumes "billing_inv d" "get_active_sub d (acc_id acct) = Inr old" "plan_id pl \<in> plan_id ` set (plans d)"
  shows "billing_inv (snd (move_to_free acct pl old now d))"
proof -
  let ?d2 = "lift_billing_hold (acc_id acct) now (void_open_invoices (acc_id acct) VOID_DOWNGRADED now d)"
  let ?d3 = "case old of None \<Rightarrow> ?d2 | Some (sub, _) \<Rightarrow> mod_sub (sub_id sub) (cancel_sub now) ?d2"
  have inv2: "billing_inv ?d2"
    using billing_inv_void_open [OF assms(1)] by simp
  have inv3: "billing_inv ?d3"
    using billing_inv_cancel [OF inv2] inv2 by (auto simp: mod_sub_tmodify split: option.split)
  have "plan_subscriptions ?d3 = (case old of None \<Rightarrow> plan_subscriptions d
      | Some (sub, _) \<Rightarrow> tupd sub_id (sub_id sub) (cancel_sub now) (plan_subscriptions d))" "plans ?d3 = plans d"
    by (auto simp: mod_sub_def split: option.split)
  then have "billing_inv (add_sub (new_sub (acc_id acct) (plan_id pl) SUB_ACTIVE (Some now) now ?d3) ?d3)"
    using cancel_active_unclaimed [OF assms(1,2), of now] assms(3)
    by (intro billing_inv_add_sub inv3) simp_all
  then show ?thesis
    by (simp add: move_to_free_def Let_def)
qed

lemma buy_plan_inv:
  assumes "billing_inv d" "plan_id pl \<in> plan_id ` set (plans d)"
  shows "returns (buy_plan acct pl old now d) (\<lambda>r. billing_inv (snd r))"
proof -
  have park: "returns (issue_invoice (new_sub (acc_id acct) (plan_id pl) SUBSCRIPTION_PENDING None now d1) pl a b c now
      (add_sub (new_sub (acc_id acct) (plan_id pl) SUBSCRIPTION_PENDING None now d1) d1)) (\<lambda>r. billing_inv (snd r))"
    if "billing_inv d1" "plans d1 = plans d" for d1 a b c
    using that assms(2)
    by (intro issue_invoice_inv billing_inv_add_sub) (simp_all add: unclaimed_def add_sub_def tadd_def)
  have start: "returns (case find_open_invoice d (acc_id acct) of None \<Rightarrow> Inr d
        | Some i \<Rightarrow> if acc_status acct \<noteq> ACCOUNT_RESTRICTED then Inl (HTTPException 409 ''open_invoice_unpaid'')
            else Inr (retire_live_subscriptions (acc_id acct) now
                   (void_open_invoices (acc_id acct) VOID_DOWNGRADED now d)))
      (\<lambda>d1. billing_inv d1 \<and> plans d1 = plans d)"
    using assms(1) by (auto split: option.split simp: billing_inv_retire billing_inv_void_open)
  show ?thesis
    unfolding buy_plan_def Let_def case_prod_beta
    by (rule returns_rbind_pre [OF start], rule returns_rbind_pre [OF park]) (auto split: option.split)
qed

lemma change_plan_inv:
  assumes "billing_inv d"
  shows "returns (change_plan acct wanted now d) (\<lambda>r. billing_inv (snd r))"
proof -
  have pl: "plan_id pl \<in> plan_id ` set (plans d)"
    if "scalar_one_or_none (filter (\<lambda>p. plan_code p = wanted) (plans d)) = Inr (Some pl)" for pl
    using scalar_one_or_none_mem [OF that] by simp
  show ?thesis
    unfolding change_plan_def case_prod_beta
    by (intro returns_rbind)
      (auto split: option.split intro!: returns_rbind returns_if buy_plan_inv [OF assms pl] move_to_free_inv [OF assms _ pl])
qed

lemma handle_billing_event_inv:
  assumes "billing_inv d"
  shows "returns (handle_billing_event s mail ev d) billing_inv"
proof -
  have snd: "returns m (\<lambda>r. billing_inv (snd r)) \<Longrightarrow> returns (rbind m (\<lambda>r. Inr (snd r))) billing_inv"
    for m :: "('x \<times> db) result"
    by (erule returns_rbind_pre) simp
  show ?thesis
  proof (cases ev)
    case (SettleByHand invoice_id paid_at now)
    then show ?thesis
      using tget_Some [OF billing_invD(3) [OF assms]]
      by (auto split: option.split intro!: snd settle_invoice_inv [OF assms])
  qed (auto split: option.split intro!: snd issue_due_invoices_inv [OF assms] enforce_grace_inv [OF assms]
      record_due_reminders_inv [OF assms] change_plan_inv [OF assms] settle_for_payment_inv [OF assms])
qed


section \<open>What settlement does\<close>

lemma window_free_own:
  assumes "billing_inv d" "i \<in> set (plan_invoices d)" "unpaid (inv_status i)"
  shows "window_free (mark_invoice_paid paid_at now i) d"
proof -
  have same: "invoice_window (mark_invoice_paid paid_at now i) = invoice_window i"
    using assms(3) by (auto simp: mark_invoice_paid_def invoice_window_def split: option.split)
  have "inv_id j = inv_id i" if "j \<in> set (plan_invoices d)" "invoice_window i = Some w" "invoice_window j = Some w" for j w
    using unique_byD [OF billing_invD(5) [OF assms(1)] that(1) assms(2)] that(2,3) by simp
  then show ?thesis
    by (auto simp: window_free_def same list_all_iff)
qed

lemma tget_tupd:
  assumes "distinct_keys key t" "\<And>x. key (f x) = key x" "tget key k t = Some r"
  shows "tget key j (tupd key k f t) = (if j = k then Some (f r) else tget key j t)"
  using rows.get_upd_same [OF assms] rows.get_upd_other [OF assms(1,2)] by simp

lemma settle_invoice_subs:
  assumes "inv_status i \<noteq> INVOICE_PAID" "inv_subscription_id i = Some sid"
    and "tget sub_id sid (plan_subscriptions d) = Some sub" "\<not> lapsed s i paid_at"
    and "window_free (mark_invoice_paid paid_at now i) d"
  shows "\<exists>d'. settle_invoice s i pid paid_at now source d = Inr (True, d') \<and>
    plan_subscriptions d' = plan_subscriptions (extend_coverage i now (activate_subscription (sub_id sub) now
        (mod_invoice (inv_id i) (mark_invoice_paid paid_at now) d))) \<and>
    plan_invoices d' = plan_invoices (mod_invoice (inv_id i) (mark_invoice_paid paid_at now) d) \<and>
    accounts d' = (case tget acc_id (inv_account_id i) (accounts d) of None \<Rightarrow> accounts d
      | Some a \<Rightarrow> tupd acc_id (acc_id a) (lift_hold now) (accounts d))"
proof -
  have inv: "plan_invoices (extend_coverage i now (activate_subscription k now x)) = plan_invoices x"
    "accounts (extend_coverage i now (activate_subscription k now x)) = accounts x" for k x
    by (simp_all add: extend_coverage_def activate_subscription_def split: option.split)
  show ?thesis
    using assms
    by (cases "tget acc_id (inv_account_id i) (accounts d)"; cases "tget plan_id (sub_plan_id sub) (plans d)")
      (simp_all add: settle_invoice_def guard_def inv lift_billing_hold_def mod_account_def Let_def)
qed

lemma activated_sub:
  assumes "billing_inv d" "tget sub_id sid (plan_subscriptions d) = Some sub" "sub_status sub \<noteq> SUB_CANCELED"
  shows "\<exists>sub'. tget sub_id sid (plan_subscriptions (activate_subscription sid now d)) = Some sub' \<and>
    live_sub sub' \<and> sub_plan_id sub' = sub_plan_id sub \<and> sub_account_id sub' = sub_account_id sub"
proof (cases "sub_status sub = SUBSCRIPTION_PENDING")
  case True
  let ?t = "tmodify (\<lambda>x. sub_account_id x = sub_account_id sub \<and> sub_id x \<noteq> sub_id sub \<and> live_sub x)
    (cancel_sub now) (plan_subscriptions d)"
  have keys: "distinct_keys sub_id ?t"
    by (rule live.retire_distinct [OF billing_invD(2) [OF assms(1)]])
  have "sub \<in> set (plan_subscriptions d)" "sub_id sub = sid"
    using assms(2) tget_Some [OF billing_invD(2) [OF assms(1)]] by auto
  then have "tget sub_id sid ?t = Some sub"
    using tget_Some [OF keys] by (auto simp: set_tmodify)
  from tget_tupd [OF keys _ this] show ?thesis
    using True assms(2) by (simp add: activate_subscription_def mod_sub_def live_sub_def)
next
  case False
  then have "live_sub sub"
    using assms(3) by (cases "sub_status sub") (auto simp: live_sub_def)
  with False assms(2) show ?thesis
    by (simp add: activate_subscription_def)
qed

lemma extended_sub:
  assumes "distinct_keys sub_id (plan_subscriptions d)" "tget sub_id sid (plan_subscriptions d) = Some sub"
    and "inv_period_end i = Some e" "inv_subscription_id i = Some sid"
  shows "tget sub_id sid (plan_subscriptions (extend_coverage i now d)) =
    Some (sub\<lparr>sub_next_billing_at := e, sub_updated_at := now\<rparr>)"
  using tget_tupd [OF assms(1) _ assms(2)] assms(3,4) by (simp add: extend_coverage_def mod_sub_def)

lemma only_liveI:
  assumes "billing_inv d" "tget sub_id sid (plan_subscriptions d) = Some sub" "live_account sub = Some a"
  shows "only_live d a sid"
proof -
  have sub: "sub \<in> set (plan_subscriptions d)" "sub_id sub = sid"
    using assms(2) tget_Some [OF billing_invD(2) [OF assms(1)]] by auto
  show ?thesis
    unfolding only_live_def
  proof (intro ballI iffI)
    fix x
    assume x: "x \<in> set (plan_subscriptions d)"
    show "sub_id x = sid" if "live_account x = Some a"
      using unique_byD [OF billing_invD(4) [OF assms(1)] x sub(1)] that assms(3) sub(2) by simp
    show "live_account x = Some a" if "sub_id x = sid"
      using rows.rows_eq [OF billing_invD(2) [OF assms(1)] x sub(1)] that assms(3) sub(2) by auto
  qed
qed

lemma scalar_at_most_one:
  assumes "distinct (map f xs)" "\<And>x y. x \<in> set xs \<Longrightarrow> y \<in> set xs \<Longrightarrow> f x = f y"
  shows "\<exists>r. scalar_one_or_none xs = Inr r"
proof (cases xs)
  case x: (Cons x ys)
  show ?thesis
  proof (cases ys)
    case (Cons y zs)
    have "f x = f y"
      by (rule assms(2)) (simp_all add: x Cons)
    then have False
      using assms(1) by (simp add: x Cons)
    then show ?thesis ..
  qed (simp add: x)
qed simp

lemma get_active_sub_ok:
  assumes "billing_inv d"
  shows "\<exists>r. get_active_sub d a = Inr r"
proof -
  let ?rows = "[(sub, pl). sub \<leftarrow> plan_subscriptions d, pl \<leftarrow> plans d,
    plan_id pl = sub_plan_id sub \<and> sub_account_id sub = a \<and> live_sub sub]"
  have dist: "distinct (map (\<lambda>r. sub_id (fst r)) ?rows)"
    by (intro sub_rows_distinct billing_invD [OF assms])
  have same: "sub_id (fst x) = sub_id (fst y)" if "x \<in> set ?rows" "y \<in> set ?rows" for x y
  proof -
    have "fst x \<in> set (plan_subscriptions d)" "fst y \<in> set (plan_subscriptions d)"
      "live_account (fst x) = Some a" "live_account (fst y) = Some a"
      using that by (auto simp: live_account_def split: if_splits)
    then show ?thesis
      using unique_byD [OF billing_invD(4) [OF assms], of "fst x" "fst y"] by simp
  qed
  have "\<exists>r. scalar_one_or_none ?rows = Inr r"
    by (rule scalar_at_most_one [OF dist same])
  then show ?thesis
    by (simp only: get_active_sub_def)
qed


section \<open>What the freeze touches\<close>

lemma freeze_accounts:
  "accounts (fold (freeze_account s now) due d) =
    map (\<lambda>a. if acc_id a \<in> (\<lambda>r. acc_id (snd r)) ` set due
      then a\<lparr>acc_status := ACCOUNT_RESTRICTED, acc_updated_at := now\<rparr> else a) (accounts d)"
  by (induction due arbitrary: d) (auto simp: freeze_account_def mod_account_def tupd_def case_prod_beta)

lemma freeze_frame [simp]:
  "stores (fold (freeze_account s now) due d) = stores d"
  "plan_subscriptions (fold (freeze_account s now) due d) = plan_subscriptions d"
  "plan_invoices (fold (freeze_account s now) due d) = plan_invoices d"
  "plans (fold (freeze_account s now) due d) = plans d"
  by (induction due arbitrary: d) (simp_all add: freeze_account_def case_prod_beta)

lemma expire_frame [simp]:
  "stores (fold (expire_purchase now) parked d) = stores d"
  "accounts (fold (expire_purchase now) parked d) = accounts d"
  "plans (fold (expire_purchase now) parked d) = plans d"
  by (induction parked arbitrary: d) (simp_all add: expire_purchase_def)

lemma expire_live:
  "(\<And>p x. p \<in> set parked \<Longrightarrow> x \<in> set (plan_subscriptions d) \<Longrightarrow> sub_id x = sub_id p \<Longrightarrow> \<not> live_sub x) \<Longrightarrow>
    filter live_sub (plan_subscriptions (fold (expire_purchase now) parked d)) = filter live_sub (plan_subscriptions d)"
proof (induction parked arbitrary: d)
  case (Cons p parked)
  let ?d = "expire_purchase now p d"
  have subs: "plan_subscriptions ?d = tupd sub_id (sub_id p) (cancel_sub now) (plan_subscriptions d)"
    by (simp add: expire_purchase_def mod_sub_def)
  have "filter live_sub (tupd sub_id (sub_id p) (cancel_sub now) xs) = filter live_sub xs"
    if "\<And>x. x \<in> set xs \<Longrightarrow> sub_id x = sub_id p \<Longrightarrow> \<not> live_sub x" for xs
    using that by (induction xs) (auto simp: tupd_def)
  then have one: "filter live_sub (plan_subscriptions ?d) = filter live_sub (plan_subscriptions d)"
    using Cons.prems [of p] by (simp add: subs)
  have "filter live_sub (plan_subscriptions (fold (expire_purchase now) parked ?d)) = filter live_sub (plan_subscriptions ?d)"
  proof (rule Cons.IH)
    fix q x
    assume "q \<in> set parked" "x \<in> set (plan_subscriptions ?d)" "sub_id x = sub_id q"
    then show "\<not> live_sub x"
      using Cons.prems [of q] by (auto simp: subs tupd_def split: if_splits)
  qed
  with one show ?case
    by simp
qed simp

lemma expire_keeps_invoice:
  "i \<in> set (plan_invoices d) \<Longrightarrow> inv_subscription_id i \<notin> Some ` sub_id ` set parked \<Longrightarrow>
    i \<in> set (plan_invoices (fold (expire_purchase now) parked d))"
proof (induction parked arbitrary: d)
  case (Cons p parked)
  have "i \<in> set (plan_invoices (expire_purchase now p d))"
    using Cons.prems by (auto simp: expire_purchase_def set_tmodify)
  then show ?case
    using Cons by simp
qed simp

lemma grace_due_rows:
  assumes "r \<in> set (grace_due s now lim d)"
  shows "fst r \<in> set (plan_invoices d)" "snd r \<in> set (accounts d)" "unpaid (inv_status (fst r))"
    "inv_account_id (fst r) = acc_id (snd r)" "acc_status (snd r) = ACCOUNT_ACTIVE" "\<not> acc_is_platform_admin (snd r)"
    "\<exists>due. inv_due_at (fst r) = Some due \<and> due + grace_period s \<le> now"
    "\<exists>sub \<in> set (plan_subscriptions d). inv_subscription_id (fst r) = Some (sub_id sub) \<and> live_sub sub"
proof -
  obtain i sub a where r: "r = (i, a)" and row: "(i, sub, a) \<in> set (limit lim (unpaid_invoice_query True d))"
    and due: "case inv_due_at i of None \<Rightarrow> False | Some due \<Rightarrow> due + grace_period s \<le> now"
    using assms by (auto simp: grace_due_def split: if_splits)
  have "(i, sub, a) \<in> set (unpaid_invoice_query True d)"
    using row by (auto simp: limit_def dest: in_set_takeD)
  then show "fst r \<in> set (plan_invoices d)" "snd r \<in> set (accounts d)" "unpaid (inv_status (fst r))"
    "inv_account_id (fst r) = acc_id (snd r)" "acc_status (snd r) = ACCOUNT_ACTIVE" "\<not> acc_is_platform_admin (snd r)"
    "\<exists>sub \<in> set (plan_subscriptions d). inv_subscription_id (fst r) = Some (sub_id sub) \<and> live_sub sub"
    by (auto simp: unpaid_invoice_query_def r split: if_splits)
  show "\<exists>due. inv_due_at (fst r) = Some due \<and> due + grace_period s \<le> now"
    using due by (auto simp: r split: option.splits)
qed

lemma parked_not_live:
  assumes "distinct_keys sub_id (plan_subscriptions d)" "p \<in> set (parked_purchases now lim d)"
    and "x \<in> set (plan_subscriptions d)" "sub_id x = sub_id p"
  shows "\<not> live_sub x"
proof -
  have "p \<in> set (plan_subscriptions d)" "sub_status p = SUBSCRIPTION_PENDING"
    using assms(2) by (auto simp: parked_purchases_def limit_def dest: in_set_takeD)
  then show ?thesis
    using rows.rows_eq [OF assms(1,3)] assms(4) by (auto simp: live_sub_def)
qed

section \<open>The dunning clock\<close>

lemma tier_state_cases:
  "tier_state due now =
    (if now < due - days 3 then STATE_ISSUANCE else if now < due - days 1 then DUE_3
     else if now < due then DUE_1 else if now < due + days 1 then DUE_TODAY
     else if now < due + days 3 then OVERDUE_1 else if now < due + days 6 then OVERDUE_3 else OVERDUE_FINAL)"
  by (simp add: tier_state_def TIER_OFFSETS_def days_def)

lemma notice_order_index [simp]:
  "index_of STATE_ISSUANCE NOTICE_ORDER = 0" "index_of DUE_3 NOTICE_ORDER = 1" "index_of DUE_1 NOTICE_ORDER = 2"
  "index_of DUE_TODAY NOTICE_ORDER = 3" "index_of OVERDUE_1 NOTICE_ORDER = 4" "index_of OVERDUE_3 NOTICE_ORDER = 5"
  "index_of OVERDUE_FINAL NOTICE_ORDER = 6" "index_of STATE_FROZEN NOTICE_ORDER = 7"
  by (simp_all add: NOTICE_ORDER_def TIERS_def TIER_OFFSETS_def)

lemma tier_state_mono:
  "now \<le> later \<Longrightarrow> index_of (tier_state due now) NOTICE_ORDER \<le> index_of (tier_state due later) NOTICE_ORDER"
  by (simp add: tier_state_cases days_def)

lemma rank_greater_trans: "\<not> rank_greater a b \<Longrightarrow> \<not> rank_greater b c \<Longrightarrow> \<not> rank_greater a c"
  by (auto simp: rank_greater_def)

lemma rank_greater_irrefl: "\<not> rank_greater a a"
  by (simp add: rank_greater_def)

lemma rank_greater_asym: "rank_greater a b \<Longrightarrow> \<not> rank_greater b a"
  by (auto simp: rank_greater_def)

text \<open>The notice kept by the loop is at least as urgent as every one it has seen.\<close>

lemma pick_notice_best:
  assumes "fold (pick_notice s acct now) rows best = Some n"
  shows "(\<forall>b. best = Some b \<longrightarrow> \<not> rank_greater (notice_rank b) (notice_rank n)) \<and>
    (\<forall>i \<in> set rows. \<forall>state. derived_state (Some acct) i now = Some state \<longrightarrow>
      \<not> rank_greater (notice_rank (render_notice s state (Some i) now)) (notice_rank n))"
  using assms
proof (induction rows arbitrary: best)
  case Nil
  then show ?case
    by (simp add: rank_greater_irrefl)
next
  case (Cons i rows)
  let ?best = "pick_notice s acct now i best"
  have IH: "(\<forall>b. ?best = Some b \<longrightarrow> \<not> rank_greater (notice_rank b) (notice_rank n)) \<and>
    (\<forall>i \<in> set rows. \<forall>state. derived_state (Some acct) i now = Some state \<longrightarrow>
      \<not> rank_greater (notice_rank (render_notice s state (Some i) now)) (notice_rank n))"
    using Cons by simp
  show ?case
  proof (cases "derived_state (Some acct) i now")
    case None
    with IH show ?thesis
      by (simp add: pick_notice_def)
  next
    case (Some state)
    let ?n = "render_notice s state (Some i) now"
    have "\<not> rank_greater (notice_rank ?n) (notice_rank n) \<and>
      (\<forall>b. best = Some b \<longrightarrow> \<not> rank_greater (notice_rank b) (notice_rank n))"
      using IH Some
      by (auto simp: pick_notice_def Let_def split: option.splits if_splits)
        (metis rank_greater_asym rank_greater_trans)+
    with IH Some show ?thesis
      by simp
  qed
qed


section \<open>After a lapse\<close>

lemma settle_lapsed:
  assumes "inv_status i \<noteq> INVOICE_PAID" "inv_subscription_id i = Some sid"
    and "tget sub_id sid (plan_subscriptions d) = Some sub" "lapsed s i paid_at"
  shows "\<exists>d'. settle_invoice s i pid paid_at now source d = Inr (True, d') \<and>
    plan_subscriptions d' = plan_subscriptions (reinstate i sub pid paid_at now source d) \<and>
    plan_invoices d' = plan_invoices (reinstate i sub pid paid_at now source d)"
  using assms
  by (cases "tget acc_id (inv_account_id i) (accounts d)"; cases "tget plan_id (sub_plan_id sub) (plans d)")
    (simp_all add: settle_invoice_def Let_def)

lemma reinstate_tables:
  fixes d i now
  defines "subs \<equiv> plan_subscriptions (retire_live_subscriptions (inv_account_id i) now d)"
  shows "\<exists>re g. plan_subscriptions (reinstate i sub pid paid_at now source d) = subs @ [re] \<and>
    sub_id re = fresh_id sub_id subs \<and> sub_plan_id re = sub_plan_id sub \<and>
    live_account re = Some (inv_account_id i) \<and> sub_started_at re = Some paid_at \<and>
    sub_next_billing_at re = paid_at + CREDIT_PERIOD \<and>
    plan_invoices (reinstate i sub pid paid_at now source d) =
      tupd inv_id (inv_id i) (retire_claim pid now) (plan_invoices d @ [g]) \<and>
    inv_id g = fresh_id inv_id (plan_invoices d) \<and> inv_status g = INVOICE_PAID \<and>
    inv_subscription_id g = Some (sub_id re) \<and> inv_period_start g = Some paid_at \<and>
    inv_period_end g = Some (paid_at + CREDIT_PERIOD) \<and> inv_payment_id g = pid"
  by (intro exI [of _ "reinstated_sub i sub paid_at now (retire_live_subscriptions (inv_account_id i) now d)"]
      exI [of _ "granted_invoice i (fresh_id sub_id subs) pid paid_at now
        (add_sub (reinstated_sub i sub paid_at now (retire_live_subscriptions (inv_account_id i) now d))
          (retire_live_subscriptions (inv_account_id i) now d))"])
    (simp add: reinstate_def Let_def mod_invoice_def add_invoice_def add_sub_def tadd_def subs_def granted_invoice_def)

lemma tget_append_fresh:
  assumes "distinct_keys key t" "key r = fresh_id key t"
  shows "tget key (key r) (t @ [r]) = Some r"
  using rows.get_add_new [OF assms(1), of r] fresh_id_not_used [of key t] assms(2) by (simp add: tadd_def)

lemma settled_payment_row:
  assumes "billing_inv d" "filter (\<lambda>i. inv_payment_id i = Some pid) (plan_invoices d) = [i]"
    and "settle_invoice s i (Some pid) paid_at now source d = Inr (True, d')"
  shows "\<exists>x. filter (\<lambda>i. inv_payment_id i = Some pid) (plan_invoices d') = [x] \<and> inv_status x = INVOICE_PAID"
proof -
  have mem: "i \<in> set (plan_invoices d)" "inv_payment_id i = Some pid"
    using filter_single_mem [OF assms(2)] by auto
  have keys: "distinct_keys inv_id (plan_invoices d)"
    by (rule billing_invD(3) [OF assms(1)])
  have marked: ?thesis if "plan_invoices d' = plan_invoices (mod_invoice (inv_id i) (mark_invoice_paid paid_at now) d)"
    using filter_tupd(1) [OF keys assms(2), of "mark_invoice_paid paid_at now"] mem(2) that
    by (simp add: mod_invoice_def)
  have unpaid: "inv_status i \<noteq> INVOICE_PAID"
    using assms(3) by (auto simp: settle_invoice_def)
  show ?thesis
  proof (cases "case inv_subscription_id i of None \<Rightarrow> None | Some sid \<Rightarrow> tget sub_id sid (plan_subscriptions d)")
    case None
    then show ?thesis
      using assms(3) unpaid by (intro marked) (auto simp: settle_invoice_def Let_def guard_def split: if_splits)
  next
    case (Some sub)
    then obtain sid where sid: "inv_subscription_id i = Some sid" "tget sub_id sid (plan_subscriptions d) = Some sub"
      by (auto split: option.splits)
    show ?thesis
    proof (cases "lapsed s i paid_at")
      case True
      obtain g where g: "plan_invoices (reinstate i sub (Some pid) paid_at now source d) =
          tupd inv_id (inv_id i) (retire_claim (Some pid) now) (plan_invoices d @ [g])"
        "inv_id g = fresh_id inv_id (plan_invoices d)" "inv_status g = INVOICE_PAID" "inv_payment_id g = Some pid"
        using reinstate_tables [of i sub "Some pid" paid_at now source d] by blast
      have "inv_id g \<noteq> inv_id i"
        using fresh_id_greater [OF mem(1), of inv_id] g(2) by simp
      then have "plan_invoices d' = tupd inv_id (inv_id i) (retire_claim (Some pid) now) (plan_invoices d) @ [g]"
        using settle_lapsed [OF unpaid sid True, of "Some pid" now source] assms(3) g(1) by (simp add: tupd_def)
      then show ?thesis
        using filter_tupd(1) [OF keys assms(2), of "retire_claim (Some pid) now"] g(3,4)
        by (simp add: retire_claim_def Let_def)
    next
      case False
      have "window_free (mark_invoice_paid paid_at now i) d"
        using assms(3) unpaid sid False by (auto simp: settle_invoice_def guard_def split: if_splits)
      then show ?thesis
        using settle_invoice_subs [OF unpaid sid False] assms(3) by (intro marked) (metis Inr_inject Pair_inject)
    qed
  qed
qed

lemma buy_plan_parks:
  assumes "billing_inv d" "plan_id pl \<in> plan_id ` set (plans d)" "plan_monthly_fee_cents pl > 0"
    and "buy_plan acct pl old now d = Inr ((sub, Some i), d')"
  shows "sub_status sub = SUBSCRIPTION_PENDING \<and> sub \<in> set (plan_subscriptions d') \<and>
    i \<in> set (plan_invoices d') \<and> inv_status i = INVOICE_OPEN \<and> inv_subscription_id i = Some (sub_id sub) \<and>
    inv_due_at i = Some now \<and> inv_total_due_cents i > 0 \<and>
    (acc_status acct \<noteq> ACCOUNT_RESTRICTED \<longrightarrow>
      filter live_sub (plan_subscriptions d') = filter live_sub (plan_subscriptions d)) \<and>
    set (filter live_sub (plan_subscriptions d')) \<subseteq> set (filter live_sub (plan_subscriptions d))"
proof -
  obtain d1 where d1: "d1 = d \<or> acc_status acct = ACCOUNT_RESTRICTED \<and>
      d1 = retire_live_subscriptions (acc_id acct) now (void_open_invoices (acc_id acct) VOID_DOWNGRADED now d)"
    and rest: "rbind (issue_invoice (new_sub (acc_id acct) (plan_id pl) SUBSCRIPTION_PENDING None now d1) pl now (now + CREDIT_PERIOD) now now
        (add_sub (new_sub (acc_id acct) (plan_id pl) SUBSCRIPTION_PENDING None now d1) d1)) (\<lambda>((ivc, created), d3).
               case ivc of
                 None \<Rightarrow> Inl (HTTPException 500 ''invoice_not_raised'')
               | Some i \<Rightarrow> Inr ((new_sub (acc_id acct) (plan_id pl) SUBSCRIPTION_PENDING None now d1, Some i),
                   audit_record (Some acct) ''plan.change_requested'' ''Account'' (acc_id acct)
                     [(''from_plan'', plan_code_json (map_option snd old)), (''to_plan'', JStr (plan_code pl)),
                      (''invoice_id'', JInt (inv_id i)), (''period_month'', JStr (inv_period_month i))] d3)) =
      Inr ((sub, Some i), d')"
    using assms(4) by (auto simp: buy_plan_def Let_def simp del: rbind_eq_Inr split: option.splits if_splits)
  let ?sub = "new_sub (acc_id acct) (plan_id pl) SUBSCRIPTION_PENDING None now d1"
  have inv1: "billing_inv d1" "plans d1 = plans d"
    using d1 assms(1) by (auto simp: billing_inv_retire billing_inv_void_open)
  have inv2: "billing_inv (add_sub ?sub d1)"
    using assms(2) inv1(2) by (intro billing_inv_add_sub inv1(1)) (simp_all add: unclaimed_def)
  have "invoice_window j \<noteq> Some (sub_id ?sub, now)" if "j \<in> set (plan_invoices d1)" for j
    using billing_invD(7) [OF inv1(1) that] fresh_id_greater [of _ "plan_subscriptions d1" sub_id]
    by (force simp: invoice_window_def split: option.splits if_splits)
  then have free: "unclaimed invoice_window (Some (sub_id ?sub, now)) (plan_invoices (add_sub ?sub d1))"
    by (simp add: unclaimed_def add_sub_def)
  have out: "sub = ?sub" "i = new_invoice ?sub pl now (now + CREDIT_PERIOD) now now (add_sub ?sub d1)"
    "plan_subscriptions d' = plan_subscriptions d1 @ [?sub]" "plan_invoices d' = plan_invoices d1 @ [i]"
    using rest issue_invoice_new [OF inv2 assms(3) free, of "now + CREDIT_PERIOD" now now]
    by (auto simp: add_invoice_def add_sub_def tadd_def)
  have "\<not> live_sub ?sub"
    by (simp add: live_sub_def)
  moreover have "set (filter live_sub (plan_subscriptions d1)) \<subseteq> set (filter live_sub (plan_subscriptions d))"
    using d1 by (auto simp: retire_live_subscriptions_def set_tmodify)
  ultimately show ?thesis
    using d1 assms(3) out by auto
qed

section \<open>Properties\<close>

text \<open>C7. Whatever happens to billing, in whatever order (invoice sweeps, freezes, reminder runs, plan
  changes, settlements by payment or by hand), an account never has two subscriptions in force and a
  subscription never has two live invoices for one period; so the lookup of the plan in force, which
  raises on two rows, always answers.\<close>

theorem billing_events_keep_invariant:
  assumes "billing_inv d"
  shows "billing_inv (fold (billing_step s mail) history d) \<and>
    (\<forall>a. \<exists>r. get_active_sub (fold (billing_step s mail) history d) a = Inr r)"
proof -
  have "billing_inv (fold (billing_step s mail) history d)"
    using assms
  proof (induction history arbitrary: d)
    case (Cons e es)
    have "billing_inv (billing_step s mail e d)"
      using Cons.prems returnsD [OF handle_billing_event_inv [OF Cons.prems]]
      by (auto simp: billing_step_def split: sum.split)
    then show ?case
      using Cons.IH by simp
  qed simp
  then show ?thesis
    using get_active_sub_ok by blast
qed

theorem billing_events_keep_invariant_witness:
  "\<forall>a. \<exists>r. get_active_sub (fold (billing_step default_settings None)
    [IssueSweep (days 25) 500, ChangePlan 3 ''starter'' (days 26), SettlePayment 21 (days 31) (days 31)] shop_db) a = Inr r"
proof -
  have "billing_inv shop_db"
    by code_simp
  then show ?thesis
    using billing_events_keep_invariant [of shop_db default_settings None] by blast
qed

text \<open>What is due, as a set: the live subscriptions on a paid plan whose period end has entered the lead window
  and whose next period no live invoice claims.\<close>

definition due_now :: "settings \<Rightarrow> instant \<Rightarrow> db \<Rightarrow> (plan_subscription \<times> plan) set" where
  "due_now s now d =
     {(sub, pl). sub \<in> set (plan_subscriptions d) \<and> pl \<in> set (plans d) \<and> plan_id pl = sub_plan_id sub \<and> live_sub sub \<and>
        0 < plan_monthly_fee_cents pl \<and> sub_next_billing_at sub \<le> now + days (max 0 (billing_lead_days s)) \<and>
        (\<forall>i \<in> set (plan_invoices d). invoice_window i \<noteq> Some (sub_id sub, sub_next_billing_at sub))}"

lemma take_sort_covers:
  fixes key :: "'a \<Rightarrow> 'k::linorder"
  shows "set (take n (sort_key key xs)) = set xs \<or> length (take n (sort_key key xs)) = n"
    and "x \<in> set xs \<Longrightarrow> x \<notin> set (take n (sort_key key xs)) \<Longrightarrow> y \<in> set (take n (sort_key key xs)) \<Longrightarrow> key y \<le> key x"
proof -
  show "set (take n (sort_key key xs)) = set xs \<or> length (take n (sort_key key xs)) = n"
    by (cases "n \<le> length xs") simp_all
  assume x: "x \<in> set xs" "x \<notin> set (take n (sort_key key xs))" and y: "y \<in> set (take n (sort_key key xs))"
  have "x \<in> set (take n (sort_key key xs)) \<union> set (drop n (sort_key key xs))"
    using x(1) by (metis append_take_drop_id set_append set_sort)
  then have "x \<in> set (drop n (sort_key key xs))"
    using x(2) by blast
  moreover have "sorted (map key (take n (sort_key key xs) @ drop n (sort_key key xs)))"
    by simp
  ultimately show "key y \<le> key x"
    using y unfolding map_append sorted_append by auto
qed

lemma due_subscriptions_covers:
  "set (due_subscriptions s now lim d) \<subseteq> due_now s now d"
  "set (due_subscriptions s now lim d) = due_now s now d \<or> length (due_subscriptions s now lim d) = nat lim"
  "r \<in> due_now s now d - set (due_subscriptions s now lim d) \<Longrightarrow> q \<in> set (due_subscriptions s now lim d) \<Longrightarrow>
     sub_next_billing_at (fst q) \<le> sub_next_billing_at (fst r)"
proof -
  let ?rows = "[(sub, pl). sub \<leftarrow> plan_subscriptions d, pl \<leftarrow> plans d,
          plan_id pl = sub_plan_id sub \<and> live_sub sub \<and> plan_monthly_fee_cents pl > 0 \<and>
          sub_next_billing_at sub \<le> now + days (max 0 (billing_lead_days s)) \<and> \<not> window_claimed d sub]"
  have rows: "set ?rows = due_now s now d"
    by (auto simp: due_now_def window_claimed_def list_ex_iff split: if_splits)
  have due: "due_subscriptions s now lim d = take (nat lim) (sort_key (\<lambda>r. sub_next_billing_at (fst r)) ?rows)"
    by (simp add: due_subscriptions_def limit_def)
  show "set (due_subscriptions s now lim d) = due_now s now d \<or> length (due_subscriptions s now lim d) = nat lim"
    unfolding due rows [symmetric] by (rule take_sort_covers(1))
  show "set (due_subscriptions s now lim d) \<subseteq> due_now s now d"
    unfolding due rows [symmetric] using set_take_subset by fastforce
  show "sub_next_billing_at (fst q) \<le> sub_next_billing_at (fst r)"
    if "r \<in> due_now s now d - set (due_subscriptions s now lim d)" "q \<in> set (due_subscriptions s now lim d)"
    using take_sort_covers(2) [of r ?rows "nat lim" "\<lambda>r. sub_next_billing_at (fst r)" q] that
    unfolding due rows [symmetric] by blast
qed

text \<open>C26. A sweep raises exactly one renewal invoice for each subscription it takes up: for the plan's fee, for
  the period that starts where the current one ends, and due then.  It takes up every subscription that
  is due, or, when there are more than its limit, as many as the limit allows, those with the earliest
  period end.  It changes nothing else in the database, in particular no period end, so a merchant who
  does not pay keeps a period end in the past; and when it took up everything that was due, running it
  again at the same time raises nothing.\<close>

theorem issue_sweep_once:
  assumes "billing_inv d"
  shows "\<exists>c new. issue_due_invoices s now lim d = Inr (c, d\<lparr>plan_invoices := plan_invoices d @ new\<rparr>) \<and>
    list_all2 renewal_invoice new (due_subscriptions s now lim d) \<and>
    ic_invoices c = length (due_subscriptions s now lim d) \<and>
    distinct (map (\<lambda>r. sub_id (fst r)) (due_subscriptions s now lim d)) \<and>
    set (due_subscriptions s now lim d) \<subseteq> due_now s now d \<and>
    (set (due_subscriptions s now lim d) = due_now s now d \<or> length (due_subscriptions s now lim d) = nat lim) \<and>
    (\<forall>r \<in> due_now s now d - set (due_subscriptions s now lim d). \<forall>q \<in> set (due_subscriptions s now lim d).
      sub_next_billing_at (fst q) \<le> sub_next_billing_at (fst r)) \<and>
    (set (due_subscriptions s now lim d) = due_now s now d \<longrightarrow>
      (\<exists>c'. issue_due_invoices s now lim' (d\<lparr>plan_invoices := plan_invoices d @ new\<rparr>) =
        Inr (c', d\<lparr>plan_invoices := plan_invoices d @ new\<rparr>)))"
proof -
  obtain new where new: "issue_due_invoices s now lim d =
      Inr (\<lparr>ic_due = length (due_subscriptions s now lim d), ic_invoices = length (due_subscriptions s now lim d), ic_nothing = 0\<rparr>,
        d\<lparr>plan_invoices := plan_invoices d @ new\<rparr>)"
    "list_all2 renewal_invoice new (due_subscriptions s now lim d)"
    using issue_sweep_result [OF assms] by blast
  let ?d = "d\<lparr>plan_invoices := plan_invoices d @ new\<rparr>"
  have again: "\<exists>c'. issue_due_invoices s now lim' ?d = Inr (c', ?d)"
    if "set (due_subscriptions s now lim d) = due_now s now d"
  proof -
    have "set (due_subscriptions s now lim' ?d) \<subseteq> due_now s now d"
      using due_subscriptions_covers(1) [of s now lim' ?d] by (auto simp: due_now_def)
    then have "due_subscriptions s now lim' ?d = []"
      using that by (intro due_subscriptions_after [OF new(2)]) blast
    then show ?thesis
      by (simp add: issue_due_invoices_def)
  qed
  show ?thesis
    by (rule exI, rule exI [of _ new], intro conjI ballI impI, rule new(1), rule new(2), simp,
        rule due_subscriptions_distinct [OF assms], rule due_subscriptions_covers(1), rule due_subscriptions_covers(2),
        rule due_subscriptions_covers(3), assumption, assumption, rule again)
qed

theorem issue_sweep_once_witness:
  "\<exists>c new. issue_due_invoices default_settings (days 25) 500 shop_db =
      Inr (c, shop_db\<lparr>plan_invoices := new\<rparr>) \<and> list_all2 renewal_invoice new [(demo_subscription, demo_plan)] \<and>
      due_now default_settings (days 25) shop_db = {(demo_subscription, demo_plan)}"
proof -
  have h: "billing_inv shop_db" "due_subscriptions default_settings (days 25) 500 shop_db = [(demo_subscription, demo_plan)]"
    "plan_invoices shop_db = []"
    by code_simp+
  obtain c new where new: "issue_due_invoices default_settings (days 25) 500 shop_db =
      Inr (c, shop_db\<lparr>plan_invoices := plan_invoices shop_db @ new\<rparr>)"
    "list_all2 renewal_invoice new (due_subscriptions default_settings (days 25) 500 shop_db)"
    "set (due_subscriptions default_settings (days 25) 500 shop_db) = due_now default_settings (days 25) shop_db \<or>
      length (due_subscriptions default_settings (days 25) 500 shop_db) = nat 500"
    using issue_sweep_once [OF h(1), of default_settings "days 25" 500 0] by blast
  have "due_now default_settings (days 25) shop_db = {(demo_subscription, demo_plan)}"
    using new(3) unfolding h(2) by simp
  then show ?thesis
    using new(1,2) unfolding h(2,3) by auto
qed




text \<open>C25. Paying after the freeze does not settle the window that was never served: the old invoice is
  voided as \<open>grace_expired\<close>, every live subscription of the account is retired, and a new subscription to
  the same plan starts at the payment, the only one in force, with a paid invoice for the thirty days
  it grants, to which the payment now belongs.\<close>

theorem settle_after_lapse_reinstates:
  assumes "billing_inv d" and "i \<in> set (plan_invoices d)" and "inv_status i \<noteq> INVOICE_PAID"
    and "inv_subscription_id i = Some sid" and "tget sub_id sid (plan_subscriptions d) = Some sub"
    and "lapsed s i paid_at"
  shows "\<exists>d' re g. settle_invoice s i pid paid_at now source d = Inr (True, d') \<and>
    tget inv_id (inv_id i) (plan_invoices d') = Some (retire_claim pid now i) \<and>
    tget sub_id (sub_id re) (plan_subscriptions d') = Some re \<and> sub_plan_id re = sub_plan_id sub \<and>
    sub_started_at re = Some paid_at \<and> sub_next_billing_at re = paid_at + days 30 \<and>
    only_live d' (inv_account_id i) (sub_id re) \<and>
    g \<in> set (plan_invoices d') \<and> inv_status g = INVOICE_PAID \<and> inv_subscription_id g = Some (sub_id re) \<and>
    inv_period_start g = Some paid_at \<and> inv_period_end g = Some (paid_at + days 30) \<and> inv_payment_id g = pid \<and>
    inv_status (retire_claim pid now i) = INVOICE_VOID \<and> inv_void_reason (retire_claim pid now i) = Some VOID_GRACE_EXPIRED \<and>
    (pid \<noteq> None \<longrightarrow> inv_payment_id (retire_claim pid now i) = None)"
proof -
  let ?subs = "plan_subscriptions (retire_live_subscriptions (inv_account_id i) now d)"
  let ?r = "reinstate i sub pid paid_at now source d"
  have sub: "sub \<in> set (plan_subscriptions d)"
    using assms(5) tget_Some [OF billing_invD(2) [OF assms(1)]] by simp
  have inv: "billing_inv ?r"
    by (rule reinstate_inv [OF assms(1) sub])
  obtain re g where subs: "plan_subscriptions ?r = ?subs @ [re]"
    and re: "sub_id re = fresh_id sub_id ?subs" "sub_plan_id re = sub_plan_id sub"
      "live_account re = Some (inv_account_id i)" "sub_started_at re = Some paid_at"
      "sub_next_billing_at re = paid_at + CREDIT_PERIOD"
    and invs: "plan_invoices ?r = tupd inv_id (inv_id i) (retire_claim pid now) (plan_invoices d @ [g])"
    and g: "inv_id g = fresh_id inv_id (plan_invoices d)" "inv_status g = INVOICE_PAID"
      "inv_subscription_id g = Some (sub_id re)" "inv_period_start g = Some paid_at"
      "inv_period_end g = Some (paid_at + CREDIT_PERIOD)" "inv_payment_id g = pid"
    using reinstate_tables [of i sub pid paid_at now source d] by metis
  have re_row: "tget sub_id (sub_id re) (plan_subscriptions ?r) = Some re"
    unfolding subs using billing_invD(2) [OF billing_inv_retire [OF assms(1)]] re(1) by (rule tget_append_fresh)
  have keys: "distinct_keys inv_id (plan_invoices d @ [g])"
    using distinct_keys_tadd_fresh [OF billing_invD(3) [OF assms(1)] g(1)] by (simp add: tadd_def)
  have "tget inv_id (inv_id i) (plan_invoices d @ [g]) = Some i"
    using assms(2) tget_Some [OF keys] by simp
  then have i_row: "tget inv_id (inv_id i) (plan_invoices ?r) = Some (retire_claim pid now i)"
    using tget_tupd [OF keys, of "retire_claim pid now"] by (simp add: invs)
  have "inv_id g \<noteq> inv_id i"
    using fresh_id_greater [OF assms(2), of inv_id] g(1) by simp
  then have g_row: "g \<in> set (plan_invoices ?r)"
    by (auto simp: invs tupd_def)
  have live: "only_live ?r (inv_account_id i) (sub_id re)"
    by (rule only_liveI [OF inv re_row re(3)])
  obtain d' where d': "settle_invoice s i pid paid_at now source d = Inr (True, d')"
    "plan_subscriptions d' = plan_subscriptions ?r" "plan_invoices d' = plan_invoices ?r"
    using settle_lapsed [OF assms(3-6)] by blast
  have "only_live d' (inv_account_id i) (sub_id re)"
    using live by (simp add: only_live_def d'(2))
  moreover have "inv_status (retire_claim pid now i) = INVOICE_VOID" "inv_void_reason (retire_claim pid now i) = Some VOID_GRACE_EXPIRED"
    "pid \<noteq> None \<longrightarrow> inv_payment_id (retire_claim pid now i) = None"
    by (simp_all add: retire_claim_def void_invoice_def Let_def)
  ultimately show ?thesis
    using d' i_row re_row re g g_row
    unfolding CREDIT_PERIOD_def by (intro exI [of _ d'] exI [of _ re] exI [of _ g]) simp
qed

theorem settle_after_lapse_reinstates_witness:
  "\<exists>d' re. settle_invoice default_settings demo_invoice (Some 21) (days 40) (days 40) ''khqr'' billed_db = Inr (True, d') \<and>
    tget sub_id (sub_id re) (plan_subscriptions d') = Some re \<and> sub_next_billing_at re = days 40 + days 30 \<and>
    only_live d' 3 (sub_id re)"
proof -
  have "billing_inv billed_db" "demo_invoice \<in> set (plan_invoices billed_db)" "inv_status demo_invoice \<noteq> INVOICE_PAID"
    "inv_subscription_id demo_invoice = Some 9" "tget sub_id 9 (plan_subscriptions billed_db) = Some demo_subscription"
    "lapsed default_settings demo_invoice (days 40)"
    by code_simp+
  from settle_after_lapse_reinstates [OF this, of "Some 21" "days 40" "''khqr''"]
  show ?thesis
    by (fastforce simp: demo_invoice_def)
qed

text \<open>A payment settles its invoice once: after a settlement by payment, settling the same payment
  again, at any time, changes nothing, on both sides of the grace line.\<close>

theorem settle_payment_idempotent:
  assumes "billing_inv d" and "settle_invoice_for_payment s pid paid_at now d = Inr (True, d')"
  shows "settle_invoice_for_payment s pid paid_at' now' d' = Inr (False, d')"
proof -
  obtain i where i: "filter (\<lambda>i. inv_payment_id i = Some pid) (plan_invoices d) = [i]"
    and set: "settle_invoice s i (Some pid) paid_at now ''khqr'' d = Inr (True, d')"
    using assms(2) by (auto simp: settle_invoice_for_payment_def scalar_one_or_none_Inr split: option.splits)
  have "\<exists>x. filter (\<lambda>i. inv_payment_id i = Some pid) (plan_invoices d') = [x] \<and> inv_status x = INVOICE_PAID"
    by (rule settled_payment_row [OF assms(1) i set])
  then show ?thesis
    by (auto simp: settle_invoice_for_payment_def settle_invoice_def)
qed

theorem settle_payment_idempotent_witness:
  "\<exists>d'. settle_invoice_for_payment default_settings 21 (days 40) (days 40) billed_db = Inr (True, d') \<and>
    settle_invoice_for_payment default_settings 21 (days 41) (days 41) d' = Inr (False, d')"
proof -
  let ?r = "settle_invoice_for_payment default_settings 21 (days 40) (days 40) billed_db"
  have "billing_inv billed_db" "?r = Inr (True, snd (projr ?r))"
    by code_simp+
  then show ?thesis
    using settle_payment_idempotent [of billed_db default_settings 21 "days 40" "days 40" "snd (projr ?r)"] by blast
qed


text \<open>The debts that call for a freeze, as a set: an unpaid invoice whose grace has run out, for a subscription in
  force, of an active account that is not the platform's own.\<close>

definition overdue_rows :: "settings \<Rightarrow> instant \<Rightarrow> db \<Rightarrow> (plan_invoice \<times> account) set" where
  "overdue_rows s now d =
     {(i, a). i \<in> set (plan_invoices d) \<and> a \<in> set (accounts d) \<and> inv_account_id i = acc_id a \<and> unpaid (inv_status i) \<and>
        (\<exists>due. inv_due_at i = Some due \<and> due + grace_period s \<le> now) \<and>
        acc_status a = ACCOUNT_ACTIVE \<and> \<not> acc_is_platform_admin a \<and>
        (\<exists>sub \<in> set (plan_subscriptions d). inv_subscription_id i = Some (sub_id sub) \<and> live_sub sub)}"

text \<open>What passes a test that only gets harder along a sorted list is found by looking at its start.\<close>

lemma filter_take_sorted:
  assumes "sorted (map key xs)" "\<And>x y. x \<in> set xs \<Longrightarrow> y \<in> set xs \<Longrightarrow> key x \<le> key y \<Longrightarrow> P y \<Longrightarrow> P x"
  shows "filter P (take n xs) = take n (filter P xs)"
  using assms
proof (induction xs arbitrary: n)
  case (Cons x xs)
  show ?case
  proof (cases n)
    case (Suc m)
    show ?thesis
    proof (cases "P x")
      case True
      have "filter P (take m xs) = take m (filter P xs)"
      proof (rule Cons.IH)
        show "sorted (map key xs)"
          using Cons.prems(1) by simp
        show "P x'" if "x' \<in> set xs" "y \<in> set xs" "key x' \<le> key y" "P y" for x' y
          using Cons.prems(2) [of x' y] that by simp
      qed
      with True show ?thesis
        by (simp add: Suc)
    next
      case False
      then have "\<not> P y" if "y \<in> set xs" for y
        using Cons.prems(1) Cons.prems(2) [of x y] that by auto
      then show ?thesis
        using False by (auto simp: Suc filter_empty_conv dest: in_set_takeD)
    qed
  qed simp
qed simp

lemma grace_due_covers:
  "set (grace_due s now lim d) \<subseteq> overdue_rows s now d"
  "set (grace_due s now lim d) = overdue_rows s now d \<or> length (grace_due s now lim d) = nat lim"
proof -
  let ?q = "unpaid_invoice_query True d"
  let ?over = "\<lambda>(i, sub, a). case inv_due_at i of None \<Rightarrow> False | Some due \<Rightarrow> due + grace_period s \<le> now"
  let ?row = "\<lambda>(i, sub, a). (i, a)"
  have shape: "[(i, a). (i, sub, a) \<leftarrow> t, (case inv_due_at i of None \<Rightarrow> False | Some due \<Rightarrow> due + grace_period s \<le> now)] =
      map ?row (filter ?over t)" for t :: "unpaid_row list"
    by (induction t) auto
  have sorted: "sorted (map (\<lambda>(i, _). the (inv_due_at i)) ?q)"
    unfolding unpaid_invoice_query_def by (rule sorted_sort_key)
  have dated: "inv_due_at i \<noteq> None" if "(i, sub, a) \<in> set ?q" for i sub a
    using that by (auto simp: unpaid_invoice_query_def split: if_splits)
  have "filter ?over (take (nat lim) ?q) = take (nat lim) (filter ?over ?q)"
  proof (rule filter_take_sorted [OF sorted])
    fix x y
    assume xy: "x \<in> set ?q" "y \<in> set ?q" "(case x of (i, _) \<Rightarrow> the (inv_due_at i)) \<le> (case y of (i, _) \<Rightarrow> the (inv_due_at i))"
      and over: "?over y"
    obtain i sub a j sub' b where "x = (i, sub, a)" "y = (j, sub', b)"
      by (metis prod.exhaust)
    then show "?over x"
      using xy over dated by (fastforce split: option.splits)
  qed
  then have due: "grace_due s now lim d = map ?row (take (nat lim) (filter ?over ?q))"
    unfolding grace_due_def limit_def shape by simp
  have all: "?row ` set (filter ?over ?q) = overdue_rows s now d"
    by (force simp: overdue_rows_def unpaid_invoice_query_def split: option.splits if_splits)
  show "set (grace_due s now lim d) \<subseteq> overdue_rows s now d"
    unfolding due all [symmetric] set_map using set_take_subset by (intro image_mono) fastforce
  show "set (grace_due s now lim d) = overdue_rows s now d \<or> length (grace_due s now lim d) = nat lim"
    unfolding due all [symmetric] set_map by (cases "nat lim \<le> length (filter ?over ?q)") simp_all
qed

text \<open>C27. The freeze changes one field, of the accounts it should.  The sweep finds overdue debts only (of active
  accounts that are not the platform's own), and finds all of them, or as many as its limit when there
  are more; with enforcement on exactly the accounts of the debts it found become restricted, with
  enforcement off no account changes.  No store is touched, no subscription in force is, and the debt
  stays on the books.\<close>

theorem freeze_touches_only_overdue:
  assumes "distinct_keys acc_id (accounts d)" and "distinct_keys sub_id (plan_subscriptions d)"
  shows "set (grace_due s now lim d) \<subseteq> overdue_rows s now d \<and>
    (set (grace_due s now lim d) = overdue_rows s now d \<or> length (grace_due s now lim d) = nat lim) \<and>
    accounts (snd (enforce_grace s now lim d)) =
      map (\<lambda>a. if billing_enforce_enabled s \<and> a \<in> snd ` set (grace_due s now lim d)
        then a\<lparr>acc_status := ACCOUNT_RESTRICTED, acc_updated_at := now\<rparr> else a) (accounts d) \<and>
    (\<forall>(i, a) \<in> set (grace_due s now lim d). i \<in> set (plan_invoices (snd (enforce_grace s now lim d)))) \<and>
    stores (snd (enforce_grace s now lim d)) = stores d \<and>
    filter live_sub (plan_subscriptions (snd (enforce_grace s now lim d))) = filter live_sub (plan_subscriptions d)"
proof (intro conjI)
  let ?due = "grace_due s now lim d"
  let ?d1 = "if billing_enforce_enabled s then fold (freeze_account s now) ?due d else d"
  let ?parked = "parked_purchases now 500 ?d1"
  have out: "snd (enforce_grace s now lim d) = fold (expire_purchase now) ?parked ?d1"
    by (simp add: enforce_grace_def expire_abandoned_purchases_def Let_def)
  have subs1: "plan_subscriptions ?d1 = plan_subscriptions d"
    by simp
  have notlive: "\<not> live_sub x" if "p \<in> set ?parked" "x \<in> set (plan_subscriptions d)" "sub_id x = sub_id p" for p x
    by (rule parked_not_live [OF _ that(1)]) (use assms(2) that(2,3) in simp_all)
  have ids: "acc_id a \<in> (\<lambda>r. acc_id (snd r)) ` set ?due \<longleftrightarrow> a \<in> snd ` set ?due" if "a \<in> set (accounts d)" for a
  proof
    assume "acc_id a \<in> (\<lambda>r. acc_id (snd r)) ` set ?due"
    then obtain x where "x \<in> set ?due" "acc_id a = acc_id (snd x)"
      by blast
    then show "a \<in> snd ` set ?due"
      using rows.rows_eq [OF assms(1) that grace_due_rows(2)] by blast
  qed auto
  show "accounts (snd (enforce_grace s now lim d)) =
      map (\<lambda>a. if billing_enforce_enabled s \<and> a \<in> snd ` set ?due
        then a\<lparr>acc_status := ACCOUNT_RESTRICTED, acc_updated_at := now\<rparr> else a) (accounts d)"
    unfolding out by (simp add: freeze_accounts ids)
  show "stores (snd (enforce_grace s now lim d)) = stores d"
    by (simp add: out)
  show "filter live_sub (plan_subscriptions (snd (enforce_grace s now lim d))) = filter live_sub (plan_subscriptions d)"
    unfolding out by (rule expire_live [of ?parked ?d1 now, unfolded subs1]) (rule notlive)
  have "i \<in> set (plan_invoices (fold (expire_purchase now) ?parked ?d1))" if due: "(i, a) \<in> set ?due" for i a
  proof (rule expire_keeps_invoice)
    obtain sub where "sub \<in> set (plan_subscriptions d)" "inv_subscription_id i = Some (sub_id sub)" "live_sub sub"
      using grace_due_rows(8) [OF due] by auto
    then show "inv_subscription_id i \<notin> Some ` sub_id ` set ?parked"
      using notlive by auto
  qed (use grace_due_rows(1) [OF due] in simp)
  then show "\<forall>(i, a) \<in> set ?due. i \<in> set (plan_invoices (snd (enforce_grace s now lim d)))"
    unfolding out by blast
  show "set ?due \<subseteq> overdue_rows s now d" "set ?due = overdue_rows s now d \<or> length ?due = nat lim"
    by (rule grace_due_covers)+
qed

theorem freeze_touches_only_overdue_witness:
  "map acc_status (accounts (snd (enforce_grace (default_settings\<lparr>billing_enforce_enabled := True\<rparr>) (days 38) 500 billed_db))) =
    [ACCOUNT_RESTRICTED] \<and>
   overdue_rows (default_settings\<lparr>billing_enforce_enabled := True\<rparr>) (days 38) billed_db = {(demo_invoice, sample_account)}"
proof -
  let ?s = "default_settings\<lparr>billing_enforce_enabled := True\<rparr>"
  have "distinct_keys acc_id (accounts billed_db)" "distinct_keys sub_id (plan_subscriptions billed_db)"
    "grace_due ?s (days 38) 500 billed_db = [(demo_invoice, sample_account)]" "accounts billed_db = [sample_account]"
    "billing_enforce_enabled ?s"
    by code_simp+
  then show ?thesis
    using freeze_touches_only_overdue [of billed_db ?s "days 38" 500] by simp
qed

text \<open>The dunning state of an invoice is the most advanced threshold its due date has passed, so a
  worker that was down says the one thing that is true now; time only ever moves it forward, and a
  settled invoice, an unknown account or a suspended one is met with silence.\<close>

theorem derived_state_most_advanced:
  "derived_state (Some a) i now =
    (if acc_status a = ACCOUNT_SUSPENDED then None
     else if inv_status i \<in> {INVOICE_PAID, INVOICE_VOID, INVOICE_WAIVED, INVOICE_CREDITED} then None
     else if acc_status a = ACCOUNT_RESTRICTED then Some STATE_FROZEN
     else case inv_due_at i of None \<Rightarrow> None
       | Some due \<Rightarrow> Some (
          if now < due - days 3 then STATE_ISSUANCE else if now < due - days 1 then DUE_3
          else if now < due then DUE_1 else if now < due + days 1 then DUE_TODAY
          else if now < due + days 3 then OVERDUE_1 else if now < due + days 6 then OVERDUE_3 else OVERDUE_FINAL)) \<and>
   index_of (tier_state due now) NOTICE_ORDER \<le> index_of (tier_state due (max now later)) NOTICE_ORDER \<and>
   derived_state None i now = None"
  using tier_state_mono [of now "max now later" due]
  by (cases "inv_status i") (simp_all add: derived_state_def tier_state_cases split: option.split)

text \<open>The portal is shown at most one notice, and it is the most urgent: a frozen merchant always gets
  the hold notice; otherwise no invoice of the account has a notice that outranks the one shown, and
  nothing is shown only when no invoice has anything to say.\<close>

theorem one_most_urgent_notice:
  assumes "acc_status acct \<noteq> ACCOUNT_RESTRICTED"
  shows "length (derive_notices s acct now d) \<le> 1 \<and>
    (\<forall>i \<in> set (notice_rows acct d). \<forall>state. derived_state (Some acct) i now = Some state \<longrightarrow>
      (\<exists>n. derive_notices s acct now d = [n] \<and>
        \<not> rank_greater (notice_rank (render_notice s state (Some i) now)) (notice_rank n)))"
proof -
  have some: "fold (pick_notice s acct now) rows best \<noteq> None"
    if "best \<noteq> None \<or> (\<exists>i \<in> set rows. derived_state (Some acct) i now \<noteq> None)" for rows best
    using that
  proof (induction rows arbitrary: best)
    case (Cons i rows)
    have "pick_notice s acct now i best \<noteq> None \<or> (\<exists>i \<in> set rows. derived_state (Some acct) i now \<noteq> None)"
      using Cons.prems by (auto simp: pick_notice_def Let_def split: option.split)
    then show ?case
      using Cons.IH by simp
  qed simp
  show ?thesis
  proof (cases "fold (pick_notice s acct now) (notice_rows acct d) None")
    case None
    then have "derived_state (Some acct) i now = None" if "i \<in> set (notice_rows acct d)" for i
      using some [of None "notice_rows acct d"] that by blast
    with None assms show ?thesis
      by (simp add: derive_notices_def)
  next
    case (Some n)
    with assms show ?thesis
      using pick_notice_best [OF Some] by (simp add: derive_notices_def)
  qed
qed

theorem one_most_urgent_notice_witness:
  "\<exists>n. derive_notices default_settings sample_account (days 31) billed_db = [n] \<and>
    \<not> rank_greater (notice_rank (render_notice default_settings OVERDUE_1 (Some demo_invoice) (days 31))) (notice_rank n)"
proof -
  have "acc_status sample_account \<noteq> ACCOUNT_RESTRICTED" "demo_invoice \<in> set (notice_rows sample_account billed_db)"
    "derived_state (Some sample_account) demo_invoice (days 31) = Some OVERDUE_1"
    by code_simp+
  then show ?thesis
    using one_most_urgent_notice [of sample_account default_settings "days 31" billed_db] by blast
qed

text \<open>Nothing activates until it is paid: asking for a paid plan never puts a subscription in force.
  The request parks one pending subscription with one open invoice for the plan's fee, due at once, and
  what was in force before stays in force, unless the account was frozen, in which case the written-off
  coverage is retired with its debt.\<close>

theorem buying_activates_nothing:
  assumes "billing_inv d" and "change_plan acct wanted now d = Inr ((sub, Some i), d')"
  shows "sub_status sub = SUBSCRIPTION_PENDING \<and> sub \<in> set (plan_subscriptions d') \<and>
    i \<in> set (plan_invoices d') \<and> inv_status i = INVOICE_OPEN \<and> inv_subscription_id i = Some (sub_id sub) \<and>
    inv_due_at i = Some now \<and> inv_total_due_cents i > 0 \<and>
    (acc_status acct \<noteq> ACCOUNT_RESTRICTED \<longrightarrow>
      filter live_sub (plan_subscriptions d') = filter live_sub (plan_subscriptions d)) \<and>
    set (filter live_sub (plan_subscriptions d')) \<subseteq> set (filter live_sub (plan_subscriptions d))"
proof -
  obtain pl old where buy: "buy_plan acct pl old now d = Inr ((sub, Some i), d')"
    and fee: "plan_monthly_fee_cents pl > 0" and pl: "plan_id pl \<in> plan_id ` set (plans d)"
  proof -
    obtain pl where pl: "scalar_one_or_none (filter (\<lambda>p. plan_code p = wanted) (plans d)) = Inr (Some pl)"
      using assms(2) by (auto simp: change_plan_def split: option.splits)
    then obtain old where old: "get_active_sub d (acc_id acct) = Inr old"
      using assms(2) by (auto simp: change_plan_def split: if_splits)
    have "plan_monthly_fee_cents pl > 0 \<and> buy_plan acct pl old now d = Inr ((sub, Some i), d')"
      using assms(2) pl old
      by (cases "plan_monthly_fee_cents pl \<le> 0") (simp_all add: change_plan_def case_prod_beta split: if_splits)
    then show thesis
      using that scalar_one_or_none_mem [OF pl] by blast
  qed
  show ?thesis
    by (rule buy_plan_parks [OF assms(1) pl fee buy])
qed

theorem buying_activates_nothing_witness:
  "\<exists>sub i d'. change_plan sample_account ''pro'' 5
      (shop_db\<lparr>plans := [demo_plan, demo_plan\<lparr>plan_id := 4, plan_code := ''pro''\<rparr>]\<rparr>) = Inr ((sub, Some i), d') \<and>
    sub_status sub = SUBSCRIPTION_PENDING \<and> inv_total_due_cents i > 0"
proof -
  let ?d = "shop_db\<lparr>plans := [demo_plan, demo_plan\<lparr>plan_id := 4, plan_code := ''pro''\<rparr>]\<rparr>"
  let ?r = "projr (change_plan sample_account ''pro'' 5 ?d)"
  have inv: "billing_inv ?d"
    by code_simp
  have r: "change_plan sample_account ''pro'' 5 ?d = Inr ((fst (fst ?r), Some (the (snd (fst ?r)))), snd ?r)"
    by code_simp
  show ?thesis
    using buying_activates_nothing [OF inv r] r by blast
qed

text \<open>A void invoice can still be paid, and paying one whose subscription was canceled by a move to
  another plan, before its grace has run out, charges the merchant for nothing: the invoice becomes
  paid while the subscriptions in force stay exactly as they were.\<close>

theorem paying_void_invoice_grants_nothing:
  assumes "billing_inv d" and "i \<in> set (plan_invoices d)" and "inv_status i = INVOICE_VOID"
    and "inv_subscription_id i = Some sid" and "tget sub_id sid (plan_subscriptions d) = Some sub"
    and "sub_status sub = SUB_CANCELED" and "\<not> lapsed s i paid_at"
    and "window_free (mark_invoice_paid paid_at now i) d"
  shows "\<exists>d'. settle_invoice s i pid paid_at now source d = Inr (True, d') \<and>
    tget inv_id (inv_id i) (plan_invoices d') = Some (mark_invoice_paid paid_at now i) \<and>
    filter live_sub (plan_subscriptions d') = filter live_sub (plan_subscriptions d)"
proof -
  let ?d1 = "mod_invoice (inv_id i) (mark_invoice_paid paid_at now) d"
  have unpaid: "inv_status i \<noteq> INVOICE_PAID"
    using assms(3) by simp
  have sid: "sub_id sub = sid" "sub \<in> set (plan_subscriptions d)"
    using assms(5) tget_Some [OF billing_invD(2) [OF assms(1)]] by auto
  have act: "activate_subscription sid now ?d1 = ?d1"
    using assms(5,6) by (simp add: activate_subscription_def)
  obtain d' where d': "settle_invoice s i pid paid_at now source d = Inr (True, d')"
    "plan_subscriptions d' = plan_subscriptions (extend_coverage i now ?d1)"
    "plan_invoices d' = plan_invoices ?d1"
    using settle_invoice_subs [OF unpaid assms(4,5,7,8), of pid source] sid act by auto
  have "\<not> live_sub x" if "x \<in> set (plan_subscriptions d)" "sub_id x = sid" for x
    using rows.rows_eq [OF billing_invD(2) [OF assms(1)] that(1) sid(2)] sid(1) that(2) assms(6)
    by (auto simp: live_sub_def)
  then have "filter live_sub (tupd sub_id sid (\<lambda>sub. sub\<lparr>sub_next_billing_at := e, sub_updated_at := now\<rparr>) xs) =
      filter live_sub xs" if "set xs \<subseteq> set (plan_subscriptions d)" for e xs
    using that by (induction xs) (auto simp: tupd_def live_sub_def)
  then have "filter live_sub (plan_subscriptions d') = filter live_sub (plan_subscriptions d)"
    by (simp add: d'(2) extend_coverage_def mod_sub_def assms(4) split: option.split)
  moreover have "tget inv_id (inv_id i) (plan_invoices d) = Some i"
    using assms(2) tget_Some [OF billing_invD(3) [OF assms(1)]] by simp
  then have "tget inv_id (inv_id i) (plan_invoices d') = Some (mark_invoice_paid paid_at now i)"
    using tget_tupd [OF billing_invD(3) [OF assms(1)], of "mark_invoice_paid paid_at now"] by (simp add: d' mod_invoice_def)
  ultimately show ?thesis
    using d'(1) by blast
qed

text \<open>The situation arises from the program's own steps: a renewal invoice, a move to the free plan.\<close>

theorem paying_void_invoice_grants_nothing_witness:
  "\<exists>i d'. settle_invoice default_settings i (Some 21) (days 29) (days 29) ''khqr''
      (snd (projr (change_plan sample_account ''free'' (days 28)
        (billed_db\<lparr>plans := [demo_plan, demo_plan\<lparr>plan_id := 1, plan_code := ''free'', plan_monthly_fee_cents := 0\<rparr>]\<rparr>)))) =
      Inr (True, d') \<and> inv_total_due_cents i = 500 \<and>
    tget inv_id 31 (plan_invoices d') = Some (mark_invoice_paid (days 29) (days 29) i) \<and>
    map sub_plan_id (filter live_sub (plan_subscriptions d')) = [1]"
proof -
  let ?d0 = "billed_db\<lparr>plans := [demo_plan, demo_plan\<lparr>plan_id := 1, plan_code := ''free'', plan_monthly_fee_cents := 0\<rparr>]\<rparr>"
  let ?d = "snd (projr (change_plan sample_account ''free'' (days 28) ?d0))"
  let ?i = "hd (plan_invoices ?d)"
  have h: "billing_inv ?d" "?i \<in> set (plan_invoices ?d)" "inv_status ?i = INVOICE_VOID" "inv_subscription_id ?i = Some 9"
    "tget sub_id 9 (plan_subscriptions ?d) = Some (hd (plan_subscriptions ?d))"
    "sub_status (hd (plan_subscriptions ?d)) = SUB_CANCELED" "\<not> lapsed default_settings ?i (days 29)"
    "window_free (mark_invoice_paid (days 29) (days 29) ?i) ?d"
    by code_simp+
  have "inv_id ?i = 31" "inv_total_due_cents ?i = 500" "map sub_plan_id (filter live_sub (plan_subscriptions ?d)) = [1]"
    by code_simp+
  with paying_void_invoice_grants_nothing [OF h, of "Some 21" "''khqr''"] show ?thesis
    by metis
qed

end
