(* ===== verification/Payments.thy ===== *)
theory Payments
  imports Billing Webhooks
begin

text \<open>
  Payment operations (\<^verbatim>\<open>src/src/chmabapay/services/payments.py\<close>): minting a code, creating and
  reissuing payments, the status transitions with their webhooks, the usage ledger, the plan quota
  and the expiry sweep.

  One \<open>now\<close> per operation is the clock; a settlement takes the second reading
  it dates the approval with, \<open>approved\<close>, beside it.  The rest of the outside world is the record \<open>rail\<close> (ABA's
  hosted checkout and MD5), the generated public id, and \<open>eid\<close>, the ids of the events one operation
  writes, by payment: no operation writes two events for one payment.  Log lines, metrics and the
  activity feed are output only and left out; the double-charge alert is the second result of
  \<open>mark_paid\<close>.  A missing store row, which the foreign key excludes, is an \<^verbatim>\<open>AttributeError\<close>.
\<close>

section \<open>Queries and guards\<close>

definition MAX_OFFSET :: int where
  "MAX_OFFSET = 1000000"

definition SYNTHETIC_REFERENCE_PREFIX :: string where
  "SYNTHETIC_REFERENCE_PREFIX = ''health-smoke:''"

definition clamp_offset :: "int \<Rightarrow> int" where
  "clamp_offset offset = max 0 (min offset MAX_OFFSET)"

definition starts_with :: "string \<Rightarrow> string \<Rightarrow> bool" where
  "starts_with p s \<longleftrightarrow> take (length p) s = p"

definition is_synthetic :: "string option \<Rightarrow> json option \<Rightarrow> bool" where
  "is_synthetic reference_id metadata \<longleftrightarrow>
     (case reference_id of None \<Rightarrow> False
      | Some r \<Rightarrow> r \<noteq> [] \<and> starts_with SYNTHETIC_REFERENCE_PREFIX (py_lower (py_strip r))) \<or>
     (case metadata of None \<Rightarrow> False
      | Some m \<Rightarrow> json_truthy m \<and> json_get m ''synthetic'' = Some (JBool True))"

definition refuse_synthetic_on_merchant_store :: "store \<Rightarrow> string option \<Rightarrow> json option \<Rightarrow> unit result" where
  "refuse_synthetic_on_merchant_store st reference_id metadata =
     guard (st_is_internal st \<or> \<not> is_synthetic reference_id metadata)
       (HTTPException 400 ''synthetic_payment_requires_internal_store'')"

text \<open>The row filter of \<open>without_synthetic_payments\<close>.\<close>

definition not_synthetic_row :: "payment \<Rightarrow> bool" where
  "not_synthetic_row p =
     (case pay_reference_id p of None \<Rightarrow> True
      | Some r \<Rightarrow> \<not> starts_with SYNTHETIC_REFERENCE_PREFIX (py_lower r))"

definition is_payway_link :: "payment_link \<Rightarrow> bool" where
  "is_payway_link l \<longleftrightarrow> lk_type l = LINK_ABA_PAYWAY \<and> py_contains ''link.payway.com.kh'' (lk_raw_link l)"

definition load_store_by_public :: "db \<Rightarrow> int \<Rightarrow> string \<Rightarrow> store result" where
  "load_store_by_public d account_id store_public_id =
     rbind (scalar_one_or_none (filter (\<lambda>st. st_account_id st = account_id \<and> st_public_id st = store_public_id) (stores d)))
       (\<lambda>r. case r of None \<Rightarrow> Inl (HTTPException 404 ''store_not_found'') | Some st \<Rightarrow> Inr st)"

definition load_active_link :: "db \<Rightarrow> int \<Rightarrow> string option \<Rightarrow> payment_link result" where
  "load_active_link d store_id currency =
     (let links = sort_key lk_id (filter (\<lambda>l. lk_store_id l = store_id \<and> lk_status l = LINK_ACTIVE) (payment_links d)) in
      if or_str currency [] \<noteq> [] then
        rbind (scalar_one_or_none (filter (\<lambda>l. lk_currency l = normalize_currency currency) links)) (\<lambda>r.
          case r of None \<Rightarrow> Inl (HTTPException 400 ''currency_not_configured'') | Some l \<Rightarrow> Inr l)
      else case links of
        [] \<Rightarrow> Inl (HTTPException 400 ''payment_link_disabled'')
      | l # _ \<Rightarrow> (case find (\<lambda>x. normalize_currency (Some (lk_currency x)) = ''USD'') links of
            None \<Rightarrow> Inr l | Some u \<Rightarrow> Inr u))"

section \<open>Minting a code\<close>

record hosted_checkout =
  hc_qr_string :: string
  hc_client_id :: string
  hc_token :: string
  hc_request_time :: string
  hc_tran_id :: "string option"
  hc_expires_in_seconds :: "int option"

text \<open>The answer of \<open>create_hosted_checkout\<close>: a session, ABA's refusal with its text, or an exception
  the callers do not handle.\<close>

datatype hosted_answer = Hosted_session hosted_checkout | PayWayHostedError string | Hosted_raised exc

record rail =
  rl_hosted :: "string \<Rightarrow> string \<Rightarrow> hosted_answer"
  rl_md5 :: "bytes \<Rightarrow> string"

record minted =
  mq_qr_string :: string
  mq_qr_md5 :: string
  mq_expires_at :: instant
  mq_hosted :: "json option"

definition hosted_session_json :: "hosted_checkout \<Rightarrow> json" where
  "hosted_session_json c = JObj
     [(''client_id'', JStr (hc_client_id c)), (''token'', JStr (hc_token c)),
      (''request_time'', JStr (hc_request_time c)), (''tran_id'', json_opt_str (hc_tran_id c)),
      (''expires_in_seconds'', case hc_expires_in_seconds c of None \<Rightarrow> JNull | Some n \<Rightarrow> JInt n),
      (''qr_string'', JStr (hc_qr_string c))]"

definition mint_qr ::
  "settings \<Rightarrow> rail \<Rightarrow> store \<Rightarrow> payment_link \<Rightarrow> int \<Rightarrow> string \<Rightarrow> instant \<Rightarrow> string option \<Rightarrow> bool option \<Rightarrow> minted result"
where
  "mint_qr s rl st link amount_cents public_id now currency hosted_qr =
     (let cur = normalize_currency (Some (or_str currency (lk_currency link)));
          expires_at = now + seconds (checkout_ttl_seconds s);
          use_hosted = (case hosted_qr of None \<Rightarrow> is_payway_link link | Some b \<Rightarrow> b)
      in if use_hosted then
           if \<not> is_payway_link link then Inl (HTTPException 400 ''not_a_payway_link'')
           else if cur \<noteq> normalize_currency (Some (lk_currency link))
             then Inl (HTTPException 400 ''currency_not_supported_by_hosted_checkout'')
           else (case rl_hosted rl (lk_raw_link link) (money_to_str amount_cents (Some cur)) of
               Hosted_raised e \<Rightarrow> Inl e
             | PayWayHostedError msg \<Rightarrow> Inl (HTTPException 502 (''payway_hosted_error: '' @ msg))
             | Hosted_session c \<Rightarrow> Inr \<lparr>mq_qr_string = hc_qr_string c,
                 mq_qr_md5 = rl_md5 rl (py_encode (hc_qr_string c)),
                 mq_expires_at = now + seconds (case hc_expires_in_seconds c of
                     None \<Rightarrow> checkout_ttl_seconds s
                   | Some n \<Rightarrow> if n = 0 then checkout_ttl_seconds s else n),
                 mq_hosted = Some (hosted_session_json c)\<rparr>)
         else rbind (build_khqr_payload st link amount_cents public_id expires_at (Some cur) now) (\<lambda>qr.
           Inr \<lparr>mq_qr_string = qr, mq_qr_md5 = rl_md5 rl (py_encode qr), mq_expires_at = expires_at,
                mq_hosted = None\<rparr>))"

definition refuse_unusable_store :: "store \<Rightarrow> unit result" where
  "refuse_unusable_store st =
     (if st_status st = STORE_DISABLED then Inl (HTTPException 400 ''store_disabled'')
      else if st_billing_suspended_at st \<noteq> None then Inl (HTTPException 400 ''store_billing_suspended'')
      else Inr ())"

section \<open>Creating payments\<close>

text \<open>\<open>session.add(payment)\<close> and the flush: the unique index on the public id and the one on the store's
  idempotency keys (in which a \<^verbatim>\<open>NULL\<close> key has no entry) refuse a collision.\<close>

definition idem_key :: "payment \<Rightarrow> (int \<times> string) option" where
  "idem_key p = map_option (Pair (pay_store_id p)) (pay_idempotency_key p)"

definition add_payment :: "payment \<Rightarrow> db \<Rightarrow> db result" where
  "add_payment p d =
     (if pay_public_id p \<in> pay_public_id ` set (payments d) \<or> \<not> unclaimed idem_key (idem_key p) (payments d)
      then Inl (RuntimeError ''IntegrityError'')
      else Inr (d\<lparr>payments := tadd p (payments d)\<rparr>))"

definition new_payment ::
  "int \<Rightarrow> int \<Rightarrow> int \<Rightarrow> string \<Rightarrow> string option \<Rightarrow> json option \<Rightarrow> string option \<Rightarrow> string \<Rightarrow> minted \<Rightarrow>
     int option \<Rightarrow> instant \<Rightarrow> db \<Rightarrow> payment"
where
  "new_payment store_id link_id amount_cents currency reference_id metadata idempotency_key public_id m parent now d =
     \<lparr>pay_id = fresh_id pay_id (payments d), pay_public_id = public_id, pay_store_id = store_id,
      pay_link_id = link_id, pay_amount_cents = amount_cents, pay_currency = currency,
      pay_reference_id = reference_id, pay_metadata = metadata, pay_idempotency_key = idempotency_key,
      pay_status = PAYMENT_PENDING, pay_qr_string = mq_qr_string m, pay_qr_md5 = Some (mq_qr_md5 m),
      pay_bill_number = public_id, pay_expires_at = mq_expires_at m, pay_scanned_at = None,
      pay_paid_at = None, pay_approved_at = None, pay_bakong_ref = None,
      pay_detection_closed_at = None, pay_reversed_at = None, pay_reversal_reason = None,
      pay_gateway_status_raw = map_option (\<lambda>h. JObj [(''payway_hosted'', h)]) (mq_hosted m),
      pay_attempt_history = None, pay_reissued_from_id = parent, pay_created_at = now\<rparr>"

definition find_idempotent :: "db \<Rightarrow> int \<Rightarrow> string option \<Rightarrow> payment option result" where
  "find_idempotent d store_id idempotency_key =
     (if or_str idempotency_key [] = [] then Inr None
      else scalar_one_or_none (filter (\<lambda>p. pay_store_id p = store_id \<and> pay_idempotency_key p = idempotency_key) (payments d)))"

definition check_amount :: "payment_link \<Rightarrow> int \<Rightarrow> unit result" where
  "check_amount link amount_cents =
     (if amount_cents < 1 then Inl (HTTPException 400 ''amount_too_low'')
      else if lk_min_amount_cents link \<noteq> 0 \<and> amount_cents < lk_min_amount_cents link
        then Inl (HTTPException 400 ''amount_too_low'')
      else if (case lk_max_amount_cents link of None \<Rightarrow> False | Some m \<Rightarrow> m \<noteq> 0 \<and> amount_cents > m)
        then Inl (HTTPException 400 ''amount_too_high'')
      else Inr ())"

definition create_payment ::
  "settings \<Rightarrow> rail \<Rightarrow> store \<Rightarrow> int \<Rightarrow> string option \<Rightarrow> json option \<Rightarrow> string option \<Rightarrow> string option \<Rightarrow> bool option \<Rightarrow>
     string \<Rightarrow> instant \<Rightarrow> db \<Rightarrow> ((payment \<times> bool) \<times> db) result"
where
  "create_payment s rl st amount_cents reference_id metadata idempotency_key currency hosted_qr public_id now d =
     rbind (refuse_unusable_store st) (\<lambda>_.
     rbind (refuse_synthetic_on_merchant_store st reference_id metadata) (\<lambda>_.
     rbind (load_active_link d (st_id st) currency) (\<lambda>link.
     let cur = normalize_currency (Some (lk_currency link)) in
     rbind (guard (\<not> (cur = ''KHR'' \<and> amount_cents mod 100 \<noteq> 0)) (HTTPException 400 ''khr_amount_must_be_whole'')) (\<lambda>_.
     rbind (find_idempotent d (st_id st) idempotency_key) (\<lambda>existing.
     case existing of
       Some p \<Rightarrow> Inr ((p, False), d)
     | None \<Rightarrow>
       rbind (check_amount link amount_cents) (\<lambda>_.
       rbind (mint_qr s rl st link amount_cents public_id now (Some cur) hosted_qr) (\<lambda>m.
       let p = new_payment (st_id st) (lk_id link) amount_cents cur reference_id metadata idempotency_key
                 public_id m None now d
       in rbind (add_payment p d) (\<lambda>d'. Inr ((p, True), d')))))))))"

record probe_qr =
  pq_store :: store
  pq_link :: payment_link
  pq_amount_cents :: int
  pq_qr_md5 :: string
  pq_expires_at :: instant
  pq_hosted :: bool

definition probe_amount :: "payment_link \<Rightarrow> int \<Rightarrow> int result" where
  "probe_amount link amount_cents =
     (if amount_cents < 1 then Inl (HTTPException 400 ''amount_too_low'')
      else let a1 = (if normalize_currency (Some (lk_currency link)) = ''KHR'' \<and> amount_cents mod 100 \<noteq> 0
                     then (amount_cents div 100 + 1) * 100 else amount_cents);
               a2 = (if lk_min_amount_cents link \<noteq> 0 \<and> a1 < lk_min_amount_cents link
                     then lk_min_amount_cents link else a1)
           in if (case lk_max_amount_cents link of None \<Rightarrow> False | Some m \<Rightarrow> m \<noteq> 0 \<and> a2 > m)
              then Inl (HTTPException 400 ''amount_too_high'') else Inr a2)"

definition probe_internal_qr ::
  "settings \<Rightarrow> rail \<Rightarrow> int \<Rightarrow> string option \<Rightarrow> bool \<Rightarrow> string \<Rightarrow> instant \<Rightarrow> db \<Rightarrow> probe_qr result"
where
  "probe_internal_qr s rl amount_cents currency hosted_qr token now d =
     rbind (resolve_hq_store s d) (\<lambda>(hq, _).
     case hq of
       None \<Rightarrow> Inl (HTTPException 503 ''internal_probe_store_not_configured'')
     | Some st \<Rightarrow>
       rbind (guard (st_is_internal st) (HTTPException 503 ''internal_probe_store_not_internal'')) (\<lambda>_.
       rbind (guard (st_status st = STORE_ACTIVE) (HTTPException 409 ''internal_probe_store_not_active'')) (\<lambda>_.
       rbind (refuse_unusable_store st) (\<lambda>_.
       rbind (load_active_link d (st_id st) currency) (\<lambda>link.
       rbind (probe_amount link amount_cents) (\<lambda>a.
       rbind (mint_qr s rl st link a (''probe_'' @ token) now
           (Some (normalize_currency (Some (lk_currency link)))) (Some hosted_qr)) (\<lambda>m.
       Inr \<lparr>pq_store = st, pq_link = link, pq_amount_cents = a, pq_qr_md5 = mq_qr_md5 m,
            pq_expires_at = mq_expires_at m, pq_hosted = (mq_hosted m \<noteq> None)\<rparr>)))))))"


section \<open>Reissuing a dead payment\<close>

definition mod_payment :: "int \<Rightarrow> (payment \<Rightarrow> payment) \<Rightarrow> db \<Rightarrow> db" where
  "mod_payment i f d = d\<lparr>payments := tupd pay_id i f (payments d)\<rparr>"

definition open_payment :: "payment \<Rightarrow> bool" where
  "open_payment p \<longleftrightarrow> pay_status p = PAYMENT_PENDING \<or> pay_status p = PAYMENT_SCANNED"

definition reissuable :: "payment \<Rightarrow> unit result" where
  "reissuable parent =
     (if pay_status parent = PAYMENT_PAID then Inl (HTTPException 409 ''payment_already_paid'')
      else if pay_status parent = PAYMENT_REVERSED then Inl (HTTPException 409 ''payment_reversed'')
      else if pay_status parent \<notin> {PAYMENT_EXPIRED, PAYMENT_FAILED} then Inl (HTTPException 409 ''payment_not_expired'')
      else Inr ())"

definition live_successor :: "db \<Rightarrow> payment \<Rightarrow> instant \<Rightarrow> payment option" where
  "live_successor d parent now =
     (case rev (sort_key pay_id (filter (\<lambda>p. pay_reissued_from_id p = Some (pay_id parent) \<and> open_payment p) (payments d))) of
        [] \<Rightarrow> None
      | p # _ \<Rightarrow> if pay_expires_at p > now then Some p else None)"

text \<open>\<open>bool((gateway_status_raw or {}).get("payway_hosted"))\<close>.\<close>

definition was_hosted :: "payment \<Rightarrow> bool" where
  "was_hosted p =
     (case pay_gateway_status_raw p of None \<Rightarrow> False
      | Some raw \<Rightarrow> (case json_get raw ''payway_hosted'' of None \<Rightarrow> False | Some h \<Rightarrow> json_truthy h))"

definition add_attempt :: "json \<Rightarrow> payment \<Rightarrow> payment" where
  "add_attempt entry p =
     p\<lparr>pay_attempt_history := Some ((case pay_attempt_history p of None \<Rightarrow> [] | Some h \<Rightarrow> h) @ [entry])\<rparr>"

definition reissue_payment ::
  "settings \<Rightarrow> rail \<Rightarrow> payment \<Rightarrow> string \<Rightarrow> instant \<Rightarrow> db \<Rightarrow> ((payment \<times> bool) \<times> db) result"
where
  "reissue_payment s rl parent public_id now d =
     rbind (reissuable parent) (\<lambda>_.
     case live_successor d parent now of
       Some p \<Rightarrow> Inr ((p, False), d)
     | None \<Rightarrow>
       (case tget st_id (pay_store_id parent) (stores d) of
          None \<Rightarrow> Inl (HTTPException 400 ''store_disabled'')
        | Some st \<Rightarrow>
          rbind (refuse_unusable_store st) (\<lambda>_.
          rbind (refuse_synthetic_on_merchant_store st (pay_reference_id parent) (pay_metadata parent)) (\<lambda>_.
          case tget lk_id (pay_link_id parent) (payment_links d) of
            None \<Rightarrow> Inl (HTTPException 400 ''payment_link_missing'')
          | Some link \<Rightarrow>
            rbind (mint_qr s rl st link (pay_amount_cents parent) public_id now (Some (pay_currency parent))
                (Some (was_hosted parent))) (\<lambda>m.
            let succ = new_payment (pay_store_id parent) (pay_link_id parent) (pay_amount_cents parent)
                  (pay_currency parent) (pay_reference_id parent) (pay_metadata parent) None public_id m
                  (Some (pay_id parent)) now d;
                d1 = mod_payment (pay_id parent) (add_attempt (JObj [(''type'', JStr ''reissued''),
                  (''successor'', JStr public_id), (''at'', JInt now)])) d
            in rbind (add_payment succ d1) (\<lambda>d2. Inr ((succ, True), d2)))))))"

section \<open>Reading payments\<close>

fun status_value :: "payment_status \<Rightarrow> string" where
  "status_value PAYMENT_PENDING = ''pending''"
| "status_value PAYMENT_SCANNED = ''scanned''"
| "status_value PAYMENT_PAID = ''paid''"
| "status_value PAYMENT_EXPIRED = ''expired''"
| "status_value PAYMENT_FAILED = ''failed''"
| "status_value PAYMENT_SUPERSEDED = ''superseded''"
| "status_value PAYMENT_REVERSED = ''reversed''"

definition get_payment_for_store :: "db \<Rightarrow> string \<Rightarrow> int option \<Rightarrow> payment result" where
  "get_payment_for_store d public_id store_id =
     rbind (scalar_one_or_none (filter (\<lambda>p. pay_public_id p = public_id \<and>
         (case store_id of None \<Rightarrow> True | Some i \<Rightarrow> pay_store_id p = i)) (payments d)))
       (\<lambda>r. case r of None \<Rightarrow> Inl (HTTPException 404 ''payment_not_found'') | Some p \<Rightarrow> Inr p)"

definition page :: "int \<Rightarrow> int \<Rightarrow> 'a list \<Rightarrow> 'a list" where
  "page lim offset rows = limit (max 1 (min lim 100)) (drop (nat (clamp_offset offset)) rows)"

definition status_matches :: "string option \<Rightarrow> payment \<Rightarrow> bool" where
  "status_matches wanted p \<longleftrightarrow> or_str wanted [] = [] \<or> status_value (pay_status p) = or_str wanted []"

definition list_payments :: "db \<Rightarrow> int \<Rightarrow> string option \<Rightarrow> int \<Rightarrow> int \<Rightarrow> payment list" where
  "list_payments d store_id status lim offset =
     page lim offset (rev (sort_key pay_id
       (filter (\<lambda>p. pay_store_id p = store_id \<and> not_synthetic_row p \<and> status_matches status p) (payments d))))"

definition list_payments_for_account :: "db \<Rightarrow> int \<Rightarrow> string option \<Rightarrow> int \<Rightarrow> int \<Rightarrow> (payment \<times> store) list" where
  "list_payments_for_account d account_id status lim offset =
     page lim offset (rev (sort_key (\<lambda>r. pay_id (fst r))
       [(p, st). p \<leftarrow> payments d, st \<leftarrow> stores d, st_id st = pay_store_id p \<and> st_account_id st = account_id \<and>
          not_synthetic_row p \<and> status_matches status p]))"

section \<open>The plan quota\<close>

definition quota_deferred_until :: "db \<Rightarrow> int \<Rightarrow> instant \<Rightarrow> instant option" where
  "quota_deferred_until d account_id now =
     (if \<exists>sub \<in> set (plan_subscriptions d). \<exists>pl \<in> set (plans d).
           plan_id pl = sub_plan_id sub \<and> sub_account_id sub = account_id \<and> sub_status sub = SUB_CANCELED \<and>
           plan_monthly_fee_cents pl > 0 \<and>
           (case sub_canceled_at sub of None \<Rightarrow> False | Some t \<Rightarrow> t \<ge> month_start now)
      then Some (next_month_start now) else None)"

definition downgraded_this_month :: "db \<Rightarrow> int \<Rightarrow> instant \<Rightarrow> bool" where
  "downgraded_this_month d account_id now \<longleftrightarrow> quota_deferred_until d account_id now \<noteq> None"

definition count_paid_payments_this_month :: "db \<Rightarrow> int \<Rightarrow> instant \<Rightarrow> int" where
  "count_paid_payments_this_month d account_id now =
     int (length [p. p \<leftarrow> payments d, st \<leftarrow> stores d, st_id st = pay_store_id p \<and>
       st_account_id st = account_id \<and> \<not> st_is_internal st \<and> pay_status p = PAYMENT_PAID \<and>
       (case pay_paid_at p of None \<Rightarrow> False | Some t \<Rightarrow> t \<ge> month_start now)])"

definition check_plan_quota :: "db \<Rightarrow> account \<Rightarrow> string \<Rightarrow> instant \<Rightarrow> unit result" where
  "check_plan_quota d acct mode now =
     (if mode \<noteq> ''live'' then Inr ()
      else rbind (scalar_one_or_none [plan_base_payments_included pl. sub \<leftarrow> plan_subscriptions d, pl \<leftarrow> plans d,
          sub_plan_id sub = plan_id pl \<and> sub_account_id sub = acc_id acct \<and> live_sub sub]) (\<lambda>inc.
        let included = (case inc of None \<Rightarrow> 3000 | Some n \<Rightarrow> n) in
        guard (\<not> (count_paid_payments_this_month d (acc_id acct) now \<ge> included \<and>
                  \<not> downgraded_this_month d (acc_id acct) now))
          (HTTPException 402 ''quota_exceeded'')))"

section \<open>Status transitions\<close>

definition store_of :: "payment \<Rightarrow> db \<Rightarrow> store result" where
  "store_of p d =
     (case tget st_id (pay_store_id p) (stores d) of
        None \<Rightarrow> Inl (RuntimeError ''AttributeError'') | Some st \<Rightarrow> Inr st)"

definition mark_scanned :: "int \<Rightarrow> (int \<Rightarrow> string) \<Rightarrow> instant \<Rightarrow> db \<Rightarrow> db result" where
  "mark_scanned payment_id eid now d =
     (case tget pay_id payment_id (payments d) of
        None \<Rightarrow> Inr d
      | Some p \<Rightarrow>
          if pay_status p \<noteq> PAYMENT_PENDING then Inr d
          else let p' = p\<lparr>pay_status := PAYMENT_SCANNED, pay_scanned_at := Some now\<rparr>;
                   d1 = mod_payment payment_id (\<lambda>p. p\<lparr>pay_status := PAYMENT_SCANNED, pay_scanned_at := Some now\<rparr>) d
               in rbind (store_of p' d1) (\<lambda>st.
                    Inr (enqueue_event (eid payment_id) now p' st EVENT_SCANNED d1)))"

text \<open>The bookkeeping of a test-mode key, called by the routers on a payment they have just created.\<close>

definition test_mode_bypass :: "string option \<Rightarrow> instant \<Rightarrow> payment \<Rightarrow> payment" where
  "test_mode_bypass key_mode now p =
     (if key_mode = Some ''test''
      then add_attempt (JObj [(''type'', JStr ''test_mode_bypass_hook''), (''api_key_mode'', JStr ''test''),
             (''at'', JInt now)]) p
      else p)"

definition ledger_key :: "plan_ledger_entry \<Rightarrow> string \<times> ledger_resource \<times> string" where
  "ledger_key e = (led_period_month e, led_resource_type e, led_resource_id e)"

definition ledger_entry :: "int \<Rightarrow> payment \<Rightarrow> bool \<Rightarrow> instant \<Rightarrow> plan_ledger_entry" where
  "ledger_entry account_id p reversal now =
     (let amount = (if reversal then - pay_amount_cents p else pay_amount_cents p)
      in \<lparr>led_account_id = account_id, led_period_month = period_month_for now,
          led_resource_type = (if reversal then LEDGER_PAYMENT_REVERSAL else LEDGER_PAYMENT),
          led_resource_id = pay_public_id p, led_amount_cents_delta = amount,
          led_total_payments_count = (if reversal then - 1 else 1), led_total_volume_cents = amount,
          led_created_at = now\<rparr>)"

definition record_plan_ledger_entry :: "int \<Rightarrow> payment \<Rightarrow> bool \<Rightarrow> instant \<Rightarrow> db \<Rightarrow> db" where
  "record_plan_ledger_entry account_id p reversal now d =
     (let e = ledger_entry account_id p reversal now in
      if ledger_key e \<in> ledger_key ` set (plan_ledger_entries d) then d
      else d\<lparr>plan_ledger_entries := tadd e (plan_ledger_entries d)\<rparr>)"

definition retirable_successor :: "int \<Rightarrow> payment \<Rightarrow> bool" where
  "retirable_successor parent p \<longleftrightarrow> pay_reissued_from_id p = Some parent \<and>
     pay_status p \<in> {PAYMENT_PENDING, PAYMENT_SCANNED, PAYMENT_EXPIRED}"

definition set_status :: "payment_status \<Rightarrow> payment \<Rightarrow> payment" where
  "set_status st p = p\<lparr>pay_status := st\<rparr>"

definition retire_successor :: "store \<Rightarrow> (int \<Rightarrow> string) \<Rightarrow> instant \<Rightarrow> payment \<Rightarrow> db \<Rightarrow> db" where
  "retire_successor st eid now p d =
     enqueue_event (eid (pay_id p)) now (set_status PAYMENT_SUPERSEDED p) st EVENT_SUPERSEDED
       (mod_payment (pay_id p) (set_status PAYMENT_SUPERSEDED) d)"

definition retire_successors :: "payment \<Rightarrow> store \<Rightarrow> (int \<Rightarrow> string) \<Rightarrow> instant \<Rightarrow> db \<Rightarrow> db" where
  "retire_successors p st eid now d =
     fold (retire_successor st eid now) (filter (retirable_successor (pay_id p)) (payments d)) d"

definition find_double_charge :: "db \<Rightarrow> payment \<Rightarrow> payment option" where
  "find_double_charge d p =
     (if or_str (pay_reference_id p) [] = [] then None
      else case sort_key pay_id (filter (\<lambda>q. pay_store_id q = pay_store_id p \<and>
            pay_reference_id q = pay_reference_id p \<and> pay_status q = PAYMENT_PAID \<and> pay_id q \<noteq> pay_id p) (payments d)) of
          [] \<Rightarrow> None | q # _ \<Rightarrow> Some q)"

definition paid_row :: "string option \<Rightarrow> json option \<Rightarrow> instant \<Rightarrow> instant \<Rightarrow> payment \<Rightarrow> payment" where
  "paid_row bakong_ref gateway_raw now approved p =
     p\<lparr>pay_status := PAYMENT_PAID, pay_paid_at := Some now, pay_approved_at := Some approved,
       pay_bakong_ref := bakong_ref, pay_gateway_status_raw := gateway_raw\<rparr>"

definition settleable :: "payment_status \<Rightarrow> bool" where
  "settleable st \<longleftrightarrow> st \<notin> {PAYMENT_PAID, PAYMENT_FAILED, PAYMENT_REVERSED}"

text \<open>The result is \<open>None\<close> when there is nothing to settle, and otherwise the settled row with the other
  settled payment of the sale the operators are alerted about.\<close>

definition mark_paid ::
  "settings \<Rightarrow> string \<Rightarrow> string option \<Rightarrow> json option \<Rightarrow> (int \<Rightarrow> string) \<Rightarrow> instant \<Rightarrow> instant \<Rightarrow> db \<Rightarrow>
     ((payment \<times> payment option) option \<times> db) result"
where
  "mark_paid s public_id bakong_ref gateway_raw eid now approved d =
     rbind (scalar_one_or_none (filter (\<lambda>p. pay_public_id p = public_id) (payments d))) (\<lambda>found.
     case found of
       None \<Rightarrow> Inr (None, d)
     | Some p \<Rightarrow>
       if \<not> settleable (pay_status p) then Inr (None, d)
       else let p' = paid_row bakong_ref gateway_raw now approved p;
                d1 = mod_payment (pay_id p) (paid_row bakong_ref gateway_raw now approved) d
            in rbind (store_of p' d1) (\<lambda>st.
               let d2 = (if st_is_internal st then d1
                         else record_plan_ledger_entry (st_account_id st) p' False now d1)
               in rbind (settle_invoice_for_payment s (pay_id p) now now d2) (\<lambda>(_, d3).
                  let d4 = retire_successors p' st eid now d3;
                      d5 = enqueue_event (eid (pay_id p)) now p' st EVENT_COMPLETED d4
                  in Inr (Some (p', find_double_charge d5 p'), d5))))"

definition reversed_row :: "string option \<Rightarrow> instant \<Rightarrow> payment \<Rightarrow> payment" where
  "reversed_row reason now p =
     (let cleaned = take 255 (py_strip (or_str reason [])) in
      p\<lparr>pay_status := PAYMENT_REVERSED, pay_reversed_at := Some now,
        pay_reversal_reason := (if cleaned = [] then None else Some cleaned)\<rparr>)"

definition reverse_payment ::
  "payment \<Rightarrow> string option \<Rightarrow> (int \<Rightarrow> string) \<Rightarrow> instant \<Rightarrow> db \<Rightarrow> (payment \<times> db) result"
where
  "reverse_payment p reason eid now d =
     (if pay_status p = PAYMENT_REVERSED then Inl (HTTPException 409 ''payment_already_reversed'')
      else if pay_status p \<noteq> PAYMENT_PAID then Inl (HTTPException 409 ''payment_not_paid'')
      else let p' = reversed_row reason now p;
               d1 = mod_payment (pay_id p) (reversed_row reason now) d
           in rbind (store_of p' d1) (\<lambda>st.
                let d2 = record_plan_ledger_entry (st_account_id st) p' True now d1
                in Inr (p', enqueue_event (eid (pay_id p)) now p' st EVENT_REVERSED d2)))"

section \<open>The expiry sweep\<close>

definition expiry_due :: "instant \<Rightarrow> payment \<Rightarrow> bool" where
  "expiry_due now p \<longleftrightarrow> open_payment p \<and> pay_expires_at p \<le> now"

definition due_payments :: "instant \<Rightarrow> db \<Rightarrow> payment list" where
  "due_payments now d = limit 200 (sort_key pay_id (filter (expiry_due now) (payments d)))"

fun expire_loop :: "(int \<Rightarrow> string) \<Rightarrow> instant \<Rightarrow> payment list \<Rightarrow> db \<Rightarrow> db result" where
  "expire_loop eid now [] d = Inr d"
| "expire_loop eid now (p # rest) d =
     (let p' = set_status PAYMENT_EXPIRED p;
          d1 = mod_payment (pay_id p) (set_status PAYMENT_EXPIRED) d
      in if is_synthetic (pay_reference_id p) (pay_metadata p) then expire_loop eid now rest d1
         else rbind (store_of p' d1) (\<lambda>st.
                expire_loop eid now rest (enqueue_event (eid (pay_id p)) now p' st EVENT_EXPIRED d1)))"

definition expire_due_payments :: "(int \<Rightarrow> string) \<Rightarrow> instant \<Rightarrow> db \<Rightarrow> (payment list \<times> db) result" where
  "expire_due_payments eid now d =
     (let due = due_payments now d
      in rbind (expire_loop eid now due d) (\<lambda>d'. Inr (map (set_status PAYMENT_EXPIRED) due, d')))"


section \<open>Vocabulary of the statements\<close>

text \<open>The tables of the payment side, which billing never writes, and which stores there are.\<close>

definition payment_side ::
  "db \<Rightarrow> payment list \<times> payment_link list \<times> webhook_endpoint list \<times> event list \<times> event_delivery list \<times>
     plan_ledger_entry list \<times> w2_job list option \<times> int list"
where
  "payment_side d = (payments d, payment_links d, webhook_endpoints d, events d, event_deliveries d,
     plan_ledger_entries d, w2_queue d, map st_id (stores d))"

text \<open>Keys of the payment table, and the foreign key to the stores.\<close>

definition payment_keys_ok :: "db \<Rightarrow> bool" where
  "payment_keys_ok d \<longleftrightarrow> distinct_keys pay_id (payments d) \<and> distinct (map pay_public_id (payments d)) \<and>
     unique_by pay_id idem_key (payments d) \<and>
     (\<forall>p \<in> set (payments d). pay_store_id p \<in> st_id ` set (stores d))"

text \<open>The table after a settlement: the payment is paid and its open replacements are retired.\<close>

definition settled_table :: "int \<Rightarrow> (payment \<Rightarrow> payment) \<Rightarrow> payment list \<Rightarrow> payment list" where
  "settled_table i f t =
     map (\<lambda>q. if pay_id q = i then f q
        else if retirable_successor i q then set_status PAYMENT_SUPERSEDED q else q) t"

definition replaced_by :: "int \<Rightarrow> payment list \<Rightarrow> payment list" where
  "replaced_by i t = filter (\<lambda>q. pay_id q \<noteq> i \<and> retirable_successor i q) t"

text \<open>A number of expiry sweeps one after the other.\<close>

fun expiry_sweeps :: "nat \<Rightarrow> (int \<Rightarrow> string) \<Rightarrow> instant \<Rightarrow> db \<Rightarrow> db result" where
  "expiry_sweeps 0 eid now d = Inr d"
| "expiry_sweeps (Suc n) eid now d = rbind (expire_due_payments eid now d) (\<lambda>r. expiry_sweeps n eid now (snd r))"

text \<open>What the usage ledger holds for one payment: movements and cents.\<close>

definition ledger_net :: "db \<Rightarrow> string \<Rightarrow> int \<times> int" where
  "ledger_net d rid =
     (let es = filter (\<lambda>e. led_resource_id e = rid) (plan_ledger_entries d)
      in (sum_list (map led_total_payments_count es), sum_list (map led_amount_cents_delta es)))"

text \<open>A rail whose codes live for three minutes, and a shop with one pending payment.\<close>

definition demo_rail :: rail where
  "demo_rail = \<lparr>rl_hosted = (\<lambda>_ _. Hosted_session \<lparr>hc_qr_string = ''qr'', hc_client_id = ''c1'', hc_token = ''t1'',
     hc_request_time = ''20260101'', hc_tran_id = None, hc_expires_in_seconds = Some 180\<rparr>), rl_md5 = (\<lambda>_. ''0123'')\<rparr>"

definition till_db :: db where
  "till_db = demo_db\<lparr>events := [], accounts := [sample_account]\<rparr>"

section \<open>Rows after each operation\<close>

lemma payment_side_simps [simp]:
  "payment_side (mod_account i f d) = payment_side d"
  "payment_side (mod_sub i g d) = payment_side d"
  "payment_side (mod_invoice i h d) = payment_side d"
  "payment_side (add_sub sub d) = payment_side d"
  "payment_side (add_invoice ivc d) = payment_side d"
  "payment_side (audit_record a b c j e d) = payment_side d"
  "payment_side (lift_billing_hold i now d) = payment_side d"
  "payment_side (retire_live_subscriptions i now d) = payment_side d"
  by (simp_all add: payment_side_def mod_account_def mod_sub_def mod_invoice_def add_sub_def add_invoice_def
    audit_record_def lift_billing_hold_def retire_live_subscriptions_def)

lemma payment_side_modify_stores:
  "(\<And>st. st_id (k st) = st_id st) \<Longrightarrow> payment_side (modify_stores sts k d) = payment_side d"
  by (simp add: payment_side_def modify_stores_def map_key_tmodify)

lemma payment_side_cap [simp]: "payment_side (snd (apply_store_cap a n now d)) = payment_side d"
  by (cases n) (simp_all add: apply_store_cap_def Let_def payment_side_modify_stores)

lemma payment_side_settle: "returns (settle_invoice s i pid t now src d) (\<lambda>r. payment_side (snd r) = payment_side d)"
proof -
  have act: "payment_side (activate_subscription sid now e) = payment_side e" for sid e
    by (auto simp: activate_subscription_def payment_side_def mod_sub_def split: option.split)
  have ext: "payment_side (extend_coverage i now e) = payment_side e" for e
    by (auto simp: extend_coverage_def split: option.split)
  have re: "payment_side (reinstate i sub pid t now src e) = payment_side e" for sub e
    by (simp add: reinstate_def Let_def)
  show ?thesis
    by (auto simp: settle_invoice_def returns_def Let_def act ext re split: option.splits if_splits)
qed

lemma payment_side_settle_payment:
  "settle_invoice_for_payment s pid t now d = Inr (b, d') \<Longrightarrow> payment_side d' = payment_side d"
  using payment_side_settle [of s _ "Some pid" t now "''khqr''" d]
  by (auto simp: settle_invoice_for_payment_def returns_def split: option.splits)

lemma payment_side_eq: "payment_side d' = payment_side d \<Longrightarrow> payments d' = payments d"
  "payment_side d' = payment_side d \<Longrightarrow> events d' = events d"
  "payment_side d' = payment_side d \<Longrightarrow> plan_ledger_entries d' = plan_ledger_entries d"
  "payment_side d' = payment_side d \<Longrightarrow> map st_id (stores d') = map st_id (stores d)"
  by (simp_all add: payment_side_def)


lemma mod_payment_frame [simp]:
  "payments (mod_payment i f d) = tupd pay_id i f (payments d)"
  "stores (mod_payment i f d) = stores d"
  "events (mod_payment i f d) = events d"
  "plan_ledger_entries (mod_payment i f d) = plan_ledger_entries d"
  by (simp_all add: mod_payment_def)

lemma record_ledger_frame [simp]:
  "payments (record_plan_ledger_entry a p b now d) = payments d"
  "stores (record_plan_ledger_entry a p b now d) = stores d"
  "events (record_plan_ledger_entry a p b now d) = events d"
  by (simp_all add: record_plan_ledger_entry_def Let_def)

lemma row_updates_simps [simp]:
  "pay_id (set_status x p) = pay_id p" "pay_id (paid_row r g now ap p) = pay_id p"
  "pay_id (reversed_row reason now p) = pay_id p" "pay_id (add_attempt j p) = pay_id p"
  "pay_public_id (set_status x p) = pay_public_id p" "pay_public_id (paid_row r g now ap p) = pay_public_id p"
  "pay_public_id (reversed_row reason now p) = pay_public_id p" "pay_public_id (add_attempt j p) = pay_public_id p"
  "pay_store_id (set_status x p) = pay_store_id p" "pay_store_id (paid_row r g now ap p) = pay_store_id p"
  "pay_store_id (reversed_row reason now p) = pay_store_id p" "pay_store_id (add_attempt j p) = pay_store_id p"
  "pay_idempotency_key (set_status x p) = pay_idempotency_key p"
  "pay_idempotency_key (paid_row r g now ap p) = pay_idempotency_key p"
  "pay_idempotency_key (reversed_row reason now p) = pay_idempotency_key p"
  "pay_idempotency_key (add_attempt j p) = pay_idempotency_key p"
  "pay_reissued_from_id (set_status x p) = pay_reissued_from_id p"
  "pay_reissued_from_id (paid_row r g now ap p) = pay_reissued_from_id p"
  "pay_reissued_from_id (reversed_row reason now p) = pay_reissued_from_id p"
  "pay_reissued_from_id (add_attempt j p) = pay_reissued_from_id p"
  "pay_status (set_status x p) = x" "pay_status (paid_row r g now ap p) = PAYMENT_PAID"
  "pay_status (reversed_row reason now p) = PAYMENT_REVERSED" "pay_status (add_attempt j p) = pay_status p"
  by (simp_all add: set_status_def paid_row_def reversed_row_def add_attempt_def Let_def)

lemma idem_key_simps [simp]:
  "idem_key (set_status x p) = idem_key p" "idem_key (paid_row r g now ap p) = idem_key p"
  "idem_key (reversed_row reason now p) = idem_key p" "idem_key (add_attempt j p) = idem_key p"
  by (simp_all add: idem_key_def)

lemma new_payment_simps [simp]:
  "pay_id (new_payment sid lid a c r m k pid q par now d) = fresh_id pay_id (payments d)"
  "pay_public_id (new_payment sid lid a c r m k pid q par now d) = pid"
  "pay_store_id (new_payment sid lid a c r m k pid q par now d) = sid"
  "pay_status (new_payment sid lid a c r m k pid q par now d) = PAYMENT_PENDING"
  "pay_reissued_from_id (new_payment sid lid a c r m k pid q par now d) = par"
  "pay_idempotency_key (new_payment sid lid a c r m k pid q par now d) = k"
  "pay_amount_cents (new_payment sid lid a c r m k pid q par now d) = a"
  "pay_currency (new_payment sid lid a c r m k pid q par now d) = c"
  by (simp_all add: new_payment_def)

lemma add_payment_Inr:
  "add_payment p d = Inr d' \<longleftrightarrow> pay_public_id p \<notin> pay_public_id ` set (payments d) \<and>
    unclaimed idem_key (idem_key p) (payments d) \<and> d' = d\<lparr>payments := payments d @ [p]\<rparr>"
  by (auto simp: add_payment_def tadd_def)

text \<open>A sweep that sets the status of the given rows one after the other.\<close>

lemma retire_fold_rows:
  "payments (fold (retire_successor st eid now) ps d) =
     map (\<lambda>q. if pay_id q \<in> pay_id ` set ps then set_status PAYMENT_SUPERSEDED q else q) (payments d)"
  "stores (fold (retire_successor st eid now) ps d) = stores d"
  "plan_ledger_entries (fold (retire_successor st eid now) ps d) = plan_ledger_entries d"
  "events (fold (retire_successor st eid now) ps d) = events d @
     map (\<lambda>p. event_for (eid (pay_id p)) now (set_status PAYMENT_SUPERSEDED p) st EVENT_SUPERSEDED) ps"
  by (induction ps arbitrary: d) (simp_all add: retire_successor_def tupd_def set_status_def)

lemma key_in_filter:
  assumes "distinct_keys key t" "q \<in> set t"
  shows "key q \<in> key ` set (filter P t) \<longleftrightarrow> P q"
  using rows.rows_eq [OF assms(1) _ assms(2)] assms(2) by (auto simp: image_iff)

lemma retire_successors_rows:
  assumes "distinct_keys pay_id (payments d)"
  shows "payments (retire_successors p st eid now d) =
    map (\<lambda>q. if retirable_successor (pay_id p) q then set_status PAYMENT_SUPERSEDED q else q) (payments d)"
  unfolding retire_successors_def retire_fold_rows
  by (intro map_cong refl if_cong) (auto simp: key_in_filter [OF assms] simp del: set_filter)


lemma retirable_paid [simp]: "\<not> retirable_successor i (paid_row r g now ap p)"
  by (simp add: retirable_successor_def)

lemma filter_retirable_paid:
  "filter (retirable_successor i) (tupd pay_id i (paid_row r g now ap) t) = replaced_by i t"
  by (induction t) (simp_all add: tupd_def replaced_by_def)

lemma mark_paid_Some:
  assumes keys: "distinct_keys pay_id (payments d)"
    and res: "mark_paid s public_id ref raw eid now approved d = Inr (Some (p', alert), d')"
  obtains p st where "p \<in> set (payments d)" "pay_public_id p = public_id" "settleable (pay_status p)"
    and "p' = paid_row ref raw now approved p" "tget st_id (pay_store_id p) (stores d) = Some st"
    and "payments d' = settled_table (pay_id p) (paid_row ref raw now approved) (payments d)"
    and "events d' = events d @
        map (\<lambda>q. event_for (eid (pay_id q)) now (set_status PAYMENT_SUPERSEDED q) st EVENT_SUPERSEDED)
          (replaced_by (pay_id p) (payments d)) @ [event_for (eid (pay_id p)) now p' st EVENT_COMPLETED]"
    and "plan_ledger_entries d' = plan_ledger_entries
        (if st_is_internal st then d else record_plan_ledger_entry (st_account_id st) p' False now d)"
    and "map st_id (stores d') = map st_id (stores d)" "alert = find_double_charge d' p'"
proof -
  obtain p where p: "scalar_one_or_none (filter (\<lambda>p. pay_public_id p = public_id) (payments d)) = Inr (Some p)"
    and "settleable (pay_status p)"
    using res by (auto simp: mark_paid_def split: option.splits if_splits)
  let ?p = "paid_row ref raw now approved p"
  let ?d1 = "mod_payment (pay_id p) (paid_row ref raw now approved) d"
  obtain st where st: "tget st_id (pay_store_id p) (stores d) = Some st"
    using res p \<open>settleable _\<close> by (auto simp: mark_paid_def store_of_def split: option.splits if_splits)
  let ?d2 = "if st_is_internal st then ?d1 else record_plan_ledger_entry (st_account_id st) ?p False now ?d1"
  obtain b d3 where d3: "settle_invoice_for_payment s (pay_id p) now now ?d2 = Inr (b, d3)"
    and d': "d' = enqueue_event (eid (pay_id p)) now ?p st EVENT_COMPLETED (retire_successors ?p st eid now d3)"
    and "p' = ?p" "alert = find_double_charge d' ?p"
    using res p st \<open>settleable _\<close> by (auto simp: mark_paid_def store_of_def Let_def)
  note side = payment_side_settle_payment [OF d3]
  have "payments d3 = tupd pay_id (pay_id p) (paid_row ref raw now approved) (payments d)"
    using payment_side_eq(1) [OF side] by simp
  moreover from this have "distinct_keys pay_id (payments d3)"
    using rows.wf_upd [OF keys, of "paid_row ref raw now approved"] by simp
  ultimately have rows: "payments d' = settled_table (pay_id p) (paid_row ref raw now approved) (payments d)"
    by (auto simp: d' retire_successors_rows settled_table_def tupd_def)
  have "events d' = events d @
        map (\<lambda>q. event_for (eid (pay_id q)) now (set_status PAYMENT_SUPERSEDED q) st EVENT_SUPERSEDED)
          (replaced_by (pay_id p) (payments d)) @ [event_for (eid (pay_id p)) now p' st EVENT_COMPLETED]"
    using payment_side_eq(1,2) [OF side] \<open>p' = ?p\<close>
    by (simp add: d' retire_successors_def retire_fold_rows filter_retirable_paid)
  moreover have "plan_ledger_entries d' = plan_ledger_entries
        (if st_is_internal st then d else record_plan_ledger_entry (st_account_id st) p' False now d)"
    using payment_side_eq(3) [OF side] \<open>p' = ?p\<close>
    by (simp add: d' retire_successors_def retire_fold_rows record_plan_ledger_entry_def Let_def)
  moreover have "map st_id (stores d') = map st_id (stores d)"
    using payment_side_eq(4) [OF side] by (simp add: d' retire_successors_def retire_fold_rows)
  ultimately show thesis
    using that [OF _ _ \<open>settleable _\<close> \<open>p' = ?p\<close> st rows] scalar_one_or_none_mem [OF p] \<open>p' = ?p\<close>
      \<open>alert = find_double_charge d' ?p\<close> by simp
qed

lemma mark_paid_None: "mark_paid s public_id ref raw eid now approved d = Inr (None, d') \<Longrightarrow> d' = d"
  by (auto simp: mark_paid_def Let_def split: option.splits if_splits)


lemma expire_loop_ok:
  assumes "\<forall>p \<in> set ps. pay_store_id p \<in> st_id ` set (stores d)"
  shows "\<exists>d'. expire_loop eid now ps d = Inr d' \<and> stores d' = stores d \<and>
    payments d' = map (\<lambda>q. if pay_id q \<in> pay_id ` set ps then set_status PAYMENT_EXPIRED q else q) (payments d) \<and>
    plan_ledger_entries d' = plan_ledger_entries d \<and>
    map (\<lambda>e. (ev_payment_id e, ev_type e)) (events d') = map (\<lambda>e. (ev_payment_id e, ev_type e)) (events d) @
      map (\<lambda>p. (pay_id p, EVENT_EXPIRED)) (filter (\<lambda>p. \<not> is_synthetic (pay_reference_id p) (pay_metadata p)) ps)"
  using assms
proof (induction ps arbitrary: d)
  case (Cons p ps)
  let ?d1 = "mod_payment (pay_id p) (set_status PAYMENT_EXPIRED) d"
  let ?row = "\<lambda>q. if pay_id q \<in> pay_id ` set ps then set_status PAYMENT_EXPIRED q else q"
  have rows: "map ?row (tupd pay_id (pay_id p) (set_status PAYMENT_EXPIRED) t) =
      map (\<lambda>q. if pay_id q \<in> pay_id ` set (p # ps) then set_status PAYMENT_EXPIRED q else q) t" for t
    by (simp add: tupd_def set_status_def)
  have "tget st_id (pay_store_id p) (stores d) \<noteq> None"
    using Cons.prems by (auto simp: tget_def find_None_iff)
  then obtain st where st: "tget st_id (pay_store_id p) (stores d) = Some st"
    by blast
  let ?d2 = "if is_synthetic (pay_reference_id p) (pay_metadata p) then ?d1
    else enqueue_event (eid (pay_id p)) now (set_status PAYMENT_EXPIRED p) st EVENT_EXPIRED ?d1"
  have loop: "expire_loop eid now (p # ps) d = expire_loop eid now ps ?d2"
    by (simp add: store_of_def st)
  obtain d' where d': "expire_loop eid now ps ?d2 = Inr d'" "stores d' = stores ?d2"
    "payments d' = map ?row (payments ?d2)" "plan_ledger_entries d' = plan_ledger_entries ?d2"
    "map (\<lambda>e. (ev_payment_id e, ev_type e)) (events d') = map (\<lambda>e. (ev_payment_id e, ev_type e)) (events ?d2) @
      map (\<lambda>p. (pay_id p, EVENT_EXPIRED)) (filter (\<lambda>p. \<not> is_synthetic (pay_reference_id p) (pay_metadata p)) ps)"
  proof -
    have "\<forall>p \<in> set ps. pay_store_id p \<in> st_id ` set (stores ?d2)"
      using Cons.prems by simp
    then show thesis
      using Cons.IH [of ?d2] that by blast
  qed
  have "payments ?d2 = tupd pay_id (pay_id p) (set_status PAYMENT_EXPIRED) (payments d)"
    by simp
  with d' loop rows show ?case
    by (auto simp: event_for_def)
qed simp

lemma expire_loop_rows:
  assumes "expire_loop eid now ps d = Inr d'"
  shows "payments d' = map (\<lambda>q. if pay_id q \<in> pay_id ` set ps then set_status PAYMENT_EXPIRED q else q) (payments d)"
    and "stores d' = stores d" and "plan_ledger_entries d' = plan_ledger_entries d"
proof -
  have "payments d' = map (\<lambda>q. if pay_id q \<in> pay_id ` set ps then set_status PAYMENT_EXPIRED q else q) (payments d) \<and>
      stores d' = stores d \<and> plan_ledger_entries d' = plan_ledger_entries d"
    using assms
  proof (induction ps arbitrary: d)
    case (Cons p ps)
    from Cons.prems obtain d2 where "expire_loop eid now ps d2 = Inr d'" and d2: "stores d2 = stores d"
      "payments d2 = tupd pay_id (pay_id p) (set_status PAYMENT_EXPIRED) (payments d)"
      "plan_ledger_entries d2 = plan_ledger_entries d"
      by (fastforce simp: Let_def split: if_splits)
    with Cons.IH [of d2] show ?case
      by (auto simp: tupd_def set_status_def)
  qed simp
  then show "payments d' = map (\<lambda>q. if pay_id q \<in> pay_id ` set ps then set_status PAYMENT_EXPIRED q else q) (payments d)"
    and "stores d' = stores d" and "plan_ledger_entries d' = plan_ledger_entries d"
    by auto
qed

lemma due_payments_sub: "p \<in> set (due_payments now d) \<Longrightarrow> p \<in> set (payments d) \<and> expiry_due now p"
  by (auto simp: due_payments_def limit_def dest: in_set_takeD)

lemma key_in_due:
  assumes "distinct_keys pay_id (payments d)" "q \<in> set (payments d)"
  shows "pay_id q \<in> pay_id ` set (due_payments now d) \<longleftrightarrow> q \<in> set (due_payments now d)"
  using rows.rows_eq [OF assms(1) _ assms(2)] due_payments_sub by (fastforce simp: image_iff)

lemma expire_due_rows:
  assumes "distinct_keys pay_id (payments d)" "expire_due_payments eid now d = Inr (ps, d')"
  shows "payments d' = map (\<lambda>q. if q \<in> set (due_payments now d) then set_status PAYMENT_EXPIRED q else q) (payments d)"
    and "stores d' = stores d" and "plan_ledger_entries d' = plan_ledger_entries d"
proof -
  have d': "expire_loop eid now (due_payments now d) d = Inr d'"
    using assms(2) by (auto simp: expire_due_payments_def Let_def)
  show "payments d' = map (\<lambda>q. if q \<in> set (due_payments now d) then set_status PAYMENT_EXPIRED q else q) (payments d)"
    unfolding expire_loop_rows(1) [OF d'] by (intro map_cong refl if_cong) (simp_all add: key_in_due [OF assms(1)])
  show "stores d' = stores d" and "plan_ledger_entries d' = plan_ledger_entries d"
    using expire_loop_rows(2,3) [OF d'] by simp_all
qed


section \<open>Properties\<close>

lemma mint_qr_expires:
  "mint_qr s rl st link a pid now c h = Inr m \<Longrightarrow> \<exists>n. mq_expires_at m = now + seconds n \<and>
     (n = checkout_ttl_seconds s \<or> (n \<noteq> 0 \<and> (\<exists>hc. rl_hosted rl (lk_raw_link link) (money_to_str a
        (Some (normalize_currency (Some (or_str c (lk_currency link)))))) = Hosted_session hc \<and> hc_expires_in_seconds hc = Some n)))"
  by (auto simp: mint_qr_def Let_def split: if_splits hosted_answer.splits option.splits)

lemma create_payment_Inr:
  assumes "create_payment s rl st a ref meta key cur h pid now d = Inr ((p, c), d')"
  obtains link m where "refuse_unusable_store st = Inr ()" "refuse_synthetic_on_merchant_store st ref meta = Inr ()"
    and "load_active_link d (st_id st) cur = Inr link"
    and "normalize_currency (Some (lk_currency link)) = ''KHR'' \<longrightarrow> a mod 100 = 0"
    and "find_idempotent d (st_id st) key = Inr (if c then None else Some p)"
    and "\<not> c \<longrightarrow> d' = d"
    and "c \<longrightarrow> check_amount link a = Inr () \<and> pid \<notin> pay_public_id ` set (payments d) \<and>
        unclaimed idem_key (idem_key p) (payments d) \<and> d' = d\<lparr>payments := payments d @ [p]\<rparr>"
    and "c \<longrightarrow> p = new_payment (st_id st) (lk_id link) a (normalize_currency (Some (lk_currency link)))
        ref meta key pid m None now d"
proof -
  obtain link ex where l: "refuse_unusable_store st = Inr ()" "refuse_synthetic_on_merchant_store st ref meta = Inr ()"
    "load_active_link d (st_id st) cur = Inr link"
    "normalize_currency (Some (lk_currency link)) = ''KHR'' \<longrightarrow> a mod 100 = 0"
    "find_idempotent d (st_id st) key = Inr ex"
    using assms unfolding create_payment_def Let_def rbind_eq_Inr guard_eq_Inr by (elim exE conjE) simp
  note step = assms [unfolded create_payment_def Let_def, simplified l rbind_simps]
  show thesis
  proof (cases ex)
    case None
    then obtain m where "c" "check_amount link a = Inr ()" "pid \<notin> pay_public_id ` set (payments d)"
      "unclaimed idem_key (idem_key p) (payments d)"
      "p = new_payment (st_id st) (lk_id link) a (normalize_currency (Some (lk_currency link))) ref meta key pid m None now d"
      "d' = d\<lparr>payments := payments d @ [p]\<rparr>"
      using step l(4) by (auto simp: guard_def add_payment_Inr)
    then show thesis
      using that [OF l(1-4), of m] l(5) None by simp
  next
    case (Some q)
    then show thesis
      using that [OF l(1-4)] step l(4,5) by (auto simp: guard_def)
  qed
qed

lemma load_active_link_mem:
  assumes "load_active_link d store_id cur = Inr link"
  shows "link \<in> set (payment_links d) \<and> lk_store_id link = store_id \<and> lk_status link = LINK_ACTIVE"
proof -
  define links where "links = sort_key lk_id (filter (\<lambda>l. lk_store_id l = store_id \<and> lk_status l = LINK_ACTIVE) (payment_links d))"
  have find: "x \<in> set xs" if "find P xs = Some x" for P xs and x :: payment_link
    using that by (auto simp: find_Some_iff)
  have "link \<in> set links"
    using assms unfolding load_active_link_def Let_def links_def [symmetric]
    by (auto dest: find scalar_one_or_none_mem split: if_splits list.splits option.splits)
  then show ?thesis
    by (simp add: links_def)
qed

text \<open>C32. A payment is only ever opened for an amount its link takes: at least one cent, within the
  link's bounds where they are set, whole riel when the link settles in riel; in the link's own currency,
  on a store that is neither disabled nor held, and a synthetic probe only on an internal store.  The
  new row is pending, its public id was unused, and nothing else in the database changes.\<close>

theorem created_payment_within_bounds:
  assumes "create_payment s rl st a ref meta key cur h pid now d = Inr ((p, True), d')"
  shows "\<exists>link \<in> set (payment_links d). lk_store_id link = st_id st \<and> lk_status link = LINK_ACTIVE \<and>
    pay_link_id p = lk_id link \<and> pay_currency p = normalize_currency (Some (lk_currency link)) \<and>
    pay_amount_cents p = a \<and> 1 \<le> a \<and> lk_min_amount_cents link \<le> a \<and>
    (\<forall>m. lk_max_amount_cents link = Some m \<longrightarrow> m = 0 \<or> a \<le> m) \<and>
    (pay_currency p = ''KHR'' \<longrightarrow> a mod 100 = 0) \<and>
    st_status st \<noteq> STORE_DISABLED \<and> st_billing_suspended_at st = None \<and>
    (is_synthetic ref meta \<longrightarrow> st_is_internal st) \<and>
    pay_status p = PAYMENT_PENDING \<and> pay_public_id p = pid \<and> pid \<notin> pay_public_id ` set (payments d) \<and>
    d' = d\<lparr>payments := payments d @ [p]\<rparr>"
proof -
  obtain link m where l: "refuse_unusable_store st = Inr ()" "refuse_synthetic_on_merchant_store st ref meta = Inr ()"
    "load_active_link d (st_id st) cur = Inr link" "check_amount link a = Inr ()"
    "normalize_currency (Some (lk_currency link)) = ''KHR'' \<longrightarrow> a mod 100 = 0"
    "p = new_payment (st_id st) (lk_id link) a (normalize_currency (Some (lk_currency link))) ref meta key pid m None now d"
    "pid \<notin> pay_public_id ` set (payments d)" "d' = d\<lparr>payments := payments d @ [p]\<rparr>"
    by (rule create_payment_Inr [OF assms]) simp
  have "link \<in> set (payment_links d) \<and> lk_store_id link = st_id st \<and> lk_status link = LINK_ACTIVE"
    by (rule load_active_link_mem [OF l(3)])
  moreover have "1 \<le> a" "lk_min_amount_cents link \<le> a" "\<forall>m. lk_max_amount_cents link = Some m \<longrightarrow> m = 0 \<or> a \<le> m"
    using l(4) by (auto simp: check_amount_def split: if_splits option.splits)
  moreover have "st_status st \<noteq> STORE_DISABLED" "st_billing_suspended_at st = None" "is_synthetic ref meta \<longrightarrow> st_is_internal st"
    using l(1,2) by (auto simp: refuse_unusable_store_def refuse_synthetic_on_merchant_store_def split: if_splits)
  ultimately show ?thesis
    using l(5-8) by (intro bexI [of _ link]) (auto simp: new_payment_def)
qed


theorem created_payment_within_bounds_witness:
  "\<exists>p d'. create_payment default_settings demo_rail sample_store 500 (Some ''order-2'') None (Some ''k1'') None None ''pub2'' 9 till_db =
      Inr ((p, True), d') \<and> pay_amount_cents p = 500 \<and> pay_currency p = ''USD''"
proof -
  let ?r = "create_payment default_settings demo_rail sample_store 500 (Some ''order-2'') None (Some ''k1'') None None ''pub2'' 9 till_db"
  have r: "?r = Inr ((fst (fst (projr ?r)), True), snd (projr ?r))"
    by code_simp
  have "\<forall>l \<in> set (payment_links till_db). normalize_currency (Some (lk_currency l)) = ''USD''"
    by code_simp
  then have "pay_amount_cents (fst (fst (projr ?r))) = 500 \<and> pay_currency (fst (fst (projr ?r))) = ''USD''"
    using created_payment_within_bounds [OF r] by auto
  with r show ?thesis by blast
qed

text \<open>C31. An idempotency key makes creation repeatable: once a request with a key has been answered, the
  same request, at any later time and whatever the rail would answer, returns the very same payment,
  reports that nothing was created and leaves the database as it is.\<close>

theorem create_payment_idempotent:
  assumes "create_payment s rl st a ref meta (Some key) cur h pid now d = Inr ((p, c), d')" and "key \<noteq> []"
  shows "create_payment s' rl' st a ref meta (Some key) cur h' pid' later d' = Inr ((p, False), d')"
proof -
  obtain link m where l: "refuse_unusable_store st = Inr ()" "refuse_synthetic_on_merchant_store st ref meta = Inr ()"
    "load_active_link d (st_id st) cur = Inr link"
    "normalize_currency (Some (lk_currency link)) = ''KHR'' \<longrightarrow> a mod 100 = 0"
    "find_idempotent d (st_id st) (Some key) = Inr (if c then None else Some p)"
    "\<not> c \<longrightarrow> d' = d" "c \<longrightarrow> d' = d\<lparr>payments := payments d @ [p]\<rparr>"
    "c \<longrightarrow> p = new_payment (st_id st) (lk_id link) a (normalize_currency (Some (lk_currency link))) ref meta (Some key) pid m None now d"
    by (rule create_payment_Inr [OF assms(1)]) (rule that; blast)
  have "find_idempotent d' (st_id st) (Some key) = Inr (Some p)"
    using l(5-8) assms(2)
    by (cases c) (auto simp: find_idempotent_def or_str_def scalar_one_or_none_Inr)
  moreover have "load_active_link d' (st_id st) cur = Inr link"
    using l(3,6,7) by (cases c) (simp_all add: load_active_link_def)
  ultimately show ?thesis
    using l(1,2,4) by (simp add: create_payment_def guard_def Let_def)
qed

theorem create_payment_idempotent_witness:
  "\<exists>p d'. create_payment default_settings demo_rail sample_store 500 None None (Some ''k1'') None None ''pub2'' 9 till_db = Inr ((p, True), d') \<and>
    create_payment default_settings demo_rail sample_store 500 None None (Some ''k1'') None None ''pub3'' (days 1) d' = Inr ((p, False), d')"
proof -
  let ?r = "create_payment default_settings demo_rail sample_store 500 None None (Some ''k1'') None None ''pub2'' 9 till_db"
  have r: "?r = Inr ((fst (fst (projr ?r)), True), snd (projr ?r))"
    by code_simp
  with create_payment_idempotent [OF r] show ?thesis
    by blast
qed

lemma settled_table_public:
  "(\<And>q. pay_public_id (f q) = pay_public_id q) \<Longrightarrow>
    filter (\<lambda>q. pay_public_id q = x) (settled_table i f t) = settled_table i f (filter (\<lambda>q. pay_public_id q = x) t)"
  by (induction t) (auto simp: settled_table_def)




lemma ledger_net_record:
  assumes "\<forall>e \<in> set (plan_ledger_entries d). led_resource_id e = pay_public_id p \<longrightarrow>
      led_resource_type e \<noteq> (if rv then LEDGER_PAYMENT_REVERSAL else LEDGER_PAYMENT)"
  shows "ledger_net (record_plan_ledger_entry a p rv now d) (pay_public_id p) =
    (fst (ledger_net d (pay_public_id p)) + (if rv then - 1 else 1),
     snd (ledger_net d (pay_public_id p)) + (if rv then - pay_amount_cents p else pay_amount_cents p))"
proof -
  have "ledger_key (ledger_entry a p rv now) \<notin> ledger_key ` set (plan_ledger_entries d)"
    using assms by (auto simp: ledger_key_def ledger_entry_def Let_def)
  then show ?thesis
    by (simp add: record_plan_ledger_entry_def ledger_net_def tadd_def Let_def) (simp add: ledger_entry_def Let_def)
qed

lemma reverse_payment_Inr:
  assumes "reverse_payment p reason eid now d = Inr (q, d')"
  obtains st where "pay_status p = PAYMENT_PAID" "q = reversed_row reason now p"
    and "tget st_id (pay_store_id p) (stores d) = Some st"
    and "payments d' = tupd pay_id (pay_id p) (reversed_row reason now) (payments d)"
    and "stores d' = stores d"
    and "plan_ledger_entries d' = plan_ledger_entries (record_plan_ledger_entry (st_account_id st) q True now d)"
    and "events d' = events d @ [event_for (eid (pay_id p)) now q st EVENT_REVERSED]"
proof -
  have led: "plan_ledger_entries (record_plan_ledger_entry a x b now (mod_payment i f d)) =
      plan_ledger_entries (record_plan_ledger_entry a x b now d)" for a x b i f
    by (simp add: record_plan_ledger_entry_def Let_def)
  show thesis
    using assms that by (auto simp: reverse_payment_def store_of_def led Let_def split: if_splits option.splits)
qed

lemma ledger_net_cong: "plan_ledger_entries d' = plan_ledger_entries d \<Longrightarrow> ledger_net d' = ledger_net d"
  by (rule ext) (simp add: ledger_net_def)

text \<open>The usage ledger of a refunded sale nets to nothing: settling a merchant's payment books one
  movement of its amount, reversing it books one movement back.  On the platform's own store the books
  do not balance: settling there books nothing, by design, but reversing still books a negative movement
  against the platform's account.\<close>

theorem ledger_after_reversal:
  assumes "distinct_keys pay_id (payments d)" and "\<forall>e \<in> set (plan_ledger_entries d). led_resource_id e \<noteq> public_id"
    and paid: "mark_paid s public_id ref raw eid now approved d = Inr (Some (p, alert), d1)"
    and rev: "reverse_payment p reason eid2 later d1 = Inr (q, d2)"
  shows "\<exists>st \<in> set (stores d). st_id st = pay_store_id p \<and>
    ledger_net d1 public_id = (if st_is_internal st then (0, 0) else (1, pay_amount_cents p)) \<and>
    ledger_net d2 public_id = (if st_is_internal st then (- 1, - pay_amount_cents p) else (0, 0))"
proof -
  obtain p0 st where p0: "pay_public_id p0 = public_id" "p = paid_row ref raw now approved p0"
    and st: "tget st_id (pay_store_id p0) (stores d) = Some st"
    and led: "plan_ledger_entries d1 = plan_ledger_entries
        (if st_is_internal st then d else record_plan_ledger_entry (st_account_id st) p False now d)"
    by (rule mark_paid_Some [OF assms(1) paid])
  obtain st2 :: store where q: "q = reversed_row reason later p"
    and led2: "plan_ledger_entries d2 = plan_ledger_entries (record_plan_ledger_entry (st_account_id st2) q True later d1)"
    by (rule reverse_payment_Inr [OF rev]) blast
  have pub: "pay_public_id p = public_id" "pay_public_id q = public_id" "pay_amount_cents q = pay_amount_cents p"
    by (simp_all add: p0 q reversed_row_def Let_def)
  have "ledger_net d public_id = (0, 0)"
    using assms(2) by (simp add: ledger_net_def Let_def cong: filter_cong)
  then have net1: "ledger_net d1 public_id = (if st_is_internal st then (0, 0) else (1, pay_amount_cents p))"
    using ledger_net_record [of d p False "st_account_id st" now] assms(2) pub(1)
    by (simp add: ledger_net_cong [OF led])
  have "\<forall>e \<in> set (plan_ledger_entries d1). led_resource_id e = public_id \<longrightarrow> led_resource_type e \<noteq> LEDGER_PAYMENT_REVERSAL"
    using assms(2) by (auto simp: led record_plan_ledger_entry_def tadd_def ledger_entry_def Let_def split: if_splits)
  then have "ledger_net d2 public_id = (fst (ledger_net d1 public_id) - 1, snd (ledger_net d1 public_id) - pay_amount_cents p)"
    using ledger_net_record [of d1 q True "st_account_id st2" later] pub by (simp add: ledger_net_cong [OF led2])
  with net1 have "ledger_net d2 public_id = (if st_is_internal st then (- 1, - pay_amount_cents p) else (0, 0))"
    by simp
  moreover have "st \<in> set (stores d)" "st_id st = pay_store_id p"
    using st by (auto simp: tget_def find_Some_iff p0(2))
  ultimately show ?thesis
    using net1 by blast
qed

theorem ledger_after_reversal_witness:
  "\<exists>p alert d1 q d2. mark_paid default_settings ''abcdefghijklmnopqrstuvwx'' None None (\<lambda>i. ''e'' @ int_str i) 5 6
      (till_db\<lparr>stores := [sample_store\<lparr>st_is_internal := True\<rparr>]\<rparr>) = Inr (Some (p, alert), d1) \<and>
    reverse_payment p None (\<lambda>i. ''f'' @ int_str i) 6 d1 = Inr (q, d2) \<and>
    ledger_net d2 ''abcdefghijklmnopqrstuvwx'' = (- 1, - 500)"
proof -
  let ?d = "till_db\<lparr>stores := [sample_store\<lparr>st_is_internal := True\<rparr>]\<rparr>"
  let ?r = "projr (mark_paid default_settings ''abcdefghijklmnopqrstuvwx'' None None (\<lambda>i. ''e'' @ int_str i) 5 6 ?d)"
  let ?p = "fst (the (fst ?r))"
  let ?r2 = "projr (reverse_payment ?p None (\<lambda>i. ''f'' @ int_str i) 6 (snd ?r))"
  have h: "distinct_keys pay_id (payments ?d)"
    "\<forall>e \<in> set (plan_ledger_entries ?d). led_resource_id e \<noteq> ''abcdefghijklmnopqrstuvwx''"
    "mark_paid default_settings ''abcdefghijklmnopqrstuvwx'' None None (\<lambda>i. ''e'' @ int_str i) 5 6 ?d =
      Inr (Some (?p, snd (the (fst ?r))), snd ?r)"
    "reverse_payment ?p None (\<lambda>i. ''f'' @ int_str i) 6 (snd ?r) = Inr (fst ?r2, snd ?r2)"
    by code_simp+
  have "pay_amount_cents ?p = 500" "\<forall>st \<in> set (stores ?d). st_is_internal st"
    by code_simp+
  then have "ledger_net (snd ?r2) ''abcdefghijklmnopqrstuvwx'' = (- 1, - 500)"
    using ledger_after_reversal [OF h] by auto
  with h(3,4) show ?thesis
    by blast
qed


lemma expire_due_ok:
  assumes "payment_keys_ok d"
  shows "\<exists>d'. expire_due_payments eid now d = Inr (map (set_status PAYMENT_EXPIRED) (due_payments now d), d') \<and>
    stores d' = stores d \<and>
    payments d' = map (\<lambda>q. if q \<in> set (due_payments now d) then set_status PAYMENT_EXPIRED q else q) (payments d)"
proof -
  have "\<forall>p \<in> set (due_payments now d). pay_store_id p \<in> st_id ` set (stores d)"
    using assms due_payments_sub by (force simp: payment_keys_ok_def)
  from expire_loop_ok [OF this, of eid now] obtain d' where
    "expire_due_payments eid now d = Inr (map (set_status PAYMENT_EXPIRED) (due_payments now d), d')"
    by (auto simp: expire_due_payments_def Let_def)
  with expire_due_rows [OF _ this] assms show ?thesis
    by (auto simp: payment_keys_ok_def)
qed

lemma payment_keys_status:
  assumes "payment_keys_ok d" "stores d' = stores d"
    and "payments d' = map (\<lambda>q. if P q then set_status x q else q) (payments d)"
  shows "payment_keys_ok d'"
proof -
  have "payments d' = tmodify P (set_status x) (payments d)"
    by (simp add: assms(3) tmodify_def)
  moreover have "map pay_public_id (tmodify P (set_status x) t) = map pay_public_id t" for t
    by (simp add: tmodify_def)
  ultimately show ?thesis
    using assms(1,2) by (auto simp: payment_keys_ok_def distinct_keys_tmodify set_tmodify intro!: unique_by_tmodify)
qed

lemma due_after_sweep:
  assumes "distinct_keys pay_id (payments d)"
    and rows: "payments d' = map (\<lambda>q. if q \<in> set (due_payments now d) then set_status PAYMENT_EXPIRED q else q) (payments d)"
  shows "length (filter (expiry_due now) (payments d')) = length (filter (expiry_due now) (payments d)) - 200"
proof -
  let ?due = "filter (expiry_due now) (payments d)"
  have "\<not> expiry_due now (set_status PAYMENT_EXPIRED q)" for q
    by (simp add: expiry_due_def open_payment_def)
  then have "filter (expiry_due now) (map (\<lambda>q. if q \<in> S then set_status PAYMENT_EXPIRED q else q) t) =
      filter (\<lambda>q. q \<notin> S) (filter (expiry_due now) t)" for S t
    by (induction t) auto
  then have left: "filter (expiry_due now) (payments d') = filter (\<lambda>q. q \<notin> set (due_payments now d)) ?due"
    unfolding rows .
  have dist: "distinct ?due"
    using assms(1) by (simp add: distinct_keys_def distinct_map)
  have "set (filter (\<lambda>q. q \<notin> set (due_payments now d)) ?due) = set (drop 200 (sort_key pay_id ?due))"
  proof -
    have split: "take 200 xs @ drop 200 xs = xs" for xs :: "payment list"
      by simp
    have "set ?due = set (take 200 (sort_key pay_id ?due)) \<union> set (drop 200 (sort_key pay_id ?due))"
      by (metis set_append set_sort append_take_drop_id)
    moreover have "set (take 200 (sort_key pay_id ?due)) \<inter> set (drop 200 (sort_key pay_id ?due)) = {}"
      using dist by (intro set_take_disj_set_drop_if_distinct) (simp_all)
    moreover have "set (filter (\<lambda>q. q \<notin> set (due_payments now d)) ?due) = set ?due - set (take 200 (sort_key pay_id ?due))"
      by (auto simp: due_payments_def limit_def)
    ultimately show ?thesis by blast
  qed
  then have "length (filter (\<lambda>q. q \<notin> set (due_payments now d)) ?due) = length (drop 200 (sort_key pay_id ?due))"
    using distinct_card [OF distinct_filter [OF dist, of "\<lambda>q. q \<notin> set (due_payments now d)"]]
      distinct_card [of "drop 200 (sort_key pay_id ?due)"] dist by (simp only: distinct_drop distinct_sort)
  then show ?thesis
    unfolding left by simp
qed

text \<open>C13. Expiry is never stuck: however many codes have lapsed, enough sweeps (one per two hundred) all
  return, leave no pending or scanned payment past its deadline, and touch no other payment.\<close>

theorem expiry_sweeps_drain:
  assumes "payment_keys_ok d" and "length (filter (expiry_due now) (payments d)) \<le> 200 * n"
  shows "\<exists>d'. expiry_sweeps n eid now d = Inr d' \<and> filter (expiry_due now) (payments d') = [] \<and>
    payments d' = map (\<lambda>q. if expiry_due now q then set_status PAYMENT_EXPIRED q else q) (payments d)"
  using assms
proof (induction n arbitrary: d)
  case 0
  then have "filter (expiry_due now) (payments d) = []" by simp
  then show ?case
    by (auto simp: filter_empty_conv intro!: map_idI [symmetric])
next
  case (Suc n)
  obtain d1 where d1: "expire_due_payments eid now d = Inr (map (set_status PAYMENT_EXPIRED) (due_payments now d), d1)"
    "stores d1 = stores d"
    "payments d1 = map (\<lambda>q. if q \<in> set (due_payments now d) then set_status PAYMENT_EXPIRED q else q) (payments d)"
    using expire_due_ok [OF Suc.prems(1)] by blast
  have "payment_keys_ok d1"
    by (rule payment_keys_status [OF Suc.prems(1) d1(2,3)])
  moreover have "length (filter (expiry_due now) (payments d1)) \<le> 200 * n"
    using due_after_sweep [OF _ d1(3)] Suc.prems by (simp add: payment_keys_ok_def)
  ultimately obtain d' where "expiry_sweeps n eid now d1 = Inr d'" "filter (expiry_due now) (payments d') = []"
    "payments d' = map (\<lambda>q. if expiry_due now q then set_status PAYMENT_EXPIRED q else q) (payments d1)"
    using Suc.IH by blast
  moreover have "\<not> expiry_due now (set_status PAYMENT_EXPIRED q)" for q
    by (simp add: expiry_due_def open_payment_def)
  ultimately show ?case
    using d1 due_payments_sub by (auto simp: fun_eq_iff)
qed

theorem expiry_sweeps_drain_witness:
  "\<exists>d'. expiry_sweeps 1 (\<lambda>i. ''e'' @ int_str i) (days 1) till_db = Inr d' \<and> map pay_status (payments d') = [PAYMENT_EXPIRED]"
proof -
  have h: "payment_keys_ok till_db" "length (filter (expiry_due (days 1)) (payments till_db)) \<le> 200 * 1"
    "map (\<lambda>q. pay_status (if expiry_due (days 1) q then set_status PAYMENT_EXPIRED q else q)) (payments till_db) = [PAYMENT_EXPIRED]"
    by code_simp+
  obtain d' where d': "expiry_sweeps 1 (\<lambda>i. ''e'' @ int_str i) (days 1) till_db = Inr d'"
    "payments d' = map (\<lambda>q. if expiry_due (days 1) q then set_status PAYMENT_EXPIRED q else q) (payments till_db)"
    using expiry_sweeps_drain [OF h(1,2), of "\<lambda>i. ''e'' @ int_str i"] by (elim exE conjE)
  have "map pay_status (payments d') = [PAYMENT_EXPIRED]"
    unfolding d'(2) using h(3) by (simp only: map_map o_def)
  with d'(1) show ?thesis by (intro exI [of _ d'] conjI)
qed


lemma concat_chunks: "concat (map (\<lambda>k. take m (drop (k * m) xs)) [0..<n]) = take (n * m) xs"
proof (induction n)
  case (Suc n)
  then show ?case
    by (simp add: add.commute [of m] take_add)
qed simp

text \<open>Paging loses nothing and repeats nothing: for every page size the endpoint takes, the pages of a
  store's list, one after the other, are exactly the store's payments with the wanted status, probes left
  out, newest first, and no page is longer than asked, nor than a hundred rows.\<close>

theorem payment_pages_cover:
  assumes "1 \<le> lim" and "lim \<le> 100" and "int n * lim \<le> MAX_OFFSET"
    and "length (filter (\<lambda>p. pay_store_id p = sid \<and> not_synthetic_row p \<and> status_matches wanted p) (payments d)) \<le> n * nat lim"
  shows "concat (map (\<lambda>k. list_payments d sid wanted lim (int k * lim)) [0..<n]) =
      rev (sort_key pay_id (filter (\<lambda>p. pay_store_id p = sid \<and> not_synthetic_row p \<and> status_matches wanted p) (payments d))) \<and>
    (\<forall>lim off. length (list_payments d sid wanted lim off) \<le> 100)"
proof
  let ?all = "rev (sort_key pay_id (filter (\<lambda>p. pay_store_id p = sid \<and> not_synthetic_row p \<and> status_matches wanted p) (payments d)))"
  have "list_payments d sid wanted lim (int k * lim) = take (nat lim) (drop (k * nat lim) ?all)" if "k < n" for k
  proof -
    have "int k * lim \<le> int n * lim" "0 \<le> int k * lim"
      using that assms(1) by (simp_all add: mult_right_mono)
    then have "clamp_offset (int k * lim) = int k * lim"
      unfolding clamp_offset_def using assms(3) by linarith
    moreover have "nat (int k * lim) = k * nat lim"
      using assms(1) by (simp add: nat_mult_distrib)
    ultimately show ?thesis
      using assms(1,2) by (simp add: list_payments_def page_def limit_def)
  qed
  then have "map (\<lambda>k. list_payments d sid wanted lim (int k * lim)) [0..<n] =
      map (\<lambda>k. take (nat lim) (drop (k * nat lim) ?all)) [0..<n]"
    by simp
  then show "concat (map (\<lambda>k. list_payments d sid wanted lim (int k * lim)) [0..<n]) = ?all"
    using assms(4) by (simp only: concat_chunks) simp
  show "\<forall>lim off. length (list_payments d sid wanted lim off) \<le> 100"
  proof (intro allI)
    fix lim off
    have "nat (max 1 (min lim 100)) \<le> 100"
      by simp
    then show "length (list_payments d sid wanted lim off) \<le> 100"
      unfolding list_payments_def page_def limit_def length_take by (rule min.coboundedI2)
  qed
qed

theorem payment_pages_cover_witness:
  "map pay_id (concat (map (\<lambda>k. list_payments (till_db\<lparr>payments := [demo_payment, demo_payment\<lparr>pay_id := 22\<rparr>]\<rparr>) 7 None 1 (int k * 1)) [0..<2])) =
    [22, 21]"
proof -
  let ?d = "till_db\<lparr>payments := [demo_payment, demo_payment\<lparr>pay_id := 22\<rparr>]\<rparr>"
  let ?f = "filter (\<lambda>p. pay_store_id p = 7 \<and> not_synthetic_row p \<and> status_matches None p) (payments ?d)"
  have "length ?f \<le> 2 * nat 1" "int 2 * 1 \<le> MAX_OFFSET" "map pay_id (rev (sort_key pay_id ?f)) = [22, 21]"
    by code_simp+
  then show ?thesis
    using payment_pages_cover [of 1 2 7 None ?d] by simp
qed

lemma month_of_ge:
  assumes "0 \<le> epoch_day t" "0 \<le> k" "month_begin k \<le> t"
  shows "k \<le> month_of t"
proof (rule ccontr)
  assume "\<not> k \<le> month_of t"
  then have "month_begin (month_of t + 1) \<le> month_begin k"
    using month_day_mono [of "month_of t + 1" k] by (simp add: month_begin_def days_def)
  with month_of_bounds(2) [OF assms(1)] assms(3) show False
    by simp
qed

lemma month_begin_mono: "j \<le> k \<Longrightarrow> month_begin j \<le> month_begin k"
  using month_day_mono [of j k] by (simp add: month_begin_def days_def)

text \<open>Giving up a paid plan defers the new plan's quota to the first instant of the next calendar
  month and no further: until then no live payment is refused for quota, whatever the count; from then
  on, unless another paid plan is given up, the deferral is over and a count at the allowance is refused
  with 402.\<close>

theorem quota_deferral_ends_with_month:
  assumes "0 \<le> epoch_day now" and "billing_inv d"
    and dfr: "quota_deferred_until d (acc_id acct) now = Some t"
    and later: "t \<le> tnext" and old: "\<forall>sub \<in> set (plan_subscriptions d). \<forall>c. sub_canceled_at sub = Some c \<longrightarrow> c < t"
  shows "now < t \<and> t = month_begin (month_of now + 1) \<and> check_plan_quota d acct mode now = Inr () \<and>
    quota_deferred_until d (acc_id acct) tnext = None \<and>
    (\<forall>sub pl. get_active_sub d (acc_id acct) = Inr (Some (sub, pl)) \<longrightarrow>
      plan_base_payments_included pl \<le> count_paid_payments_this_month d (acc_id acct) tnext \<longrightarrow>
      check_plan_quota d acct ''live'' tnext = Inl (HTTPException 402 ''quota_exceeded''))"
proof -
  have t: "t = month_begin (month_of now + 1)" "now < t"
    using dfr next_month_start_eq [OF assms(1)] next_month_start_after [OF assms(1)]
    by (auto simp: quota_deferred_until_def split: if_splits)
  have k: "0 \<le> month_of now + 1"
    using month_index_nonneg [OF assms(1)] by (simp add: month_of_def)
  have "month_day (month_of now + 1) \<le> epoch_day tnext"
    using later before_month_begin [of tnext "month_of now + 1"] t(1) by simp
  then have day: "0 \<le> epoch_day tnext"
    using month_day_nonneg [OF k] by simp
  have start: "t \<le> month_start tnext"
    using month_of_ge [OF day k] later t(1) by (simp add: month_start_def month_begin_mono)
  have "c < month_start tnext" if "sub \<in> set (plan_subscriptions d)" "sub_canceled_at sub = Some c" for sub c
    using old start that by (metis less_le_trans)
  then have over: "quota_deferred_until d (acc_id acct) tnext = None"
    by (force simp: quota_deferred_until_def split: option.splits)
  have rows: "[plan_base_payments_included pl. sub \<leftarrow> plan_subscriptions d, pl \<leftarrow> plans d,
        sub_plan_id sub = plan_id pl \<and> sub_account_id sub = acc_id acct \<and> live_sub sub] =
      map (\<lambda>r. plan_base_payments_included (snd r)) [(sub, pl). sub \<leftarrow> plan_subscriptions d, pl \<leftarrow> plans d,
        plan_id pl = sub_plan_id sub \<and> sub_account_id sub = acc_id acct \<and> live_sub sub]"
    by (auto simp: map_concat o_def intro!: arg_cong [where f = concat] map_cong)
  have inc: "scalar_one_or_none [plan_base_payments_included pl. sub \<leftarrow> plan_subscriptions d, pl \<leftarrow> plans d,
        sub_plan_id sub = plan_id pl \<and> sub_account_id sub = acc_id acct \<and> live_sub sub] =
      Inr (map_option (\<lambda>r. plan_base_payments_included (snd r)) r)" if "get_active_sub d (acc_id acct) = Inr r" for r
    using that unfolding rows get_active_sub_def scalar_one_or_none_Inr by (auto split: option.splits)
  obtain r where r: "get_active_sub d (acc_id acct) = Inr r"
    using get_active_sub_ok [OF assms(2)] by blast
  have "check_plan_quota d acct mode now = Inr ()"
    using dfr by (simp add: check_plan_quota_def inc [OF r] downgraded_this_month_def Let_def)
  moreover have "check_plan_quota d acct ''live'' tnext = Inl (HTTPException 402 ''quota_exceeded'')"
    if "get_active_sub d (acc_id acct) = Inr (Some (sub, pl))"
      "plan_base_payments_included pl \<le> count_paid_payments_this_month d (acc_id acct) tnext" for sub pl
    using that(2) over by (simp add: check_plan_quota_def inc [OF that(1)] downgraded_this_month_def Let_def)
  ultimately show ?thesis
    using t over by blast
qed


text \<open>A merchant on the free plan who left the starter plan on the first day of the epoch.\<close>

theorem quota_deferral_ends_with_month_witness:
  "check_plan_quota (shop_db\<lparr>plans := [demo_plan, demo_plan\<lparr>plan_id := 1, plan_code := ''free'', plan_monthly_fee_cents := 0,
        plan_base_payments_included := 0\<rparr>],
      plan_subscriptions := [demo_subscription\<lparr>sub_id := 8, sub_status := SUB_CANCELED, sub_canceled_at := Some 0\<rparr>,
        demo_subscription\<lparr>sub_plan_id := 1\<rparr>]\<rparr>) sample_account ''live'' (days 2) = Inr () \<and>
   check_plan_quota (shop_db\<lparr>plans := [demo_plan, demo_plan\<lparr>plan_id := 1, plan_code := ''free'', plan_monthly_fee_cents := 0,
        plan_base_payments_included := 0\<rparr>],
      plan_subscriptions := [demo_subscription\<lparr>sub_id := 8, sub_status := SUB_CANCELED, sub_canceled_at := Some 0\<rparr>,
        demo_subscription\<lparr>sub_plan_id := 1\<rparr>]\<rparr>) sample_account ''live'' (days 31) =
     Inl (HTTPException 402 ''quota_exceeded'')"
proof -
  let ?d = "shop_db\<lparr>plans := [demo_plan, demo_plan\<lparr>plan_id := 1, plan_code := ''free'', plan_monthly_fee_cents := 0,
        plan_base_payments_included := 0\<rparr>],
      plan_subscriptions := [demo_subscription\<lparr>sub_id := 8, sub_status := SUB_CANCELED, sub_canceled_at := Some 0\<rparr>,
        demo_subscription\<lparr>sub_plan_id := 1\<rparr>]\<rparr>"
  let ?r = "the (projr (get_active_sub ?d 3))"
  have h: "0 \<le> epoch_day (days 2)" "billing_inv ?d"
    "quota_deferred_until ?d (acc_id sample_account) (days 2) = Some (days 31)" "days 31 \<le> days 31"
    by code_simp+
  have "list_all (\<lambda>sub. case sub_canceled_at sub of None \<Rightarrow> True | Some c \<Rightarrow> c < days 31) (plan_subscriptions ?d)"
    by code_simp
  then have old: "\<forall>sub \<in> set (plan_subscriptions ?d). \<forall>c. sub_canceled_at sub = Some c \<longrightarrow> c < days 31"
    unfolding list_all_iff by (metis option.simps(5))
  have "get_active_sub ?d (acc_id sample_account) = Inr (Some (fst ?r, snd ?r))"
    "plan_base_payments_included (snd ?r) \<le> count_paid_payments_this_month ?d (acc_id sample_account) (days 31)"
    by code_simp+
  then show ?thesis
    using quota_deferral_ends_with_month [OF h old, of "''live''"] by blast
qed


text \<open>The empty idempotency key is accepted but not replayed: it is stored like any other key, the
  replay lookup skips it, and so every further request with it on the same store runs into the unique
  index, after the code has been minted, and ends in an integrity error.\<close>

theorem empty_idempotency_key_collides:
  assumes "create_payment s rl st a ref meta (Some []) cur h pid now d = Inr ((p, True), d')"
  shows "\<forall>a' ref' pid' later. \<exists>e. create_payment s rl st a' ref' meta (Some []) cur h pid' later d' = Inl e"
proof (intro allI)
  fix a' ref' pid' later
  have p: "p \<in> set (payments d')" "pay_store_id p = st_id st" "pay_idempotency_key p = Some []"
    using create_payment_Inr [OF assms] by (fastforce simp: new_payment_def)+
  show "\<exists>e. create_payment s rl st a' ref' meta (Some []) cur h pid' later d' = Inl e"
  proof (cases "create_payment s rl st a' ref' meta (Some []) cur h pid' later d'")
    case (Inr r)
    obtain q c e where r: "r = ((q, c), e)"
      by (metis prod.exhaust)
    have c: "c" "unclaimed idem_key (idem_key q) (payments d')" "idem_key q = Some (st_id st, [])"
      using create_payment_Inr [OF Inr [unfolded r]]
      by (fastforce simp: find_idempotent_def or_str_def idem_key_def split: if_splits)+
    then have False
      using p by (force simp: unclaimed_def idem_key_def)
    then show ?thesis ..
  qed simp
qed

theorem empty_idempotency_key_collides_witness:
  "\<exists>p d'. create_payment default_settings demo_rail sample_store 500 None None (Some []) None None ''pub2'' 9 till_db = Inr ((p, True), d') \<and>
    (\<exists>e. create_payment default_settings demo_rail sample_store 700 None None (Some []) None None ''pub3'' 10 d' = Inl e)"
proof -
  let ?r = "create_payment default_settings demo_rail sample_store 500 None None (Some []) None None ''pub2'' 9 till_db"
  have r: "?r = Inr ((fst (fst (projr ?r)), True), snd (projr ?r))"
    by code_simp
  with empty_idempotency_key_collides [OF r] show ?thesis
    by blast
qed

end
