(* ===== verification/Lifecycle.thy ===== *)
theory Lifecycle
  imports Payments
begin

text \<open>
  The lifecycle of a payment as an abstract machine, and the proof that the operations of
  \<^verbatim>\<open>services/payments.py\<close> implement it.

  The abstract state says for every payment what its status is and which payment it replaces.  Its
  steps are the business events: a sale is opened, a dead code is replaced, a code is scanned, paid,
  refunded, or lapses.  Every request the program serves is simulated by one such step, so what is
  proved of the machine by rule induction holds of the program after every sequence of requests.
\<close>

section \<open>Requests\<close>

datatype payment_request =
    OpenPayment int int "string option" "json option" "string option" "string option" "bool option" string
  | Reissue int string
  | Scan int
  | Settle string "string option" "json option"
  | Refund int "string option"
  | ExpireSweep

text \<open>What surrounds a request: the settings, the rail, the ids of the events it may write, the clock, and the
  second reading of it that a settlement dates the approval with.\<close>

record ambient =
  am_settings :: settings
  am_rail :: rail
  am_eid :: "int \<Rightarrow> string"
  am_now :: instant
  am_approved :: instant

fun handle_payment_request :: "ambient \<times> payment_request \<Rightarrow> db \<Rightarrow> db result" where
  "handle_payment_request (am, OpenPayment store_id a ref meta key cur h pid) d =
     (case tget st_id store_id (stores d) of
        None \<Rightarrow> Inl (HTTPException 404 ''store_not_found'')
      | Some st \<Rightarrow> rbind (create_payment (am_settings am) (am_rail am) st a ref meta key cur h pid (am_now am) d) (\<lambda>r. Inr (snd r)))"
| "handle_payment_request (am, Reissue payment_id pid) d =
     (case tget pay_id payment_id (payments d) of
        None \<Rightarrow> Inl (HTTPException 404 ''payment_not_found'')
      | Some p \<Rightarrow> rbind (reissue_payment (am_settings am) (am_rail am) p pid (am_now am) d) (\<lambda>r. Inr (snd r)))"
| "handle_payment_request (am, Scan payment_id) d = mark_scanned payment_id (am_eid am) (am_now am) d"
| "handle_payment_request (am, Settle pid ref raw) d =
     rbind (mark_paid (am_settings am) pid ref raw (am_eid am) (am_now am) (am_approved am) d) (\<lambda>r. Inr (snd r))"
| "handle_payment_request (am, Refund payment_id reason) d =
     (case tget pay_id payment_id (payments d) of
        None \<Rightarrow> Inl (HTTPException 404 ''payment_not_found'')
      | Some p \<Rightarrow> rbind (reverse_payment p reason (am_eid am) (am_now am) d) (\<lambda>r. Inr (snd r)))"
| "handle_payment_request (am, ExpireSweep) d =
     rbind (expire_due_payments (am_eid am) (am_now am) d) (\<lambda>r. Inr (snd r))"

section \<open>The abstract machine\<close>

type_synonym sales = "int \<rightharpoonup> payment_status \<times> int option"

definition sales_of :: "db \<Rightarrow> sales" where
  "sales_of d i = map_option (\<lambda>p. (pay_status p, pay_reissued_from_id p)) (tget pay_id i (payments d))"

definition settle_sale :: "int \<Rightarrow> sales \<Rightarrow> sales" where
  "settle_sale i m j =
     map_option (\<lambda>(x, par).
       (if j = i then PAYMENT_PAID
        else if par = Some i \<and> x \<in> {PAYMENT_PENDING, PAYMENT_SCANNED, PAYMENT_EXPIRED} then PAYMENT_SUPERSEDED
        else x, par)) (m j)"

definition lapse :: "int set \<Rightarrow> sales \<Rightarrow> sales" where
  "lapse S m j = map_option (\<lambda>(x, par). (if j \<in> S then PAYMENT_EXPIRED else x, par)) (m j)"

inductive sale_step :: "sales \<Rightarrow> sales \<Rightarrow> bool" where
  sale_idle: "sale_step m m"
| sale_open: "m i = None \<Longrightarrow> sale_step m (m(i \<mapsto> (PAYMENT_PENDING, None)))"
| sale_replace: "m i = None \<Longrightarrow> m j = Some (x, par) \<Longrightarrow> x \<in> {PAYMENT_EXPIRED, PAYMENT_FAILED} \<Longrightarrow>
    sale_step m (m(i \<mapsto> (PAYMENT_PENDING, Some j)))"
| sale_scan: "m i = Some (PAYMENT_PENDING, par) \<Longrightarrow> sale_step m (m(i \<mapsto> (PAYMENT_SCANNED, par)))"
| sale_settle: "m i = Some (x, par) \<Longrightarrow> settleable x \<Longrightarrow> sale_step m (settle_sale i m)"
| sale_refund: "m i = Some (PAYMENT_PAID, par) \<Longrightarrow> sale_step m (m(i \<mapsto> (PAYMENT_REVERSED, par)))"
| sale_lapse: "(\<And>i. i \<in> S \<Longrightarrow> \<exists>x par. m i = Some (x, par) \<and> x \<in> {PAYMENT_PENDING, PAYMENT_SCANNED}) \<Longrightarrow>
    sale_step m (lapse S m)"

text \<open>The status of one payment may change like this, over any number of steps.\<close>

fun may_become :: "payment_status \<Rightarrow> payment_status \<Rightarrow> bool" where
  "may_become PAYMENT_PENDING y = (y \<noteq> PAYMENT_FAILED)"
| "may_become PAYMENT_SCANNED y = (y \<noteq> PAYMENT_FAILED \<and> y \<noteq> PAYMENT_PENDING)"
| "may_become PAYMENT_EXPIRED y = (y \<in> {PAYMENT_EXPIRED, PAYMENT_SUPERSEDED, PAYMENT_PAID, PAYMENT_REVERSED})"
| "may_become PAYMENT_SUPERSEDED y = (y \<in> {PAYMENT_SUPERSEDED, PAYMENT_PAID, PAYMENT_REVERSED})"
| "may_become PAYMENT_PAID y = (y \<in> {PAYMENT_PAID, PAYMENT_REVERSED})"
| "may_become PAYMENT_REVERSED y = (y = PAYMENT_REVERSED)"
| "may_become PAYMENT_FAILED y = (y = PAYMENT_FAILED)"

text \<open>No open code replaces a payment that has been collected.\<close>

definition no_open_replacement :: "sales \<Rightarrow> bool" where
  "no_open_replacement m \<longleftrightarrow>
     (\<forall>i j x par y. m i = Some (x, par) \<longrightarrow> x \<in> {PAYMENT_PAID, PAYMENT_REVERSED} \<longrightarrow> m j = Some (y, Some i) \<longrightarrow>
        y \<notin> {PAYMENT_PENDING, PAYMENT_SCANNED, PAYMENT_EXPIRED})"

text \<open>The requests of the concrete instances: a code lapses and is replaced, the replacement lapses and is
  replaced in its turn, and then the customer pays the first code.\<close>

definition at_time :: "instant \<Rightarrow> ambient" where
  "at_time t = \<lparr>am_settings = default_settings, am_rail = demo_rail, am_eid = (\<lambda>i. int_str t @ ''/'' @ int_str i), am_now = t, am_approved = t + 1\<rparr>"

definition two_replacements :: "(ambient \<times> payment_request) list" where
  "two_replacements =
     [(at_time (seconds 400), ExpireSweep), (at_time (seconds 401), Reissue 21 ''B''),
      (at_time (seconds 600), ExpireSweep), (at_time (seconds 601), Reissue 22 ''C''),
      (at_time (seconds 602), Settle ''abcdefghijklmnopqrstuvwx'' None None)]"

text \<open>A shop where a code has lapsed twice: the first payment, its replacement and the replacement's.\<close>

definition twice_replaced_db :: db where
  "twice_replaced_db = till_db\<lparr>payments :=
     [demo_payment\<lparr>pay_status := PAYMENT_EXPIRED\<rparr>,
      demo_payment\<lparr>pay_id := 22, pay_public_id := ''B'', pay_status := PAYMENT_EXPIRED, pay_reissued_from_id := Some 21\<rparr>,
      demo_payment\<lparr>pay_id := 23, pay_public_id := ''C'', pay_reissued_from_id := Some 22\<rparr>]\<rparr>"

section \<open>Forward simulation\<close>

definition transact :: "('r \<Rightarrow> 'c \<Rightarrow> 'c result) \<Rightarrow> 'r \<Rightarrow> 'c \<Rightarrow> 'c" where
  "transact handle r c = (case handle r c of Inl _ \<Rightarrow> c | Inr c' \<Rightarrow> c')"

text \<open>The contract between a transactional program and an abstract machine: a request that returns keeps
  the invariant and is one abstract step; a request that raises is rolled back.\<close>

locale forward_simulation =
  fixes handle :: "'r \<Rightarrow> 'c \<Rightarrow> 'c result"
    and ok :: "'c \<Rightarrow> bool"
    and abs :: "'c \<Rightarrow> 'a"
    and step :: "'a \<Rightarrow> 'a \<Rightarrow> bool"
  assumes handle_ok: "ok c \<Longrightarrow> handle r c = Inr c' \<Longrightarrow> ok c'"
    and handle_step: "ok c \<Longrightarrow> handle r c = Inr c' \<Longrightarrow> step (abs c) (abs c')"
begin

lemma transact_ok: "ok c \<Longrightarrow> ok (transact handle r c)"
  by (simp add: transact_def handle_ok split: sum.split)

lemma transact_steps: "ok c \<Longrightarrow> step\<^sup>*\<^sup>* (abs c) (abs (transact handle r c))"
  by (auto simp: transact_def intro: handle_step split: sum.split)

lemma run_ok: "ok c \<Longrightarrow> ok (fold (transact handle) rs c)"
  by (induction rs arbitrary: c) (simp_all add: transact_ok)

lemma run_steps: "ok c \<Longrightarrow> step\<^sup>*\<^sup>* (abs c) (abs (fold (transact handle) rs c))"
proof (induction rs arbitrary: c)
  case (Cons r rs)
  from transact_steps [OF Cons.prems] Cons.IH [OF transact_ok [OF Cons.prems]] show ?case
    by (auto intro: rtranclp_trans)
qed simp

text \<open>What every step of the machine keeps, every run of the program keeps.\<close>

lemma run_keeps:
  assumes "ok c" "P (abs c)" "\<And>m m'. step m m' \<Longrightarrow> P m \<Longrightarrow> P m'"
  shows "P (abs (fold (transact handle) rs c))"
proof -
  have "P m'" if "step\<^sup>*\<^sup>* m m'" "P m" for m m'
    using that by (induction) (auto intro: assms(3))
  then show ?thesis
    using run_steps [OF assms(1)] assms(2) by blast
qed

end

section \<open>The machine\<close>

inductive_cases sale_stepE: "sale_step m m'"

lemma may_become_refl [simp]: "may_become x x"
  by (cases x) simp_all

lemma may_become_trans: "may_become x y \<Longrightarrow> may_become y z \<Longrightarrow> may_become x z"
  by (cases x; cases y; cases z) simp_all

lemma sale_step_status:
  assumes "sale_step m m'" "m i = Some (x, par)"
  shows "\<exists>y. m' i = Some (y, par) \<and> may_become x y"
  using assms
proof cases
  case (sale_settle j x' par')
  then show ?thesis
    using assms(2) by (cases x) (auto simp: settle_sale_def settleable_def)
next
  case (sale_lapse S)
  then show ?thesis
    using assms(2) by (cases "i \<in> S") (force simp: lapse_def)+
qed (use assms(2) in \<open>auto split: if_splits\<close>)

lemma sale_steps_status:
  "sale_step\<^sup>*\<^sup>* m m' \<Longrightarrow> m i = Some (x, par) \<Longrightarrow> \<exists>y. m' i = Some (y, par) \<and> may_become x y"
proof (induction rule: rtranclp_induct)
  case (step m' m'')
  then obtain y where "m' i = Some (y, par)" "may_become x y"
    by blast
  with sale_step_status [OF step.hyps(2)] show ?case
    using may_become_trans by blast
qed simp

lemma sale_step_no_open:
  assumes "sale_step m m'" "no_open_replacement m"
  shows "no_open_replacement m'"
  unfolding no_open_replacement_def
proof (intro allI impI)
  fix i j x par y
  assume m': "m' i = Some (x, par)" "x \<in> {PAYMENT_PAID, PAYMENT_REVERSED}" "m' j = Some (y, Some i)"
  note old = assms(2) [unfolded no_open_replacement_def, rule_format]
  from assms(1) show "y \<notin> {PAYMENT_PENDING, PAYMENT_SCANNED, PAYMENT_EXPIRED}"
  proof cases
    case (sale_settle k x' par')
    then show ?thesis
      using m' old [of i _ par j] by (auto simp: settle_sale_def split: if_splits prod.splits)
  next
    case (sale_lapse S)
    then show ?thesis
      using m' old [of i _ par j] by (fastforce simp: lapse_def split: if_splits prod.splits)
  qed (use m' old in \<open>fastforce split: if_splits\<close>)+
qed


section \<open>The program simulates the machine\<close>

lemma tget_map: "(\<And>q. key (g q) = key q) \<Longrightarrow> tget key i (map g t) = map_option g (tget key i t)"
  by (induction t) (simp_all add: tget_def)

lemma sales_of_map:
  assumes "payments d' = map g (payments d)" "\<And>q. pay_id (g q) = pay_id q" "\<And>q. pay_reissued_from_id (g q) = pay_reissued_from_id q"
  shows "sales_of d' i = map_option (\<lambda>q. (pay_status (g q), pay_reissued_from_id q)) (tget pay_id i (payments d))"
  using assms by (simp add: sales_of_def tget_map option.map_comp o_def)

lemma sales_of_upd:
  assumes "distinct_keys pay_id (payments d)" "payments d' = tupd pay_id i f (payments d)" "tget pay_id i (payments d) = Some p"
    and "\<And>q. pay_id (f q) = pay_id q" "\<And>q. pay_reissued_from_id (f q) = pay_reissued_from_id q"
  shows "sales_of d' = (sales_of d)(i \<mapsto> (pay_status (f p), pay_reissued_from_id p))"
  using tget_tupd [OF assms(1,4,3)] assms(2,5) by (auto simp: sales_of_def fun_eq_iff)

lemma sales_of_add:
  assumes "distinct_keys pay_id (payments d)" "payments d' = payments d @ [p]" "pay_id p = fresh_id pay_id (payments d)"
  shows "sales_of d' = (sales_of d)(pay_id p \<mapsto> (pay_status p, pay_reissued_from_id p))" "sales_of d (pay_id p) = None"
proof -
  have fresh: "pay_id p \<notin> pay_id ` set (payments d)"
    using fresh_id_not_used [of pay_id "payments d"] by (simp add: assms(3))
  show "sales_of d' = (sales_of d)(pay_id p \<mapsto> (pay_status p, pay_reissued_from_id p))"
    using rows.get_add_new [OF assms(1) fresh] by (auto simp: sales_of_def assms(2) tadd_def fun_eq_iff)
  show "sales_of d (pay_id p) = None"
    using fresh by (simp add: sales_of_def rows.get_None [OF assms(1)])
qed

lemma keys_ok_map:
  assumes "payment_keys_ok d" "map st_id (stores d') = map st_id (stores d)" "payments d' = map g (payments d)"
    and "\<And>q. pay_id (g q) = pay_id q \<and> pay_public_id (g q) = pay_public_id q \<and> idem_key (g q) = idem_key q \<and> pay_store_id (g q) = pay_store_id q"
  shows "payment_keys_ok d'"
proof -
  have ids: "st_id ` set (stores d') = st_id ` set (stores d)"
    using arg_cong [OF assms(2), of set] by simp
  have upd: "map g (payments d) = tmodify (\<lambda>_. True) g (payments d)"
    by (simp add: tmodify_def)
  have "distinct_keys pay_id (payments d')" "unique_by pay_id idem_key (payments d')"
    using assms(1,4) unfolding assms(3) upd payment_keys_ok_def by (simp_all add: distinct_keys_tmodify unique_by_tmodify)
  moreover have "distinct (map pay_public_id (payments d'))"
    using assms(1,4) by (simp add: assms(3) payment_keys_ok_def o_def)
  moreover have "pay_store_id p \<in> st_id ` set (stores d)" if "p \<in> set (payments d')" for p
    using assms(1,4) that by (auto simp: assms(3) payment_keys_ok_def)
  ultimately show ?thesis
    by (simp add: payment_keys_ok_def ids)
qed

lemma keys_ok_add:
  assumes "payment_keys_ok d" "stores d' = stores d" "payments d' = payments d @ [p]"
    and "pay_id p = fresh_id pay_id (payments d)" "pay_public_id p \<notin> pay_public_id ` set (payments d)"
    and "unclaimed idem_key (idem_key p) (payments d)" "pay_store_id p \<in> st_id ` set (stores d)"
  shows "payment_keys_ok d'"
  using assms distinct_keys_tadd_fresh [of pay_id "payments d" p] unique_by_tadd [of pay_id idem_key "payments d" p]
  by (auto simp: payment_keys_ok_def tadd_def)

lemma keys_okD:
  assumes "payment_keys_ok d"
  shows "distinct_keys pay_id (payments d)" "distinct (map pay_public_id (payments d))"
    "p \<in> set (payments d) \<Longrightarrow> pay_store_id p \<in> st_id ` set (stores d)"
  using assms by (auto simp: payment_keys_ok_def)


text \<open>One lemma per operation: the keys survive and the machine takes a step.\<close>

lemma tupd_map: "tupd key i f t = map (\<lambda>q. if key q = i then f q else q) t"
  by (simp add: tupd_def)

lemma open_simulates:
  assumes ok: "payment_keys_ok d" and st: "st \<in> set (stores d)"
    and res: "create_payment s rl st a ref meta key cur h pid now d = Inr ((p, c), d')"
  shows "payment_keys_ok d' \<and> sale_step (sales_of d) (sales_of d')"
proof (cases c)
  case True
  have p: "pay_id p = fresh_id pay_id (payments d)" "pay_status p = PAYMENT_PENDING" "pay_reissued_from_id p = None"
    "pay_store_id p = st_id st" "pay_public_id p \<notin> pay_public_id ` set (payments d)"
    "unclaimed idem_key (idem_key p) (payments d)" "d' = d\<lparr>payments := payments d @ [p]\<rparr>"
    using create_payment_Inr [OF res] True by (metis new_payment_simps)+
  have tables: "payments d' = payments d @ [p]" "stores d' = stores d"
    by (simp_all add: p(7))
  have "payment_keys_ok d'"
    using keys_ok_add [OF ok tables(2,1) p(1,5,6)] st p(4) by simp
  moreover have "sale_step (sales_of d) (sales_of d')"
    using sales_of_add [OF keys_okD(1) [OF ok] tables(1) p(1)] sale_open [of "sales_of d" "pay_id p"] p(2,3) by simp
  ultimately show ?thesis ..
next
  case False
  have "d' = d"
    by (rule create_payment_Inr [OF res]) (use False in simp)
  with ok show ?thesis
    by (simp add: sale_idle)
qed

lemma reissue_payment_Inr:
  assumes "reissue_payment s rl parent pid now d = Inr ((q, c), d')"
  shows "pay_status parent \<in> {PAYMENT_EXPIRED, PAYMENT_FAILED}"
    and "\<not> c \<Longrightarrow> d' = d"
    and "c \<Longrightarrow> \<exists>m e. q = new_payment (pay_store_id parent) (pay_link_id parent) (pay_amount_cents parent) (pay_currency parent)
        (pay_reference_id parent) (pay_metadata parent) None pid m (Some (pay_id parent)) now d \<and>
      pid \<notin> pay_public_id ` set (payments d) \<and>
      d' = (mod_payment (pay_id parent) (add_attempt e) d)\<lparr>payments := tupd pay_id (pay_id parent) (add_attempt e) (payments d) @ [q]\<rparr>"
proof -
  have status: "reissuable parent = Inr ()"
    using assms by (auto simp: reissue_payment_def)
  then show "pay_status parent \<in> {PAYMENT_EXPIRED, PAYMENT_FAILED}"
    by (auto simp: reissuable_def split: if_splits)
  note step = assms [unfolded reissue_payment_def, simplified status rbind_simps]
  show "d' = d" if "\<not> c"
    using step that by (auto simp: Let_def split: option.splits)
  have ids: "pay_public_id ` set (tupd pay_id i (add_attempt e) t) = pay_public_id ` set t" for i e t
  proof -
    have "map pay_public_id (tupd pay_id i (add_attempt e) t) = map pay_public_id t"
      by (simp add: tupd_def)
    then show ?thesis
      by (metis set_map)
  qed
  show "\<exists>m e. q = new_payment (pay_store_id parent) (pay_link_id parent) (pay_amount_cents parent) (pay_currency parent)
        (pay_reference_id parent) (pay_metadata parent) None pid m (Some (pay_id parent)) now d \<and>
      pid \<notin> pay_public_id ` set (payments d) \<and>
      d' = (mod_payment (pay_id parent) (add_attempt e) d)\<lparr>payments := tupd pay_id (pay_id parent) (add_attempt e) (payments d) @ [q]\<rparr>" if created: "c"
  proof -
    obtain st link m where st: "live_successor d parent now = None" "tget st_id (pay_store_id parent) (stores d) = Some st"
      "tget lk_id (pay_link_id parent) (payment_links d) = Some link"
      "mint_qr s rl st link (pay_amount_cents parent) pid now (Some (pay_currency parent)) (Some (was_hosted parent)) = Inr m"
      using step created by (auto simp: Let_def split: option.splits)
    show ?thesis
      using step created st by (auto simp: Let_def add_payment_Inr ids simp del: rbind_eq_Inl)
  qed
qed


lemma reissue_simulates:
  assumes ok: "payment_keys_ok d" and parent: "parent \<in> set (payments d)"
    and res: "reissue_payment s rl parent pid now d = Inr ((q, c), d')"
  shows "payment_keys_ok d' \<and> sale_step (sales_of d) (sales_of d')"
proof (cases c)
  case True
  obtain m e where q: "q = new_payment (pay_store_id parent) (pay_link_id parent) (pay_amount_cents parent) (pay_currency parent)
        (pay_reference_id parent) (pay_metadata parent) None pid m (Some (pay_id parent)) now d"
    and pid: "pid \<notin> pay_public_id ` set (payments d)"
    and d': "d' = (mod_payment (pay_id parent) (add_attempt e) d)\<lparr>payments := tupd pay_id (pay_id parent) (add_attempt e) (payments d) @ [q]\<rparr>"
    using reissue_payment_Inr(3) [OF res True] by blast
  let ?d1 = "mod_payment (pay_id parent) (add_attempt e) d"
  have ok1: "payment_keys_ok ?d1"
    by (rule keys_ok_map [OF ok, of _ "\<lambda>q. if pay_id q = pay_id parent then add_attempt e q else q"]) (simp_all add: tupd_map)
  have sales1: "sales_of ?d1 = sales_of d"
    using sales_of_map [of ?d1 "\<lambda>q. if pay_id q = pay_id parent then add_attempt e q else q" d]
    by (auto simp: tupd_map sales_of_def fun_eq_iff intro!: option.map_cong)
  have tables: "payments d' = payments ?d1 @ [q]" "stores d' = stores ?d1"
    by (simp_all add: d')
  have same: "map pay_id (payments ?d1) = map pay_id (payments d)" "map pay_public_id (payments ?d1) = map pay_public_id (payments d)"
    by (simp_all add: tupd_def)
  have fresh: "pay_id q = fresh_id pay_id (payments ?d1)"
    by (simp only: q new_payment_simps fresh_id_def same(1))
  have "payment_keys_ok d'"
  proof (rule keys_ok_add [OF ok1 tables(2,1) fresh])
    show "pay_public_id q \<notin> pay_public_id ` set (payments ?d1)"
      using pid arg_cong [OF same(2), of set] by (simp add: q)
    show "unclaimed idem_key (idem_key q) (payments ?d1)"
      by (simp add: q unclaimed_def idem_key_def)
    show "pay_store_id q \<in> st_id ` set (stores ?d1)"
      using keys_okD(3) [OF ok parent] by (simp add: q)
  qed
  moreover have "sales_of d (pay_id parent) = Some (pay_status parent, pay_reissued_from_id parent)"
    using rows.get_unique [OF keys_okD(1) [OF ok] parent] by (simp add: sales_of_def)
  then have "sale_step (sales_of d) (sales_of d')"
    using sales_of_add [OF keys_okD(1) [OF ok1] tables(1) fresh] reissue_payment_Inr(1) [OF res]
      sale_replace [of "sales_of d" "pay_id q" "pay_id parent"] by (simp add: sales1 q)
  ultimately show ?thesis ..
next
  case False
  then show ?thesis
    using ok reissue_payment_Inr(2) [OF res] by (simp add: sale_idle)
qed

lemma upd_simulates:
  assumes ok: "payment_keys_ok d" and rows: "payments d' = tupd pay_id i f (payments d)" "stores d' = stores d"
    and p: "tget pay_id i (payments d) = Some p"
    and f: "\<And>q. pay_id (f q) = pay_id q" "\<And>q. pay_public_id (f q) = pay_public_id q" "\<And>q. idem_key (f q) = idem_key q"
      "\<And>q. pay_store_id (f q) = pay_store_id q" "\<And>q. pay_reissued_from_id (f q) = pay_reissued_from_id q"
    and step: "sale_step (sales_of d) ((sales_of d)(i \<mapsto> (pay_status (f p), pay_reissued_from_id p)))"
  shows "payment_keys_ok d' \<and> sale_step (sales_of d) (sales_of d')"
proof
  show "payment_keys_ok d'"
    by (rule keys_ok_map [OF ok, of _ "\<lambda>q. if pay_id q = i then f q else q"]) (simp_all add: rows tupd_map f)
  show "sale_step (sales_of d) (sales_of d')"
    using step sales_of_upd [OF keys_okD(1) [OF ok] rows(1) p f(1,5)] by simp
qed

lemma scan_simulates:
  assumes ok: "payment_keys_ok d" and res: "mark_scanned i eid now d = Inr d'"
  shows "payment_keys_ok d' \<and> sale_step (sales_of d) (sales_of d')"
proof (cases "\<exists>p. tget pay_id i (payments d) = Some p \<and> pay_status p = PAYMENT_PENDING")
  case True
  then obtain p where p: "tget pay_id i (payments d) = Some p" "pay_status p = PAYMENT_PENDING"
    by blast
  let ?f = "\<lambda>p. p\<lparr>pay_status := PAYMENT_SCANNED, pay_scanned_at := Some now\<rparr>"
  have rows: "payments d' = tupd pay_id i ?f (payments d)" "stores d' = stores d"
    using res p by (auto simp: mark_scanned_def Let_def)
  show ?thesis
    by (rule upd_simulates [OF ok rows p(1)])
      (use sale_scan [of "sales_of d" i "pay_reissued_from_id p"] p in \<open>simp_all add: sales_of_def idem_key_def\<close>)
next
  case False
  then have "d' = d"
    using res by (auto simp: mark_scanned_def split: option.splits if_splits)
  with ok show ?thesis
    by (simp add: sale_idle)
qed

lemma refund_simulates:
  assumes ok: "payment_keys_ok d" and p: "tget pay_id i (payments d) = Some p"
    and res: "reverse_payment p reason eid now d = Inr (q, d')"
  shows "payment_keys_ok d' \<and> sale_step (sales_of d) (sales_of d')"
proof -
  have i: "pay_id p = i"
    using p tget_Some [OF keys_okD(1) [OF ok]] by simp
  have paid: "pay_status p = PAYMENT_PAID"
    and rows: "payments d' = tupd pay_id i (reversed_row reason now) (payments d)" "stores d' = stores d"
    using reverse_payment_Inr [OF res] i by metis+
  show ?thesis
    by (rule upd_simulates [OF ok rows p])
      (use sale_refund [of "sales_of d" i "pay_reissued_from_id p"] p paid in \<open>simp_all add: sales_of_def\<close>)
qed

lemma settle_simulates:
  assumes ok: "payment_keys_ok d" and res: "mark_paid s pid ref raw eid now approved d = Inr (r, d')"
  shows "payment_keys_ok d' \<and> sale_step (sales_of d) (sales_of d')"
proof (cases r)
  case None
  then show ?thesis
    using ok mark_paid_None res by (metis sale_idle)
next
  case (Some pa)
  then obtain p' alert where "mark_paid s pid ref raw eid now approved d = Inr (Some (p', alert), d')"
    using res by (metis prod.exhaust)
  then obtain p where p: "p \<in> set (payments d)" "settleable (pay_status p)"
    and rows: "payments d' = settled_table (pay_id p) (paid_row ref raw now approved) (payments d)"
      "map st_id (stores d') = map st_id (stores d)"
    by (rule mark_paid_Some [OF keys_okD(1) [OF ok]])
  let ?g = "\<lambda>q. if pay_id q = pay_id p then paid_row ref raw now approved q
    else if retirable_successor (pay_id p) q then set_status PAYMENT_SUPERSEDED q else q"
  have "payment_keys_ok d'"
    by (rule keys_ok_map [OF ok rows(2), of ?g]) (simp_all add: rows(1) settled_table_def)
  moreover have "sales_of d (pay_id p) = Some (pay_status p, pay_reissued_from_id p)"
    using rows.get_unique [OF keys_okD(1) [OF ok] p(1)] by (simp add: sales_of_def)
  then have "sale_step (sales_of d) (settle_sale (pay_id p) (sales_of d))"
    using sale_settle [of "sales_of d" "pay_id p"] p(2) by blast
  moreover have "sales_of d' = settle_sale (pay_id p) (sales_of d)"
  proof
    fix j
    have "sales_of d' j = map_option (\<lambda>q. (pay_status (?g q), pay_reissued_from_id q)) (tget pay_id j (payments d))"
      by (rule sales_of_map) (simp_all add: rows(1) settled_table_def)
    also have "\<dots> = settle_sale (pay_id p) (sales_of d) j"
    proof (cases "tget pay_id j (payments d)")
      case (Some q)
      then have "pay_id q = j"
        using tget_Some [OF keys_okD(1) [OF ok], of j] by auto
      with Some show ?thesis
        by (auto simp: settle_sale_def sales_of_def retirable_successor_def)
    qed (simp add: settle_sale_def sales_of_def)
    finally show "sales_of d' j = settle_sale (pay_id p) (sales_of d) j" .
  qed
  ultimately show ?thesis by simp
qed

lemma expire_simulates:
  assumes ok: "payment_keys_ok d" and res: "expire_due_payments eid now d = Inr (ps, d')"
  shows "payment_keys_ok d' \<and> sale_step (sales_of d) (sales_of d')"
proof
  note rows = expire_due_rows [OF keys_okD(1) [OF ok] res]
  show "payment_keys_ok d'"
    by (rule payment_keys_status [OF ok rows(2,1)])
  let ?S = "pay_id ` set (due_payments now d)"
  have "\<exists>x par. sales_of d i = Some (x, par) \<and> x \<in> {PAYMENT_PENDING, PAYMENT_SCANNED}" if "i \<in> ?S" for i
  proof -
    obtain p where "p \<in> set (payments d)" "pay_id p = i" "open_payment p"
      using \<open>i \<in> ?S\<close> due_payments_sub by (force simp: expiry_due_def)
    then show ?thesis
      using rows.get_unique [OF keys_okD(1) [OF ok]] by (force simp: sales_of_def open_payment_def)
  qed
  then have "sale_step (sales_of d) (lapse ?S (sales_of d))"
    by (rule sale_lapse)
  moreover have "sales_of d' = lapse ?S (sales_of d)"
  proof
    fix j
    have "sales_of d' j = map_option (\<lambda>q. (pay_status (if q \<in> set (due_payments now d) then set_status PAYMENT_EXPIRED q else q),
        pay_reissued_from_id q)) (tget pay_id j (payments d))"
      by (rule sales_of_map) (simp_all add: rows(1))
    also have "\<dots> = lapse ?S (sales_of d) j"
    proof (cases "tget pay_id j (payments d)")
      case (Some q)
      then have "q \<in> set (payments d)" "pay_id q = j"
        using tget_Some [OF keys_okD(1) [OF ok], of j] by auto
      then show ?thesis
        using key_in_due [OF keys_okD(1) [OF ok], of q now] Some by (simp add: lapse_def sales_of_def)
    qed (simp add: lapse_def sales_of_def)
    finally show "sales_of d' j = lapse ?S (sales_of d) j" .
  qed
  ultimately show "sale_step (sales_of d) (sales_of d')" by simp
qed


interpretation shop: forward_simulation handle_payment_request payment_keys_ok sales_of sale_step
proof unfold_locales
  fix c c' and r :: "ambient \<times> payment_request"
  assume ok: "payment_keys_ok c" and res: "handle_payment_request r c = Inr c'"
  have "payment_keys_ok c' \<and> sale_step (sales_of c) (sales_of c')"
  proof (cases r)
    case (Pair am req)
    show ?thesis
    proof (cases req)
      case (OpenPayment sid a ref meta key cur h pid)
      then obtain st p cr where "tget st_id sid (stores c) = Some st"
        "create_payment (am_settings am) (am_rail am) st a ref meta key cur h pid (am_now am) c = Inr ((p, cr), c')"
        using res Pair by (auto split: option.splits)
      then show ?thesis
        using open_simulates [OF ok] unfolding tget_def find_Some_iff by (metis nth_mem)
    next
      case (Reissue i pid)
      then obtain p q cr where "tget pay_id i (payments c) = Some p"
        "reissue_payment (am_settings am) (am_rail am) p pid (am_now am) c = Inr ((q, cr), c')"
        using res Pair by (auto split: option.splits)
      then show ?thesis
        using reissue_simulates [OF ok] tget_Some [OF keys_okD(1) [OF ok]] by blast
    next
      case (Scan i)
      then show ?thesis
        using res Pair scan_simulates [OF ok] by simp
    next
      case (Settle pid ref raw)
      then show ?thesis
        using res Pair settle_simulates [OF ok] by auto
    next
      case (Refund i reason)
      then obtain p q where "tget pay_id i (payments c) = Some p"
        "reverse_payment p reason (am_eid am) (am_now am) c = Inr (q, c')"
        using res Pair by (auto split: option.splits)
      then show ?thesis
        by (rule refund_simulates [OF ok])
    next
      case ExpireSweep
      then show ?thesis
        using res Pair expire_simulates [OF ok] by auto
    qed
  qed
  then show "payment_keys_ok c'" "sale_step (sales_of c) (sales_of c')"
    by simp_all
qed

section \<open>Properties\<close>

text \<open>C1. Refinement.  Every request the payment service answers is one step of the abstract sales
  machine, and a request it refuses changes nothing: after any sequence of requests, in any order and at
  any times, the statuses and the replacement links are a state the machine can reach, and the keys of
  the table are intact.\<close>

theorem payments_refine_sales:
  assumes "payment_keys_ok d"
  shows "sale_step\<^sup>*\<^sup>* (sales_of d) (sales_of (fold (transact handle_payment_request) rs d)) \<and>
    payment_keys_ok (fold (transact handle_payment_request) rs d)"
  using shop.run_steps [OF assms] shop.run_ok [OF assms] by blast

theorem payments_refine_sales_witness:
  "sale_step\<^sup>*\<^sup>* (sales_of till_db) (sales_of (fold (transact handle_payment_request) two_replacements till_db)) \<and>
    payment_keys_ok (fold (transact handle_payment_request) two_replacements till_db)"
proof -
  have "payment_keys_ok till_db" by code_simp
  then show ?thesis by (rule payments_refine_sales)
qed

text \<open>C8. What has been decided about a payment stays decided: after any sequence of requests every payment
  is still there and replaces what it replaced, a paid one is paid or refunded, a refunded or failed one
  is unchanged, and none becomes pending again.\<close>

theorem payment_status_only_advances:
  assumes "payment_keys_ok d" and "tget pay_id i (payments d) = Some p"
  shows "\<exists>p'. tget pay_id i (payments (fold (transact handle_payment_request) rs d)) = Some p' \<and>
    pay_reissued_from_id p' = pay_reissued_from_id p \<and> may_become (pay_status p) (pay_status p')"
proof -
  have "sales_of d i = Some (pay_status p, pay_reissued_from_id p)"
    using assms(2) by (simp add: sales_of_def)
  from sale_steps_status [OF shop.run_steps [OF assms(1)] this] show ?thesis
    by (auto simp: sales_of_def)
qed

theorem payment_status_only_advances_witness:
  "\<exists>p'. tget pay_id 21 (payments (fold (transact handle_payment_request) two_replacements till_db)) = Some p' \<and>
    may_become PAYMENT_PENDING (pay_status p')"
proof -
  have h: "payment_keys_ok till_db" "tget pay_id 21 (payments till_db) = Some demo_payment" "pay_status demo_payment = PAYMENT_PENDING"
    by code_simp+
  from payment_status_only_advances [OF h(1,2)] h(3) show ?thesis
    by metis
qed

text \<open>C5. Once a payment has been collected no replacement of it is open: after any sequence of requests, a
  payment that was reissued from a paid or refunded one is neither pending, scanned nor reissuable.\<close>

theorem collected_payment_has_no_open_replacement:
  assumes "payment_keys_ok d" and "no_open_replacement (sales_of d)"
  shows "no_open_replacement (sales_of (fold (transact handle_payment_request) rs d))"
  by (rule shop.run_keeps [where P = no_open_replacement, OF assms sale_step_no_open])

theorem collected_payment_has_no_open_replacement_witness:
  "no_open_replacement (sales_of (fold (transact handle_payment_request) two_replacements till_db))"
proof (rule collected_payment_has_no_open_replacement)
  show "payment_keys_ok till_db" by code_simp
  have "\<forall>p \<in> set (payments till_db). pay_reissued_from_id p = None" by code_simp
  then show "no_open_replacement (sales_of till_db)"
    by (auto simp: no_open_replacement_def sales_of_def tget_def find_Some_iff)
qed

text \<open>Only the direct replacements are retired.  Settling a payment leaves every row as it was that is
  not reissued from it, so when a code has been replaced twice and the customer pays the first one, the
  newest code stays pending: it can be paid as well, and that second settlement goes through.\<close>

theorem settling_spares_second_replacement:
  assumes "payment_keys_ok d" and "mark_paid s public_id ref raw eid now approved d = Inr (Some (p', alert), d')"
    and "c \<in> set (payments d)" and "pay_reissued_from_id c \<noteq> Some (pay_id p')" and "pay_id c \<noteq> pay_id p'"
  shows "c \<in> set (payments d')"
proof -
  obtain p where p: "p' = paid_row ref raw now approved p"
    and rows: "payments d' = settled_table (pay_id p) (paid_row ref raw now approved) (payments d)"
    by (rule mark_paid_Some [OF keys_okD(1) [OF assms(1)] assms(2)])
  have "\<not> retirable_successor (pay_id p) c" "pay_id c \<noteq> pay_id p"
    using assms(4,5) by (simp_all add: p retirable_successor_def)
  then show ?thesis
    using assms(3) unfolding rows settled_table_def set_map by (intro image_eqI [of c _ c]) simp_all
qed

theorem settling_spares_second_replacement_witness:
  "(\<exists>p' alert d'. mark_paid default_settings ''abcdefghijklmnopqrstuvwx'' None None int_str (seconds 602) (seconds 602) twice_replaced_db =
      Inr (Some (p', alert), d') \<and> last (payments twice_replaced_db) \<in> set (payments d')) \<and>
   pay_status (last (payments twice_replaced_db)) = PAYMENT_PENDING"
proof -
  let ?d = twice_replaced_db
  let ?r = "mark_paid default_settings ''abcdefghijklmnopqrstuvwx'' None None int_str (seconds 602) (seconds 602) ?d"
  let ?c = "last (payments ?d)"
  have d: "payment_keys_ok ?d" "?c \<in> set (payments ?d)" "pay_status ?c = PAYMENT_PENDING"
    "pay_reissued_from_id ?c = Some 22" "pay_id ?c = 23"
    by code_simp+
  have "(case ?r of Inr (Some (p', _), _) \<Rightarrow> pay_id p' = 21 | _ \<Rightarrow> False)"
    by code_simp
  then obtain p' alert d' where r: "?r = Inr (Some (p', alert), d')" "pay_id p' = 21"
    by (cases ?r) (auto split: option.splits)
  then have "?c \<in> set (payments d')"
    using settling_spares_second_replacement [OF d(1) r(1) d(2)] d(4,5) by simp
  then show ?thesis
    using r(1) d(3) by blast
qed

end
