(* ===== verification/Ratelimit.thy ===== *)
theory Ratelimit
  imports Models
begin

text \<open>
  Request limits and the sign-in lockout (\<^verbatim>\<open>src/src/chmabapay/ratelimit.py\<close>): which rule governs a
  request, whom it counts against, the fixed-window counter, the per-email failure counter and the
  middleware around every request.

  The counters live in a \<^verbatim>\<open>cachetools.TTLCache\<close>, a third-party container: \<open>ttl_ops\<close> are the operations
  the code calls on it and an argument of every definition, and the locale \<open>ttl_cache\<close> is what the
  code relies on.  The cache may drop an entry at any insertion (it is bounded) and forgets one after
  its time to live; \<open>retentive_cache\<close> adds that nothing else is lost, which holds as long as fewer
  identities than its bound are tracked.  The monotonic clock is an argument of every call, in
  microseconds; Python's floats are idealised to that resolution.
\<close>

section \<open>The cache\<close>

text \<open>\<open>tc_get\<close> also returns the cache, whose recency order a read may change; \<open>tc_mutate\<close> is an
  assignment to fields of the object stored under a key, which does not count as a write.\<close>

record ('c, 'v) ttl_ops =
  tc_empty :: 'c
  tc_get :: "instant \<Rightarrow> string \<Rightarrow> 'c \<Rightarrow> 'v option \<times> 'c"
  tc_set :: "instant \<Rightarrow> string \<Rightarrow> 'v \<Rightarrow> 'c \<Rightarrow> 'c"
  tc_mutate :: "string \<Rightarrow> ('v \<Rightarrow> 'v) \<Rightarrow> 'c \<Rightarrow> 'c"
  tc_pop :: "string \<Rightarrow> 'c \<Rightarrow> 'c"

definition tc_peek :: "('c, 'v) ttl_ops \<Rightarrow> 'c \<Rightarrow> instant \<Rightarrow> string \<Rightarrow> 'v option" where
  "tc_peek C c t k = fst (tc_get C t k c)"

section \<open>Rules and identities\<close>

definition WINDOW_SECONDS :: int where
  "WINDOW_SECONDS = 60"

definition LOGIN_FAILURE_THRESHOLD :: int where
  "LOGIN_FAILURE_THRESHOLD = 5"

definition LOGIN_LOCK_BASE_SECONDS :: int where
  "LOGIN_LOCK_BASE_SECONDS = 60"

definition LOGIN_LOCK_MAX_SECONDS :: int where
  "LOGIN_LOCK_MAX_SECONDS = 3600"

datatype limit_per = PER_KEY | PER_IP

record rule =
  rule_name :: string
  rule_limit :: int
  rule_per :: limit_per

record rate_settings =
  rate_limit_enabled :: bool
  rate_limit_auth_per_minute :: int
  rate_limit_checkout_per_minute :: int
  rate_limit_khqr_per_minute :: int
  rate_limit_api_per_minute :: int
  rate_limit_payment_create_per_minute :: int

definition default_rate_settings :: rate_settings where
  "default_rate_settings = \<lparr>rate_limit_enabled = True, rate_limit_auth_per_minute = 20,
     rate_limit_checkout_per_minute = 120, rate_limit_khqr_per_minute = 60,
     rate_limit_api_per_minute = 600, rate_limit_payment_create_per_minute = 60\<rparr>"

text \<open>What the code reads of a request; header names are lower case, as \<^verbatim>\<open>starlette\<close> compares them.\<close>

record request =
  req_method :: string
  req_path :: string
  req_headers :: "(string \<times> string) list"
  req_cookies :: "(string \<times> string) list"
  req_scheme :: string
  req_hostname :: "string option"
  req_netloc :: string
  req_client :: "string option"

definition header_get :: "request \<Rightarrow> string \<Rightarrow> string option" where
  "header_get r name = map_of (req_headers r) name"

definition starts_with :: "string \<Rightarrow> string \<Rightarrow> bool" where
  "starts_with p s \<longleftrightarrow> take (length p) s = p"

definition ends_with :: "string \<Rightarrow> string \<Rightarrow> bool" where
  "ends_with p s \<longleftrightarrow> starts_with (rev p) (rev s)"

definition rstrip_char :: "char \<Rightarrow> string \<Rightarrow> string" where
  "rstrip_char c s = rev (dropWhile (\<lambda>x. x = c) (rev s))"

definition mints_qr :: "string \<Rightarrow> bool" where
  "mints_qr path \<longleftrightarrow> rstrip_char CHR ''/'' path = ''/api/v1/payments'' \<or>
     (starts_with ''/api/v1/payments/'' path \<and> ends_with ''/reissue'' (rstrip_char CHR ''/'' path))"

definition rule_for :: "rate_settings \<Rightarrow> request \<Rightarrow> rule option" where
  "rule_for s r =
     (let path = req_path r; verb = py_upper (req_method r) in
      if verb = ''OPTIONS'' \<or> path = ''/health'' \<or> starts_with ''/_dev'' path then None
      else if verb = ''POST'' \<and> mints_qr path
        then Some \<lparr>rule_name = ''payment_create'', rule_limit = rate_limit_payment_create_per_minute s,
                   rule_per = PER_KEY\<rparr>
      else if starts_with ''/api/v1/khqr'' path
        then Some \<lparr>rule_name = ''khqr'', rule_limit = rate_limit_khqr_per_minute s, rule_per = PER_IP\<rparr>
      else if starts_with ''/auth'' path \<or> starts_with ''/api/v1/auth'' path
          \<or> starts_with ''/user/google/auth'' path
        then Some \<lparr>rule_name = ''auth'', rule_limit = rate_limit_auth_per_minute s, rule_per = PER_IP\<rparr>
      else if starts_with ''/pay/'' path
        then Some \<lparr>rule_name = ''checkout'', rule_limit = rate_limit_checkout_per_minute s,
                   rule_per = PER_IP\<rparr>
      else if starts_with ''/api/v1/'' path
        then Some \<lparr>rule_name = ''api'', rule_limit = rate_limit_api_per_minute s, rule_per = PER_KEY\<rparr>
      else None)"

definition client_ip :: "request \<Rightarrow> string" where
  "client_ip r =
     (let direct = (case req_client r of Some host \<Rightarrow> host | None \<Rightarrow> ''unknown'') in
      case header_get r ''x-forwarded-for'' of
        None \<Rightarrow> direct
      | Some forwarded \<Rightarrow>
          let first = py_strip (fst (py_partition CHR '','' forwarded)) in
          if forwarded \<noteq> [] \<and> first \<noteq> [] then first else direct)"

text \<open>\<open>hash_key\<close> is the hexadecimal SHA-256 digest of the key, a parameter.\<close>

definition bearer_token :: "request \<Rightarrow> string option" where
  "bearer_token r =
     (let (scheme, token) = py_partition CHR '' '' (or_str (header_get r ''authorization'') []) in
      if py_lower scheme = ''bearer'' \<and> token \<noteq> [] then Some token else None)"

definition identity_for :: "(string \<Rightarrow> string) \<Rightarrow> request \<Rightarrow> rule \<Rightarrow> string" where
  "identity_for hash_key r rl =
     (case (rule_per rl, bearer_token r) of
        (PER_KEY, Some token) \<Rightarrow> ''key:'' @ hash_key token
      | _ \<Rightarrow> ''ip:'' @ client_ip r)"

section \<open>The fixed-window counter\<close>

record window =
  win_started :: instant
  win_count :: int

definition window_key :: "rule \<Rightarrow> string \<Rightarrow> string" where
  "window_key rl identity = rule_name rl @ '':'' @ identity"

text \<open>\<open>int(x)\<close> of a non-negative number of seconds.\<close>

definition whole_seconds :: "int \<Rightarrow> int" where
  "whole_seconds us = (if us \<ge> 0 then us div 1000000 else - ((- us) div 1000000))"

record hit_result =
  hit_allowed :: bool
  hit_remaining :: int
  hit_retry_after :: int

definition current_window :: "instant \<Rightarrow> window option \<Rightarrow> window option" where
  "current_window now found =
     (case found of
        Some w \<Rightarrow> if now - win_started w \<ge> seconds WINDOW_SECONDS then None else Some w
      | None \<Rightarrow> None)"

definition hit :: "('c, window) ttl_ops \<Rightarrow> instant \<Rightarrow> rule \<Rightarrow> string \<Rightarrow> 'c \<Rightarrow> hit_result \<times> 'c" where
  "hit C now rl identity c =
     (let k = window_key rl identity;
          (found, c) = tc_get C now k c;
          (w, c) = (case current_window now found of
             Some w \<Rightarrow> (w, c)
           | None \<Rightarrow> let w = \<lparr>win_started = now, win_count = 0\<rparr> in (w, tc_set C now k w c));
          w = w\<lparr>win_count := win_count w + 1\<rparr>;
          c = tc_mutate C k (\<lambda>_. w) c
      in (\<lparr>hit_allowed = win_count w \<le> rule_limit rl,
           hit_remaining = max 0 (rule_limit rl - win_count w),
           hit_retry_after = max 1 (whole_seconds (seconds WINDOW_SECONDS - (now - win_started w)))\<rparr>, c))"

section \<open>The sign-in lockout\<close>

record login_failures =
  lf_count :: int
  lf_locked_until :: instant

definition locked_for ::
  "('c, login_failures) ttl_ops \<Rightarrow> instant \<Rightarrow> string \<Rightarrow> 'c \<Rightarrow> int \<times> 'c"
where
  "locked_for C now email c =
     (let (found, c) = tc_get C now email c in
      (case found of
         None \<Rightarrow> (0, c)
       | Some e \<Rightarrow> (max 0 (whole_seconds (lf_locked_until e - now)), c)))"

definition login_backoff :: "int \<Rightarrow> int \<Rightarrow> int" where
  "login_backoff threshold count =
     min (LOGIN_LOCK_BASE_SECONDS * 2 ^ nat (count - threshold)) LOGIN_LOCK_MAX_SECONDS"

definition count_failure :: "int \<Rightarrow> instant \<Rightarrow> login_failures option \<Rightarrow> login_failures" where
  "count_failure threshold now found =
     (let e = (case found of Some e \<Rightarrow> e | None \<Rightarrow> \<lparr>lf_count = 0, lf_locked_until = 0\<rparr>);
          e = e\<lparr>lf_count := lf_count e + 1\<rparr>
      in if lf_count e \<ge> threshold
         then e\<lparr>lf_locked_until := now + seconds (login_backoff threshold (lf_count e))\<rparr>
         else e)"

text \<open>The clock is read once for the lock and once more for the answer, at \<open>later\<close>.\<close>

definition record_failure ::
  "('c, login_failures) ttl_ops \<Rightarrow> int \<Rightarrow> instant \<Rightarrow> instant \<Rightarrow> string \<Rightarrow> 'c \<Rightarrow> int \<times> 'c"
where
  "record_failure C threshold now later email c =
     (let (found, c) = tc_get C now email c;
          e = count_failure threshold now found;
          c = tc_set C now email e (tc_mutate C email (\<lambda>_. e) c)
      in locked_for C later email c)"

definition clear_failures :: "('c, login_failures) ttl_ops \<Rightarrow> string \<Rightarrow> 'c \<Rightarrow> 'c" where
  "clear_failures C email c = tc_pop C email c"

text \<open>\<open>reset\<close> of either counter.\<close>

definition reset_counters :: "('c, 'v) ttl_ops \<Rightarrow> 'c \<Rightarrow> 'c" where
  "reset_counters C c = tc_empty C"

section \<open>The middleware\<close>

datatype 'r response =
    RateLimited (rl_rule: rule) (rl_remaining: int) (rl_retry_after: int)
  | Answered (ans_headers: "(int \<times> int) option") (ans_response: 'r)

text \<open>\<open>call_next\<close> is the rest of the application, on its state; the limiter runs before it.  The
  headers of an answered request are its limit and what remains of it.\<close>

definition dispatch ::
  "('c, window) ttl_ops \<Rightarrow> (string \<Rightarrow> string) \<Rightarrow> rate_settings \<Rightarrow> instant \<Rightarrow> request \<Rightarrow>
   ('s \<Rightarrow> 'r \<times> 's) \<Rightarrow> 'c \<Rightarrow> 's \<Rightarrow> 'r response \<times> 'c \<times> 's"
where
  "dispatch C hash_key s now r call_next c st =
     (if \<not> rate_limit_enabled s then (let (x, st) = call_next st in (Answered None x, c, st))
      else case rule_for s r of
        None \<Rightarrow> (let (x, st) = call_next st in (Answered None x, c, st))
      | Some rl \<Rightarrow>
          let (h, c) = hit C now rl (identity_for hash_key r rl) c in
          if \<not> hit_allowed h then (RateLimited rl (hit_remaining h) (hit_retry_after h), c, st)
          else let (x, st) = call_next st in
            (Answered (Some (rule_limit rl, hit_remaining h)) x, c, st))"

section \<open>What the code relies on\<close>

locale ttl_cache =
  fixes C :: "('c, 'v) ttl_ops"
  assumes peek_after_get: "tc_peek C (snd (tc_get C t k c)) t' k' = tc_peek C c t' k'"
    and peek_empty: "tc_peek C (tc_empty C) t k = None"
    and set_same: "tc_peek C (tc_set C t k v c) t' k \<in> {None, Some v}"
    and set_other: "k' \<noteq> k \<Longrightarrow> tc_peek C (tc_set C t k v c) t' k' \<in> {None, tc_peek C c t' k'}"
    and peek_mutate: "tc_peek C (tc_mutate C k f c) t' k' =
      (if k' = k then map_option f (tc_peek C c t' k') else tc_peek C c t' k')"
    and peek_pop: "tc_peek C (tc_pop C k c) t' k' = (if k' = k then None else tc_peek C c t' k')"

locale retentive_cache = ttl_cache C
  for C :: "('c, 'v) ttl_ops" +
  fixes ttl :: int
  assumes kept_same: "t \<le> t' \<Longrightarrow> t' < t + ttl \<Longrightarrow> tc_peek C (tc_set C t k v c) t' k = Some v"
    and kept_other: "k' \<noteq> k \<Longrightarrow> tc_peek C (tc_set C t k v c) t' k' = tc_peek C c t' k'"

text \<open>A bounded cache for the concrete instances: a list of entries, newest first, of which
  \<open>maxsize\<close> are kept, all of them when it is \<open>None\<close>.\<close>

type_synonym 'v entries = "(string \<times> 'v \<times> instant) list"

definition list_cache :: "int \<Rightarrow> nat option \<Rightarrow> ('v entries, 'v) ttl_ops" where
  "list_cache ttl maxsize = \<lparr>tc_empty = [],
     tc_get = (\<lambda>t k c. (case map_of c k of Some (v, e) \<Rightarrow> if t < e then Some v else None | None \<Rightarrow> None, c)),
     tc_set = (\<lambda>t k v c. let c = (k, v, t + ttl) # filter (\<lambda>x. fst x \<noteq> k) c
                         in case maxsize of None \<Rightarrow> c | Some n \<Rightarrow> take n c),
     tc_mutate = (\<lambda>k f c. map (\<lambda>(k', v, e). (k', if k' = k then f v else v, e)) c),
     tc_pop = (\<lambda>k c. filter (\<lambda>x. fst x \<noteq> k) c)\<rparr>"

lemma list_cache_peek:
  "tc_peek (list_cache ttl m) c t k =
     (case map_of c k of Some (v, e) \<Rightarrow> if t < e then Some v else None | None \<Rightarrow> None)"
  by (simp add: tc_peek_def list_cache_def)

lemma map_of_mutate:
  "map_of (map (\<lambda>(k', v, e). (k', if k' = k then f v else v, e)) c) j =
     (if j = k then map_option (\<lambda>(v, e). (f v, e)) (map_of c j) else map_of c j)"
  by (induction c) auto

lemma map_of_filter_key: "map_of (filter (\<lambda>x. fst x \<noteq> k) c) j = (if j = k then None else map_of c j)"
  by (induction c) auto

lemma map_of_take: "map_of (take n c) j \<in> {None, map_of c j}"
proof (induction c arbitrary: n)
  case (Cons x c)
  then show ?case
    by (cases n) auto
qed simp

lemma list_cache_laws: "ttl_cache (list_cache ttl m)"
proof unfold_locales
  fix t k c t' k' and v :: 'a and f :: "'a \<Rightarrow> 'a"
  let ?C = "list_cache ttl m :: ('a entries, 'a) ttl_ops"
  show "tc_peek ?C (snd (tc_get ?C t k c)) t' k' = tc_peek ?C c t' k'"
    by (simp add: tc_peek_def list_cache_def)
  show "tc_peek ?C (tc_empty ?C) t k = None"
    by (simp add: tc_peek_def list_cache_def)
  show "tc_peek ?C (tc_mutate ?C k f c) t' k' =
      (if k' = k then map_option f (tc_peek ?C c t' k') else tc_peek ?C c t' k')"
    unfolding list_cache_peek by (auto simp: list_cache_def map_of_mutate split: option.splits)
  show "tc_peek ?C (tc_pop ?C k c) t' k' = (if k' = k then None else tc_peek ?C c t' k')"
    unfolding list_cache_peek by (simp add: list_cache_def map_of_filter_key)
  define full where "full = (k, v, t + ttl) # filter (\<lambda>x. fst x \<noteq> k) c"
  have "tc_set ?C t k v c = (case m of None \<Rightarrow> full | Some n \<Rightarrow> take n full)"
    unfolding full_def by (simp add: list_cache_def Let_def)
  then have kept: "map_of (tc_set ?C t k v c) j \<in> {None, map_of full j}" for j
    using map_of_take [of "the m" full j] by (cases m) simp_all
  show "tc_peek ?C (tc_set ?C t k v c) t' k \<in> {None, Some v}"
    using kept [of k] unfolding list_cache_peek by (auto simp: full_def split: option.splits)
  show "tc_peek ?C (tc_set ?C t k v c) t' k' \<in> {None, tc_peek ?C c t' k'}" if "k' \<noteq> k"
    using kept [of k'] that unfolding list_cache_peek
    by (auto simp: full_def map_of_filter_key split: option.splits)
qed

interpretation bounded: ttl_cache "list_cache ttl m" for ttl m
  by (rule list_cache_laws)

lemma list_cache_retentive: "retentive_cache (list_cache ttl None) ttl"
proof (intro retentive_cache.intro list_cache_laws, unfold_locales)
  fix t t' k v c k'
  let ?C = "list_cache ttl None :: ('a entries, 'a) ttl_ops"
  show "tc_peek ?C (tc_set ?C t k v c) t' k = Some v" if "t \<le> t'" "t' < t + ttl"
    using that unfolding list_cache_peek by (simp add: list_cache_def)
  show "tc_peek ?C (tc_set ?C t k v c) t' k' = tc_peek ?C c t' k'" if "k' \<noteq> k"
    using that unfolding list_cache_peek by (simp add: list_cache_def map_of_filter_key)
qed

interpretation unbounded: retentive_cache "list_cache ttl None" ttl for ttl
  by (rule list_cache_retentive)

section \<open>Traces of requests\<close>

text \<open>The answers to a sequence of requests: the time, the rule and the identity of each.\<close>

type_synonym arrival = "instant \<times> rule \<times> string"

fun hits :: "('c, window) ttl_ops \<Rightarrow> 'c \<Rightarrow> arrival list \<Rightarrow> hit_result list" where
  "hits C c [] = []"
| "hits C c ((t, rl, i) # xs) = (let (h, c) = hit C t rl i c in h # hits C c xs)"

abbreviation arrival_key :: "arrival \<Rightarrow> string" where
  "arrival_key x \<equiv> window_key (fst (snd x)) (snd (snd x))"

abbreviation arrival_limit :: "arrival \<Rightarrow> int" where
  "arrival_limit x \<equiv> rule_limit (fst (snd x))"

text \<open>The specification: one window per key, never forgotten.\<close>

type_synonym windows = "string \<rightharpoonup> window"

definition next_window :: "instant \<Rightarrow> window option \<Rightarrow> window" where
  "next_window now found =
     (let w = (case current_window now found of Some w \<Rightarrow> w | None \<Rightarrow> \<lparr>win_started = now, win_count = 0\<rparr>)
      in w\<lparr>win_count := win_count w + 1\<rparr>)"

definition window_answer :: "instant \<Rightarrow> rule \<Rightarrow> window \<Rightarrow> hit_result" where
  "window_answer now rl w =
     \<lparr>hit_allowed = win_count w \<le> rule_limit rl,
      hit_remaining = max 0 (rule_limit rl - win_count w),
      hit_retry_after = max 1 (whole_seconds (seconds WINDOW_SECONDS - (now - win_started w)))\<rparr>"

fun spec_hits :: "windows \<Rightarrow> arrival list \<Rightarrow> hit_result list" where
  "spec_hits m [] = []"
| "spec_hits m ((t, rl, i) # xs) =
     (let k = window_key rl i; w = next_window t (m k)
      in window_answer t rl w # spec_hits (m(k \<mapsto> w)) xs)"

lemma hit_eq:
  "hit C now rl i c =
     (let k = window_key rl i; found = tc_peek C c now k; w = next_window now found;
          c = snd (tc_get C now k c);
          c = (if current_window now found = None
               then tc_set C now k \<lparr>win_started = now, win_count = 0\<rparr> c else c)
      in (window_answer now rl w, tc_mutate C k (\<lambda>_. w) c))"
  by (simp add: hit_def tc_peek_def next_window_def window_answer_def Let_def case_prod_unfold
      split: option.split)

lemma current_window_Some:
  "current_window now found = Some w \<longleftrightarrow> found = Some w \<and> now - win_started w < seconds WINDOW_SECONDS"
  by (auto simp: current_window_def split: option.splits)

lemma current_window_cases:
  obtains (keep) w where "found = Some w" "now < win_started w + seconds WINDOW_SECONDS"
      "current_window now found = Some w" "next_window now found = w\<lparr>win_count := win_count w + 1\<rparr>"
  | (fresh) "current_window now found = None" "next_window now found = \<lparr>win_started = now, win_count = 1\<rparr>"
      "\<And>w. found = Some w \<Longrightarrow> win_started w + seconds WINDOW_SECONDS \<le> now"
proof (cases "current_window now found")
  case None
  then have "win_started w + seconds WINDOW_SECONDS \<le> now" if "found = Some w" for w
    using that by (simp add: current_window_def split: if_splits)
  with None fresh show thesis
    by (simp add: next_window_def)
next
  case (Some w)
  then have "found = Some w" "now < win_started w + seconds WINDOW_SECONDS"
    by (simp_all add: current_window_Some algebra_simps)
  with Some show thesis
    using keep [of w] by (simp add: next_window_def)
qed

lemma peek_hit_other:
  assumes "ttl_cache C" "j \<noteq> window_key rl i"
  shows "tc_peek C (snd (hit C now rl i c)) t j \<in> {None, tc_peek C c t j}"
    and "retentive_cache C ttl \<Longrightarrow> tc_peek C (snd (hit C now rl i c)) t j = tc_peek C c t j"
proof -
  note laws = ttl_cache.peek_mutate [OF assms(1)] ttl_cache.peek_after_get [OF assms(1)]
  show "tc_peek C (snd (hit C now rl i c)) t j \<in> {None, tc_peek C c t j}"
    using ttl_cache.set_other [OF assms, of now "\<lparr>win_started = now, win_count = 0\<rparr>"
        "snd (tc_get C now (window_key rl i) c)" t] assms(2)
    by (simp add: hit_eq Let_def laws)
  show "tc_peek C (snd (hit C now rl i c)) t j = tc_peek C c t j" if "retentive_cache C ttl"
    using retentive_cache.kept_other [OF that assms(2)] assms(2) by (auto simp: hit_eq Let_def laws)
qed

lemma peek_hit_same:
  assumes "ttl_cache C" and "k = window_key rl i" and w_def: "w = next_window now (tc_peek C c now k)"
  shows "tc_peek C (snd (hit C now rl i c)) t k \<in> {None, Some w}"
    and "retentive_cache C ttl \<Longrightarrow> now \<le> t \<Longrightarrow> t < now + ttl \<Longrightarrow> current_window now (tc_peek C c now k) = None
      \<Longrightarrow> tc_peek C (snd (hit C now rl i c)) t k = Some w"
    and "current_window now (tc_peek C c now k) = Some w' \<Longrightarrow> tc_peek C c t k = Some w''
      \<Longrightarrow> tc_peek C (snd (hit C now rl i c)) t k = Some w"
proof -
  note laws = ttl_cache.peek_mutate [OF assms(1)] ttl_cache.peek_after_get [OF assms(1)]
  show "tc_peek C (snd (hit C now rl i c)) t k \<in> {None, Some w}"
    by (auto simp: hit_eq Let_def laws assms(2) w_def)
  show "tc_peek C (snd (hit C now rl i c)) t k = Some w"
    if "retentive_cache C ttl" "now \<le> t" "t < now + ttl" "current_window now (tc_peek C c now k) = None"
    using that retentive_cache.kept_same [OF that(1-3)] by (simp add: hit_eq Let_def laws assms(2) w_def)
  show "tc_peek C (snd (hit C now rl i c)) t k = Some w"
    if "current_window now (tc_peek C c now k) = Some w'" "tc_peek C c t k = Some w''"
    using that by (simp add: hit_eq Let_def laws assms(2) w_def)
qed

text \<open>As long as nothing is evicted the cache's own expiry never shows: an entry is dropped only once
  its window is over.\<close>

definition tracks :: "('c, window) ttl_ops \<Rightarrow> 'c \<Rightarrow> instant \<Rightarrow> windows \<Rightarrow> bool" where
  "tracks C c now m \<longleftrightarrow> (\<forall>k t. now \<le> t \<longrightarrow>
     (case m k of None \<Rightarrow> tc_peek C c t k = None
      | Some w \<Rightarrow> win_started w \<le> now \<and> tc_peek C c t k \<in> {None, Some w} \<and>
          (t < win_started w + seconds WINDOW_SECONDS \<longrightarrow> tc_peek C c t k = Some w)))"

lemma tracksD:
  assumes "tracks C c now m" "now \<le> t"
  shows "m k = None \<Longrightarrow> tc_peek C c t k = None"
    and "m k = Some w \<Longrightarrow> win_started w \<le> now \<and> tc_peek C c t k \<in> {None, Some w} \<and>
      (t < win_started w + seconds WINDOW_SECONDS \<longrightarrow> tc_peek C c t k = Some w)"
  using assms(1) [unfolded tracks_def, rule_format, OF assms(2), of k] by simp_all

lemma tracks_peek:
  assumes "tracks C c now m" "now \<le> t"
  shows "current_window t (tc_peek C c t k) = current_window t (m k)"
proof (cases "m k")
  case None
  then show ?thesis
    by (simp add: tracksD(1) [OF assms])
next
  case (Some w)
  then show ?thesis
    using tracksD(2) [OF assms Some] by (auto simp: current_window_def)
qed

lemma tracks_hit:
  assumes C: "retentive_cache C (seconds WINDOW_SECONDS)" and tr: "tracks C c now m" and t: "now \<le> t"
    and k: "k = window_key rl i"
  shows "tracks C (snd (hit C t rl i c)) t (m(k \<mapsto> next_window t (m k)))"
    and "next_window t (tc_peek C c t k) = next_window t (m k)"
proof -
  have C': "ttl_cache C"
    using C by (rule retentive_cache.axioms)
  have cur: "current_window t (tc_peek C c t k) = current_window t (m k)"
    by (rule tracks_peek [OF tr t])
  then show nw: "next_window t (tc_peek C c t k) = next_window t (m k)"
    by (simp add: next_window_def)
  note same = peek_hit_same [OF C' k nw [symmetric], unfolded cur]
  show "tracks C (snd (hit C t rl i c)) t (m(k \<mapsto> next_window t (m k)))"
    unfolding tracks_def
  proof (intro allI impI)
    fix j u
    assume u: "t \<le> u"
    show "case (m(k \<mapsto> next_window t (m k))) j of None \<Rightarrow> tc_peek C (snd (hit C t rl i c)) u j = None
      | Some w \<Rightarrow> win_started w \<le> t \<and> tc_peek C (snd (hit C t rl i c)) u j \<in> {None, Some w} \<and>
          (u < win_started w + seconds WINDOW_SECONDS \<longrightarrow> tc_peek C (snd (hit C t rl i c)) u j = Some w)"
    proof (cases "j = k")
      case False
      have "now \<le> u"
        using t u by simp
      note D = tracksD [OF tr this]
      have "tc_peek C (snd (hit C t rl i c)) u j = tc_peek C c u j"
        using peek_hit_other(2) [OF C' False [unfolded k] C] .
      then show ?thesis
        using False D(1) [of j] D(2) [of j] t by (auto split: option.split)
    next
      case True
      show ?thesis
      proof (cases rule: current_window_cases [of "m k" t])
        case (keep w)
        have "win_started w \<le> t" "u < win_started w + seconds WINDOW_SECONDS \<longrightarrow> tc_peek C c u k = Some w"
          using tracksD(2) [OF tr _ keep(1), of u] t u by auto
        then show ?thesis
          using True keep same(1) [of u] same(3) [of w u w] by auto
      next
        case fresh
        then show ?thesis
          using True u same(1) [of u] same(2) [OF C u] by auto
      qed
    qed
  qed
qed

lemma hits_spec_hits:
  assumes "retentive_cache C (seconds WINDOW_SECONDS)"
  shows "tracks C c now m \<Longrightarrow> sorted (map fst xs) \<Longrightarrow> (\<And>x. x \<in> set xs \<Longrightarrow> now \<le> fst x) \<Longrightarrow>
    hits C c xs = spec_hits m xs"
proof (induction xs arbitrary: c m now)
  case (Cons x xs)
  obtain t rl i where x: "x = (t, rl, i)"
    by (cases x)
  have t: "now \<le> t"
    using Cons.prems(3) [of x] x by simp
  note step = tracks_hit [OF assms Cons.prems(1) t refl, of rl i]
  have "hits C (snd (hit C t rl i c)) xs =
      spec_hits (m(window_key rl i \<mapsto> next_window t (m (window_key rl i)))) xs"
    using Cons.prems(2) x by (intro Cons.IH [OF step(1)]) auto
  moreover have "fst (hit C t rl i c) = window_answer t rl (next_window t (m (window_key rl i)))"
    using step(2) by (simp add: hit_eq Let_def)
  ultimately show ?case
    by (simp add: x Let_def case_prod_unfold)
qed simp

lemma tracks_empty: "ttl_cache C \<Longrightarrow> tracks C (tc_empty C) now Map.empty"
  by (simp add: tracks_def ttl_cache.peek_empty)

text \<open>Counting the requests of one key that are let through during an interval of one window.\<close>

definition admitted :: "string \<Rightarrow> instant \<Rightarrow> arrival list \<Rightarrow> hit_result list \<Rightarrow> nat" where
  "admitted k a xs hs = length (filter (\<lambda>(x, h). hit_allowed h \<and> arrival_key x = k \<and>
     a \<le> fst x \<and> fst x < a + seconds WINDOW_SECONDS) (zip xs hs))"

lemma admitted_Cons:
  "admitted k a (x # xs) (h # hs) =
     (if hit_allowed h \<and> arrival_key x = k \<and> a \<le> fst x \<and> fst x < a + seconds WINDOW_SECONDS then 1 else 0) +
     admitted k a xs hs"
  by (simp add: admitted_def)

lemma spec_hits_step:
  "spec_hits m (x # xs) =
     (let w = next_window (fst x) (m (arrival_key x))
      in window_answer (fst x) (fst (snd x)) w # spec_hits (m(arrival_key x \<mapsto> w)) xs)"
  by (cases x) (simp add: Let_def)

lemma hit_allowed_answer [simp]: "hit_allowed (window_answer t rl w) \<longleftrightarrow> win_count w \<le> rule_limit rl"
  by (simp add: window_answer_def)

text \<open>A window that began inside the interval outlasts it: only what it has left is let through.\<close>

lemma admitted_inside:
  assumes "m k = Some w" "a \<le> win_started w"
    and "\<And>x. x \<in> set xs \<Longrightarrow> arrival_key x = k \<Longrightarrow> arrival_limit x = L"
    and "sorted (map fst xs)"
  shows "admitted k a xs (spec_hits m xs) \<le> nat (L - win_count w)"
  using assms
proof (induction xs arbitrary: m w)
  case Nil
  then show ?case by (simp add: admitted_def)
next
  case (Cons x xs)
  show ?case
  proof (cases "arrival_key x = k")
    case False
    then have "admitted k a xs (spec_hits (m(arrival_key x \<mapsto> next_window (fst x) (m (arrival_key x)))) xs)
        \<le> nat (L - win_count w)"
      using Cons.prems by (intro Cons.IH) auto
    with False show ?thesis
      by (simp add: spec_hits_step Let_def admitted_Cons)
  next
    case True
    let ?v = "next_window (fst x) (m k)"
    have IH: "admitted k a xs (spec_hits (m(k \<mapsto> ?v)) xs) \<le> nat (L - win_count ?v)" if "a \<le> win_started ?v"
      using Cons.prems that by (intro Cons.IH) auto
    have L: "arrival_limit x = L"
      using Cons.prems(3) True by simp
    show ?thesis
    proof (cases rule: current_window_cases [of "m k" "fst x"])
      case (keep w')
      then have "w' = w" using Cons.prems(1) by simp
      with keep IH L True Cons.prems(2) show ?thesis
        by (simp add: spec_hits_step Let_def admitted_Cons; linarith)
    next
      case fresh
      have out: "a + seconds WINDOW_SECONDS \<le> fst x"
        using fresh(3) [OF Cons.prems(1)] Cons.prems(2) by simp
      have "admitted k a xs hs = 0" for hs
        using Cons.prems(4) out by (auto simp: admitted_def filter_empty_conv dest!: set_zip_leftD)
      with out True show ?thesis
        by (simp add: spec_hits_step Let_def admitted_Cons)
    qed
  qed
qed

lemma next_window_count: "(\<And>w. found = Some w \<Longrightarrow> 1 \<le> win_count w) \<Longrightarrow> 1 \<le> win_count (next_window now found)"
  by (cases rule: current_window_cases [of found now]) auto

text \<open>An interval meets at most two windows, and the request that opened the first came before it.\<close>

lemma admitted_spanning:
  assumes "\<And>w. m k = Some w \<Longrightarrow> 1 \<le> win_count w"
    and "\<And>x. x \<in> set xs \<Longrightarrow> arrival_key x = k \<Longrightarrow> arrival_limit x = L"
    and "sorted (map fst xs)" and "\<And>x. x \<in> set xs \<Longrightarrow> a \<le> fst x"
  shows "admitted k a xs (spec_hits m xs) \<le>
    (case m k of None \<Rightarrow> 0 | Some w \<Rightarrow> nat (L - win_count w)) + nat L"
  using assms
proof (induction xs arbitrary: m)
  case Nil
  then show ?case by (simp add: admitted_def)
next
  case (Cons x xs)
  define m' where "m' = m(arrival_key x \<mapsto> next_window (fst x) (m (arrival_key x)))"
  have IH: "admitted k a xs (spec_hits m' xs) \<le>
      (case m' k of None \<Rightarrow> 0 | Some w \<Rightarrow> nat (L - win_count w)) + nat L"
    by (rule Cons.IH) (use Cons.prems next_window_count [of "m k" "fst x"] in \<open>auto simp: m'_def split: if_splits\<close>)
  have step: "spec_hits m (x # xs) =
      window_answer (fst x) (fst (snd x)) (next_window (fst x) (m (arrival_key x))) # spec_hits m' xs"
    by (simp add: spec_hits_step Let_def m'_def)
  show ?case
  proof (cases "arrival_key x = k")
    case False
    then have "m' k = m k"
      by (simp add: m'_def)
    with IH False show ?thesis
      by (simp add: step admitted_Cons)
  next
    case True
    then have m': "m' k = Some (next_window (fst x) (m k))" and L: "arrival_limit x = L" and a: "a \<le> fst x"
      using Cons.prems by (auto simp: m'_def)
    show ?thesis
    proof (cases rule: current_window_cases [of "m k" "fst x"])
      case (keep w)
      with IH m' have "admitted k a xs (spec_hits m' xs) \<le> nat (L - (win_count w + 1)) + nat L"
        by simp
      with keep L True show ?thesis
        by (simp add: step admitted_Cons; linarith)
    next
      case fresh
      then have "admitted k a xs (spec_hits m' xs) \<le> nat (L - 1)"
        using admitted_inside [of m' k "next_window (fst x) (m k)" a xs L, OF m'] Cons.prems a by simp
      with fresh L True show ?thesis
        by (simp add: step admitted_Cons; linarith)
    qed
  qed
qed

lemma admitted_bound:
  assumes "\<And>w. m k = Some w \<Longrightarrow> 1 \<le> win_count w"
    and "\<And>x. x \<in> set xs \<Longrightarrow> arrival_key x = k \<Longrightarrow> arrival_limit x = L"
    and "sorted (map fst xs)"
  shows "admitted k a xs (spec_hits m xs) \<le> 2 * nat L - 1"
  using assms
proof (induction xs arbitrary: m)
  case Nil
  then show ?case by (simp add: admitted_def)
next
  case (Cons x xs)
  show ?case
  proof (cases "a \<le> fst x")
    case True
    then have "a \<le> fst y" if "y \<in> set (x # xs)" for y
      using that Cons.prems(3) by auto
    note all = this
    have bound: "admitted k a (x # xs) (spec_hits m (x # xs)) \<le>
        (case m k of None \<Rightarrow> 0 | Some w \<Rightarrow> nat (L - win_count w)) + nat L"
      by (rule admitted_spanning) (use Cons.prems all in auto)
    show ?thesis
    proof (cases "m k")
      case None
      with bound show ?thesis by simp
    next
      case (Some w)
      with bound Cons.prems(1) [OF Some] show ?thesis by simp
    qed
  next
    case False
    let ?m = "m(arrival_key x \<mapsto> next_window (fst x) (m (arrival_key x)))"
    have "admitted k a xs (spec_hits ?m xs) \<le> 2 * nat L - 1"
      using Cons.prems next_window_count [of "m k" "fst x"] by (intro Cons.IH) (auto split: if_splits)
    with False show ?thesis
      by (simp add: spec_hits_step Let_def admitted_Cons)
  qed
qed

text \<open>Under eviction a counter is never ahead of the requests that were made.\<close>

fun after_hits :: "('c, window) ttl_ops \<Rightarrow> 'c \<Rightarrow> arrival list \<Rightarrow> 'c" where
  "after_hits C c [] = c"
| "after_hits C c ((t, rl, i) # xs) = after_hits C (snd (hit C t rl i c)) xs"

lemma hits_snoc:
  "hits C c (xs @ [(t, rl, i)]) = hits C c xs @ [fst (hit C t rl i (after_hits C c xs))]"
  by (induction C c xs rule: after_hits.induct) (simp_all add: case_prod_unfold Let_def)

lemma after_hits_snoc: "after_hits C c (xs @ [(t, rl, i)]) = snd (hit C t rl i (after_hits C c xs))"
  by (induction C c xs rule: after_hits.induct) simp_all

definition made_since :: "string \<Rightarrow> instant \<Rightarrow> arrival list \<Rightarrow> int" where
  "made_since k s xs = int (length (filter (\<lambda>x. arrival_key x = k \<and> s \<le> fst x) xs))"

definition not_ahead :: "('c, window) ttl_ops \<Rightarrow> 'c \<Rightarrow> instant \<Rightarrow> arrival list \<Rightarrow> bool" where
  "not_ahead C c now xs \<longleftrightarrow>
     (\<forall>k t w. tc_peek C c t k = Some w \<longrightarrow> win_started w \<le> now \<and> win_count w \<le> made_since k (win_started w) xs)"

lemma made_since_snoc [simp]:
  "made_since k s (xs @ [x]) = made_since k s xs + (if arrival_key x = k \<and> s \<le> fst x then 1 else 0)"
  by (simp add: made_since_def)

lemma made_since_mono: "s \<le> s' \<Longrightarrow> made_since k s' xs \<le> made_since k s xs"
  unfolding made_since_def by (induction xs) auto

lemma made_since_nonneg [simp]: "0 \<le> made_since k s xs"
  by (simp add: made_since_def)

lemma not_ahead_next:
  assumes "not_ahead C c now xs" "now \<le> t" "k = window_key rl i"
  shows "win_started (next_window t (tc_peek C c t k)) \<le> t"
    and "win_count (next_window t (tc_peek C c t k)) \<le>
      made_since k (win_started (next_window t (tc_peek C c t k))) (xs @ [(t, rl, i)])"
    and "t < win_started (next_window t (tc_peek C c t k)) + seconds WINDOW_SECONDS"
proof -
  have "win_started w \<le> now \<and> win_count w \<le> made_since k (win_started w) xs" if "tc_peek C c t k = Some w" for w
    using assms(1) that by (simp add: not_ahead_def)
  then show "win_started (next_window t (tc_peek C c t k)) \<le> t"
    and "win_count (next_window t (tc_peek C c t k)) \<le>
      made_since k (win_started (next_window t (tc_peek C c t k))) (xs @ [(t, rl, i)])"
    and "t < win_started (next_window t (tc_peek C c t k)) + seconds WINDOW_SECONDS"
    using assms(2,3) by (cases rule: current_window_cases [of "tc_peek C c t k" t];
        force simp: seconds_def WINDOW_SECONDS_def)+
qed

lemma not_ahead_hit:
  assumes C: "ttl_cache C" and past: "not_ahead C c now xs" and t: "now \<le> t"
  shows "not_ahead C (snd (hit C t rl i c)) t (xs @ [(t, rl, i)])"
  unfolding not_ahead_def
proof (intro allI impI)
  fix k u w
  assume w: "tc_peek C (snd (hit C t rl i c)) u k = Some w"
  show "win_started w \<le> t \<and> win_count w \<le> made_since k (win_started w) (xs @ [(t, rl, i)])"
  proof (cases "k = window_key rl i")
    case True
    then have "w = next_window t (tc_peek C c t k)"
      using w peek_hit_same(1) [OF C True refl, of t c u] by simp
    then show ?thesis
      using not_ahead_next [OF past t True] by simp
  next
    case False
    then have "tc_peek C c u k = Some w"
      using w peek_hit_other(1) [OF C False, of t c u] by auto
    then have "win_started w \<le> now \<and> win_count w \<le> made_since k (win_started w) xs"
      using past by (simp add: not_ahead_def)
    then show ?thesis
      using t by simp
  qed
qed

lemma not_ahead_after:
  assumes "ttl_cache C" "sorted (map fst xs)" "\<And>x. x \<in> set xs \<Longrightarrow> fst x \<le> now"
  shows "not_ahead C (after_hits C (tc_empty C) xs) now xs"
  using assms(2,3)
proof (induction xs arbitrary: now rule: rev_induct)
  case Nil
  then show ?case
    by (simp add: not_ahead_def ttl_cache.peek_empty [OF assms(1)])
next
  case (snoc x xs)
  obtain t rl i where x: "x = (t, rl, i)"
    by (cases x)
  have "not_ahead C (after_hits C (tc_empty C) xs) t xs"
    using snoc x by (intro snoc.IH) (auto simp: sorted_append)
  then have "not_ahead C (after_hits C (tc_empty C) (xs @ [x])) t (xs @ [x])"
    using not_ahead_hit [OF assms(1)] x by (simp add: after_hits_snoc)
  then show ?case
    using snoc.prems(2) [of x] x by (fastforce simp: not_ahead_def)
qed

section \<open>The lockout schedule\<close>

lemma record_failure_eq:
  "record_failure C threshold now later email c =
     (let e = count_failure threshold now (tc_peek C c now email)
      in locked_for C later email (tc_set C now email e (tc_mutate C email (\<lambda>_. e) (snd (tc_get C now email c)))))"
  by (simp add: record_failure_def tc_peek_def Let_def case_prod_unfold)

lemma locked_for_eq:
  "fst (locked_for C now email c) =
     (case tc_peek C c now email of None \<Rightarrow> 0 | Some e \<Rightarrow> max 0 (whole_seconds (lf_locked_until e - now)))"
  "snd (locked_for C now email c) = snd (tc_get C now email c)"
  by (simp_all add: locked_for_def tc_peek_def case_prod_unfold Let_def split: option.splits)

text \<open>The record of an email after \<open>n\<close> failures, the last of them at \<open>t\<close>.\<close>

definition failed_times :: "int \<Rightarrow> instant \<Rightarrow> login_failures" where
  "failed_times n t = \<lparr>lf_count = n,
     lf_locked_until = (if n \<ge> LOGIN_FAILURE_THRESHOLD then t + seconds (login_backoff LOGIN_FAILURE_THRESHOLD n) else 0)\<rparr>"

lemma count_failure_times:
  "1 \<le> n \<Longrightarrow> count_failure LOGIN_FAILURE_THRESHOLD now (Some (failed_times n t)) = failed_times (n + 1) now"
  "count_failure LOGIN_FAILURE_THRESHOLD now None = failed_times 1 now"
  by (auto simp: count_failure_def failed_times_def Let_def LOGIN_FAILURE_THRESHOLD_def)

locale lockout_cache = retentive_cache C "seconds LOGIN_LOCK_MAX_SECONDS"
  for C :: "('c, login_failures) ttl_ops"
begin

lemma peek_record_failure:
  assumes "now \<le> t" "t < now + seconds LOGIN_LOCK_MAX_SECONDS"
  shows "tc_peek C (snd (record_failure C threshold now later email c)) t email =
    Some (count_failure threshold now (tc_peek C c now email))"
  using assms by (simp add: record_failure_eq Let_def locked_for_eq peek_after_get kept_same)

end

interpretation lockout: lockout_cache "list_cache (seconds LOGIN_LOCK_MAX_SECONDS) None"
  by (intro lockout_cache.intro list_cache_retentive)

section \<open>Properties\<close>

text \<open>C18. Whatever the traffic, while no counter is evicted, no identity gets more than \<open>2 * limit - 1\<close>
  requests of a rule through during any sixty seconds: an interval meets at most two fixed windows,
  and the request that opened the earlier one came before it.  The bound is reached.\<close>

theorem rate_limit_per_interval:
  assumes "retentive_cache C (seconds WINDOW_SECONDS)" and "sorted (map fst xs)"
    and "\<And>x. x \<in> set xs \<Longrightarrow> arrival_key x = k \<Longrightarrow> arrival_limit x = L"
  shows "admitted k a xs (hits C (tc_empty C) xs) \<le> 2 * nat L - 1"
proof (cases xs)
  case Nil
  then show ?thesis by (simp add: admitted_def)
next
  case (Cons x ys)
  have "hits C (tc_empty C) xs = spec_hits Map.empty xs"
    using assms(1,2) Cons
    by (intro hits_spec_hits [where now = "fst x"] tracks_empty retentive_cache.axioms(1)) auto
  then show ?thesis
    using admitted_bound [of Map.empty k xs L a] assms(2,3) by simp
qed

definition demo_rule :: rule where
  "demo_rule = \<lparr>rule_name = ''payment_create'', rule_limit = 2, rule_per = PER_KEY\<rparr>"

definition demo_arrivals :: "arrival list" where
  "demo_arrivals = map (\<lambda>t. (seconds t, demo_rule, ''key:a'')) [0, 59, 60, 61, 62]"

theorem rate_limit_per_interval_witness:
  "admitted ''payment_create:key:a'' (seconds 59) demo_arrivals
     (hits (list_cache (seconds WINDOW_SECONDS) None) [] demo_arrivals) \<le> 3 \<and>
   admitted ''payment_create:key:a'' (seconds 59) demo_arrivals
     (hits (list_cache (seconds WINDOW_SECONDS) None) [] demo_arrivals) = 3"
proof
  have "sorted (map fst demo_arrivals)"
    by code_simp
  moreover have "\<And>x. x \<in> set demo_arrivals \<Longrightarrow> arrival_limit x = 2"
    by (auto simp: demo_arrivals_def demo_rule_def)
  ultimately show "admitted ''payment_create:key:a'' (seconds 59) demo_arrivals
      (hits (list_cache (seconds WINDOW_SECONDS) None) [] demo_arrivals) \<le> 3"
    using rate_limit_per_interval [OF list_cache_retentive, of demo_arrivals "''payment_create:key:a''" 2 "seconds 59"]
    by (simp add: list_cache_def)
  show "admitted ''payment_create:key:a'' (seconds 59) demo_arrivals
     (hits (list_cache (seconds WINDOW_SECONDS) None) [] demo_arrivals) = 3"
    by code_simp
qed

text \<open>The limiter fails open: however the cache evicts its entries, a request is refused only when
  its identity has made more than \<open>limit\<close> requests of that rule, this one included, in the last
  sixty seconds.\<close>

theorem rate_limit_refusal_justified:
  assumes "ttl_cache C" and "sorted (map fst (xs @ [(t, rl, i)]))"
    and "\<not> hit_allowed (last (hits C (tc_empty C) (xs @ [(t, rl, i)])))"
  shows "rule_limit rl <
    int (length (filter (\<lambda>x. arrival_key x = window_key rl i \<and> t - seconds WINDOW_SECONDS < fst x) (xs @ [(t, rl, i)])))"
proof -
  let ?c = "after_hits C (tc_empty C) xs" and ?k = "window_key rl i"
  let ?w = "next_window t (tc_peek C ?c t ?k)"
  have past: "not_ahead C ?c t xs"
    using assms(2) by (intro not_ahead_after [OF assms(1)]) (auto simp: sorted_append)
  note w = not_ahead_next [OF past order_refl refl, of rl i]
  have "rule_limit rl < win_count ?w"
    using assms(3) by (simp add: hits_snoc hit_eq Let_def)
  also have "\<dots> \<le> made_since ?k (win_started ?w) (xs @ [(t, rl, i)])"
    by (rule w(2))
  also have "\<dots> \<le> made_since ?k (t - seconds WINDOW_SECONDS + 1) (xs @ [(t, rl, i)])"
    using w(3) by (intro made_since_mono) simp
  finally show ?thesis
    by (simp only: made_since_def zless_add1_eq [symmetric] add1_zle_eq)
qed

theorem rate_limit_refusal_justified_witness:
  "rule_limit demo_rule <
    int (length (filter (\<lambda>x. arrival_key x = window_key demo_rule ''key:a'' \<and> seconds 62 - seconds WINDOW_SECONDS < fst x)
      demo_arrivals))"
proof -
  define xs where "xs = take 4 demo_arrivals"
  have xs: "demo_arrivals = xs @ [(seconds 62, demo_rule, ''key:a'')]"
    by (simp add: demo_arrivals_def xs_def)
  have "sorted (map fst demo_arrivals)"
    "\<not> hit_allowed (last (hits (list_cache (seconds WINDOW_SECONDS) (Some 1)) [] demo_arrivals))"
    by code_simp+
  then show ?thesis
    using rate_limit_refusal_justified [OF list_cache_laws, of xs "seconds 62" demo_rule "''key:a''"
        "seconds WINDOW_SECONDS" "Some 1"]
    unfolding xs [symmetric] by (simp add: list_cache_def)
qed

end
