(* ===== verification/Json.thy ===== *)
theory Json
  imports Models
begin

text \<open>
  The codecs of the session token: URL-safe Base64 (\<^verbatim>\<open>_b64url_encode\<close> and \<^verbatim>\<open>_b64url_decode\<close> of
  \<^verbatim>\<open>src/src/chmabapay/routers/auth.py\<close>, over \<^verbatim>\<open>base64.urlsafe_b64decode\<close>) and the \<^verbatim>\<open>json\<close> module of
  the standard library as the code uses it: \<^verbatim>\<open>json.dumps(.., separators=(",", ":"))\<close> and
  \<^verbatim>\<open>json.loads\<close>.

  Decoding is the lenient decoder of \<^verbatim>\<open>binascii\<close>: characters outside the alphabet are skipped and
  everything after the padding is ignored.  Text is code points below 256, as everywhere in the model;
  a document with others, or in another encoding than UTF-8, is outside it and reads as \<open>None\<close>, as
  every error does.  The scanner takes fuel; \<open>json_loads\<close> supplies twice the length of the text,
  and every two calls consume a character.
\<close>

type_synonym octets = "8 word list"

section \<open>Numbers\<close>

definition digits_value :: "string \<Rightarrow> int" where
  "digits_value ds = foldl (\<lambda>n c. 10 * n + dec_val c) 0 ds"

definition exponent :: "string \<Rightarrow> int option" where
  "exponent s =
     (case s of
        [] \<Rightarrow> Some 0
      | c # cs \<Rightarrow> if c \<in> set ''eE'' \<and> list_all (\<lambda>x. is_dec x \<or> x \<in> set ''+-'') cs then py_int cs else None)"

text \<open>\<open>float\<close> on a decimal text, as the integer \<open>m\<close> and the power \<open>e\<close> of ten of \<open>m * 10 ^ e\<close>; the words for
  infinities and for no number are none.\<close>

definition decimal_parts :: "string \<Rightarrow> (int \<times> int) option" where
  "decimal_parts text =
     (let s = py_strip text;
          neg = (s \<noteq> [] \<and> hd s = CHR ''-'');
          s1 = (if s \<noteq> [] \<and> hd s \<in> set ''+-'' then tl s else s);
          ip = takeWhile is_dec s1; s2 = dropWhile is_dec s1;
          dot = (s2 \<noteq> [] \<and> hd s2 = CHR ''.'');
          fp = (if dot then takeWhile is_dec (tl s2) else []);
          s3 = (if dot then dropWhile is_dec (tl s2) else s2)
      in if ip @ fp = [] then None
         else map_option (\<lambda>e. ((if neg then -1 else 1) * digits_value (ip @ fp), e - int (length fp))) (exponent s3))"

text \<open>\<open>int\<close> of such a number: towards zero.\<close>

definition decimal_trunc :: "int \<times> int \<Rightarrow> int" where
  "decimal_trunc x =
     (case x of (m, e) \<Rightarrow> if 0 \<le> e then m * 10 ^ nat e else sgn m * (\<bar>m\<bar> div 10 ^ nat (- e)))"

text \<open>\<open>n > m * 10 ^ e\<close>.\<close>

definition int_greater :: "int \<Rightarrow> int \<times> int \<Rightarrow> bool" where
  "int_greater n x = (case x of (m, e) \<Rightarrow> if 0 \<le> e then n > m * 10 ^ nat e else n * 10 ^ nat (- e) > m)"

section \<open>Base64\<close>

definition b64_char :: "nat \<Rightarrow> char" where
  "b64_char n = ''ABCDEFGHIJKLMNOPQRSTUVWXYZabcdefghijklmnopqrstuvwxyz0123456789-_'' ! n"

definition b64_val :: "char \<Rightarrow> nat option" where
  "b64_val c =
     (if 65 \<le> code c \<and> code c \<le> 90 then Some (code c - 65)
      else if 97 \<le> code c \<and> code c \<le> 122 then Some (code c - 71)
      else if is_dec c then Some (code c + 4)
      else if c = CHR ''-'' \<or> c = CHR ''+'' then Some 62
      else if c = CHR ''_'' \<or> c = CHR ''/'' then Some 63
      else None)"

text \<open>The encoding with its trailing \<open>=\<close> characters stripped.\<close>

fun b64_groups :: "nat list \<Rightarrow> nat list" where
  "b64_groups [] = []"
| "b64_groups [a] = [a div 4, (a mod 4) * 16]"
| "b64_groups [a, b] = [a div 4, (a mod 4) * 16 + b div 16, (b mod 16) * 4]"
| "b64_groups (a # b # c # r) =
     [a div 4, (a mod 4) * 16 + b div 16, (b mod 16) * 4 + c div 64, c mod 64] @ b64_groups r"

definition b64url_encode :: "octets \<Rightarrow> string" where
  "b64url_encode bs = map b64_char (b64_groups (map unat bs))"

text \<open>\<^verbatim>\<open>binascii.a2b_base64\<close>: the position in the quartet, the bits left over and the pads seen.\<close>

fun a2b :: "nat \<Rightarrow> nat \<Rightarrow> nat \<Rightarrow> string \<Rightarrow> nat list option" where
  "a2b q left pads [] = (if q = 0 then Some [] else None)"
| "a2b q left pads (c # cs) =
     (if c = CHR ''='' then
        if q \<ge> 2 \<and> q + (pads + 1) \<ge> 4 then Some []
        else a2b q left (if q \<ge> 2 then pads + 1 else pads) cs
      else case b64_val c of
        None \<Rightarrow> a2b q left pads cs
      | Some v \<Rightarrow>
          if q = 0 then a2b 1 v 0 cs
          else if q = 1 then map_option (Cons (left * 4 + v div 16)) (a2b 2 (v mod 16) 0 cs)
          else if q = 2 then map_option (Cons (left * 16 + v div 4)) (a2b 3 (v mod 4) 0 cs)
          else map_option (Cons (left * 64 + v)) (a2b 0 0 0 cs))"

definition b64url_decode :: "string \<Rightarrow> octets option" where
  "b64url_decode s =
     (if list_all (\<lambda>c. code c < 128) s
      then map_option (map of_nat) (a2b 0 0 0 (s @ replicate (4 - length s mod 4) CHR ''=''))
      else None)"

section \<open>JSON output\<close>

definition hex_lower :: "nat \<Rightarrow> char" where
  "hex_lower d = (if d < 10 then char_of (48 + d) else char_of (87 + d))"

definition json_char :: "char \<Rightarrow> string" where
  "json_char c =
     (if c = CHR 0x22 then [CHR 0x5C, CHR 0x22]
      else if c = CHR 0x5C then [CHR 0x5C, CHR 0x5C]
      else if c = CHR 0x0A then [CHR 0x5C, CHR ''n'']
      else if c = CHR 0x0D then [CHR 0x5C, CHR ''r'']
      else if c = CHR 0x09 then [CHR 0x5C, CHR ''t'']
      else if c = CHR 0x0C then [CHR 0x5C, CHR ''f'']
      else if c = CHR 0x08 then [CHR 0x5C, CHR ''b'']
      else if 32 \<le> code c \<and> code c \<le> 126 then [c]
      else [CHR 0x5C, CHR ''u'', CHR ''0'', CHR ''0'', hex_lower (code c div 16), hex_lower (code c mod 16)])"

definition json_string :: "string \<Rightarrow> string" where
  "json_string s = CHR 0x22 # concat (map json_char s) @ [CHR 0x22]"

fun comma_join :: "string list \<Rightarrow> string" where
  "comma_join [] = []"
| "comma_join [x] = x"
| "comma_join (x # y # r) = x @ CHR '','' # comma_join (y # r)"

fun json_dumps :: "json \<Rightarrow> string" where
  "json_dumps JNull = ''null''"
| "json_dumps (JBool b) = (if b then ''true'' else ''false'')"
| "json_dumps (JInt i) = int_str i"
| "json_dumps (JFloat s) = s"
| "json_dumps (JStr s) = json_string s"
| "json_dumps (JList xs) = CHR ''['' # comma_join (map json_dumps xs) @ [CHR '']'']"
| "json_dumps (JObj kvs) =
     CHR ''{'' # comma_join (map (\<lambda>(k, v). json_string k @ CHR '':'' # json_dumps v) kvs) @ [CHR ''}'']"

section \<open>JSON input\<close>

definition json_ws :: "char \<Rightarrow> bool" where
  "json_ws c \<longleftrightarrow> code c \<in> {32, 9, 10, 13}"

definition skip_ws :: "string \<Rightarrow> string" where
  "skip_ws s = dropWhile json_ws s"

definition hex_value :: "char \<Rightarrow> nat option" where
  "hex_value c =
     (if is_dec c then Some (code c - 48)
      else if 97 \<le> code c \<and> code c \<le> 102 then Some (code c - 87)
      else if 65 \<le> code c \<and> code c \<le> 70 then Some (code c - 55)
      else None)"

definition escape_value :: "char \<Rightarrow> char option" where
  "escape_value e =
     (if e = CHR 0x22 \<or> e = CHR 0x5C \<or> e = CHR ''/'' then Some e
      else if e = CHR ''n'' then Some (CHR 0x0A)
      else if e = CHR ''r'' then Some (CHR 0x0D)
      else if e = CHR ''t'' then Some (CHR 0x09)
      else if e = CHR ''f'' then Some (CHR 0x0C)
      else if e = CHR ''b'' then Some (CHR 0x08)
      else None)"

text \<open>An escape \<open>\u00xy\<close>: the four digits and the character; one above 255 is outside the model.\<close>

definition unicode_escape :: "string \<Rightarrow> char option" where
  "unicode_escape ds =
     (case map hex_value ds of
        [Some a, Some b, Some c, Some d] \<Rightarrow> if a = 0 \<and> b = 0 then Some (char_of (16 * c + d)) else None
      | _ \<Rightarrow> None)"

text \<open>A string after its opening quote: its characters and the rest of the text.\<close>

function (sequential) scan_string :: "string \<Rightarrow> (string \<times> string) option" where
  "scan_string [] = None"
| "scan_string (c # cs) =
     (if c = CHR 0x22 then Some ([], cs)
      else if c = CHR 0x5C then
        (case cs of
           [] \<Rightarrow> None
         | e # es \<Rightarrow>
             if e = CHR ''u'' then
               (case unicode_escape (take 4 es) of
                  None \<Rightarrow> None
                | Some x \<Rightarrow> map_option (apfst (Cons x)) (scan_string (drop 4 es)))
             else
               (case escape_value e of
                  None \<Rightarrow> None
                | Some x \<Rightarrow> map_option (apfst (Cons x)) (scan_string es)))
      else if code c < 32 then None
      else map_option (apfst (Cons c)) (scan_string cs))"
  by pat_completeness auto
termination
  by (relation "measure length") auto

text \<open>A number: \<open>-?(0|[1-9][0-9]*)\<close>, with an optional fraction and exponent.\<close>

definition scan_frac :: "string \<Rightarrow> string \<times> string" where
  "scan_frac s =
     (case s of
        c # cs \<Rightarrow> if c = CHR ''.'' \<and> takeWhile is_dec cs \<noteq> [] then (c # takeWhile is_dec cs, dropWhile is_dec cs) else ([], s)
      | [] \<Rightarrow> ([], s))"

definition scan_exp :: "string \<Rightarrow> string \<times> string" where
  "scan_exp s =
     (case s of
        c # cs \<Rightarrow>
          if c = CHR ''e'' \<or> c = CHR ''E'' then
            let (sign, ds) = (case cs of
                  x # xs \<Rightarrow> if x = CHR ''+'' \<or> x = CHR ''-'' then ([x], xs) else ([], cs)
                | [] \<Rightarrow> ([], cs))
            in if takeWhile is_dec ds \<noteq> [] then (c # sign @ takeWhile is_dec ds, dropWhile is_dec ds) else ([], s)
          else ([], s)
      | [] \<Rightarrow> ([], s))"

definition scan_natural :: "string \<Rightarrow> (string \<times> string) option" where
  "scan_natural s =
     (case s of
        [] \<Rightarrow> None
      | c # cs \<Rightarrow>
          if c = CHR ''0'' then Some ([c], cs)
          else if is_dec c then Some (takeWhile is_dec s, dropWhile is_dec s)
          else None)"

definition scan_number :: "string \<Rightarrow> (json \<times> string) option" where
  "scan_number s =
     (let (sign, r) = (case s of c # cs \<Rightarrow> if c = CHR ''-'' then ([c], cs) else ([], s) | [] \<Rightarrow> ([], s))
      in case scan_natural r of
           None \<Rightarrow> None
         | Some (ds, r) \<Rightarrow>
             let (f, r) = scan_frac r; (e, r) = scan_exp r
             in if f = [] \<and> e = [] then map_option (\<lambda>i. (JInt i, r)) (py_int (sign @ ds))
                else Some (JFloat (sign @ ds @ f @ e), r))"

text \<open>A dictionary keeps the place of the first and the value of the last of equal keys.\<close>

fun dict_set :: "(string \<times> json) list \<Rightarrow> string \<Rightarrow> json \<Rightarrow> (string \<times> json) list" where
  "dict_set [] k v = [(k, v)]"
| "dict_set ((k', v') # kvs) k v = (if k' = k then (k, v) # kvs else (k', v') # dict_set kvs k v)"

definition scan_word :: "string \<Rightarrow> json \<Rightarrow> string \<Rightarrow> (json \<times> string) option" where
  "scan_word w v s = (if take (length w) s = w then Some (v, drop (length w) s) else None)"

fun first_some :: "'a option list \<Rightarrow> 'a option" where
  "first_some [] = None"
| "first_some (None # xs) = first_some xs"
| "first_some (Some x # xs) = Some x"

definition scan_literal :: "string \<Rightarrow> (json \<times> string) option" where
  "scan_literal s =
     first_some [scan_word ''null'' JNull s, scan_word ''true'' (JBool True) s,
       scan_word ''false'' (JBool False) s, scan_number s, scan_word ''NaN'' (JFloat ''NaN'') s,
       scan_word ''Infinity'' (JFloat ''Infinity'') s, scan_word ''-Infinity'' (JFloat ''-Infinity'') s]"

fun scan_value :: "nat \<Rightarrow> string \<Rightarrow> (json \<times> string) option"
and scan_items :: "nat \<Rightarrow> string \<Rightarrow> (json list \<times> string) option"
and scan_members :: "nat \<Rightarrow> (string \<times> json) list \<Rightarrow> string \<Rightarrow> ((string \<times> json) list \<times> string) option"
where
  "scan_value 0 s = None"
| "scan_value (Suc n) s =
     (case s of
        [] \<Rightarrow> None
      | c # cs \<Rightarrow>
          if c = CHR 0x22 then map_option (apfst JStr) (scan_string cs)
          else if c = CHR ''['' then
            (case skip_ws cs of
               d # ds \<Rightarrow> if d = CHR '']'' then Some (JList [], ds)
                        else map_option (apfst JList) (scan_items n (skip_ws cs))
             | [] \<Rightarrow> None)
          else if c = CHR ''{'' then
            (case skip_ws cs of
               d # ds \<Rightarrow> if d = CHR ''}'' then Some (JObj [], ds)
                        else map_option (apfst JObj) (scan_members n [] (skip_ws cs))
             | [] \<Rightarrow> None)
          else scan_literal s)"
| "scan_items 0 s = None"
| "scan_items (Suc n) s =
     (case scan_value n s of
        None \<Rightarrow> None
      | Some (v, r) \<Rightarrow>
          (case skip_ws r of
             [] \<Rightarrow> None
           | d # ds \<Rightarrow>
               if d = CHR '']'' then Some ([v], ds)
               else if d = CHR '','' then map_option (apfst (Cons v)) (scan_items n (skip_ws ds))
               else None))"
| "scan_members 0 acc s = None"
| "scan_members (Suc n) acc s =
     (case s of
        [] \<Rightarrow> None
      | q # qs \<Rightarrow>
          if q \<noteq> CHR 0x22 then None
          else (case scan_string qs of
             None \<Rightarrow> None
           | Some (k, r) \<Rightarrow>
               (case skip_ws r of
                  [] \<Rightarrow> None
                | c # cs \<Rightarrow>
                    if c \<noteq> CHR '':'' then None
                    else (case scan_value n (skip_ws cs) of
                       None \<Rightarrow> None
                     | Some (v, r) \<Rightarrow>
                         (case skip_ws r of
                            [] \<Rightarrow> None
                          | d # ds \<Rightarrow>
                              if d = CHR ''}'' then Some (dict_set acc k v, ds)
                              else if d = CHR '','' then scan_members n (dict_set acc k v) (skip_ws ds)
                              else None)))))"

definition json_loads :: "string \<Rightarrow> json option" where
  "json_loads s =
     (case scan_value (2 * length s + 2) (skip_ws s) of
        Some (v, r) \<Rightarrow> if skip_ws r = [] then Some v else None
      | None \<Rightarrow> None)"

text \<open>UTF-8 bytes to text.\<close>

fun utf8_decode :: "octets \<Rightarrow> string option" where
  "utf8_decode [] = Some []"
| "utf8_decode (b # bs) =
     (if unat b < 128 then map_option (Cons (char_of (unat b))) (utf8_decode bs)
      else case bs of
        [] \<Rightarrow> None
      | b' # bs' \<Rightarrow>
          if (unat b = 194 \<or> unat b = 195) \<and> 128 \<le> unat b' \<and> unat b' < 192
          then map_option (Cons (char_of ((unat b - 192) * 64 + (unat b' - 128)))) (utf8_decode bs')
          else None)"

definition json_load_bytes :: "octets \<Rightarrow> json option" where
  "json_load_bytes bs = (case utf8_decode bs of None \<Rightarrow> None | Some s \<Rightarrow> json_loads s)"

section \<open>Base64 reads back\<close>

lemma b64_alphabet_check:
  "list_all (\<lambda>n. b64_val (b64_char n) = Some n \<and> b64_char n \<noteq> CHR ''='' \<and> code (b64_char n) < 128 \<and>
     b64_char n \<noteq> CHR ''.'') [0..<64]"
  by code_simp

lemma b64_char:
  assumes "n < 64"
  shows "b64_val (b64_char n) = Some n" "b64_char n \<noteq> CHR ''=''" "code (b64_char n) < 128"
    "b64_char n \<noteq> CHR ''.''"
  using b64_alphabet_check assms by (simp_all add: list_all_iff)

lemma b64_groups_bound: "list_all (\<lambda>n. n < 256) ns \<Longrightarrow> list_all (\<lambda>n. n < 64) (b64_groups ns)"
  by (induction ns rule: b64_groups.induct) auto

lemma a2b_char:
  assumes "v < 64"
  shows "a2b 0 left pads (b64_char v # cs) = a2b (Suc 0) v 0 cs"
    and "a2b (Suc 0) left pads (b64_char v # cs) = map_option (Cons (left * 4 + v div 16)) (a2b 2 (v mod 16) 0 cs)"
    and "a2b 2 left pads (b64_char v # cs) = map_option (Cons (left * 16 + v div 4)) (a2b 3 (v mod 4) 0 cs)"
    and "a2b 3 left pads (b64_char v # cs) = map_option (Cons (left * 64 + v)) (a2b 0 0 0 cs)"
  by (simp_all add: b64_char [OF assms])

lemma a2b_pads [simp]:
  "a2b 0 left pads (replicate m CHR ''='') = Some []"
  "a2b 2 left 0 (replicate 2 CHR ''='') = Some []"
  "a2b 3 left 0 [CHR ''=''] = Some []"
  by (induction m arbitrary: pads) (simp_all add: numeral_2_eq_2)

declare a2b.simps [simp del]

lemma a2b_groups:
  assumes "list_all (\<lambda>n. n < 256) ns"
  shows "a2b 0 0 0 (map b64_char (b64_groups ns) @ replicate (4 - length (b64_groups ns) mod 4) CHR ''='') = Some ns"
  using assms
proof (induction ns rule: b64_groups.induct)
  case (2 a)
  then show ?case
    by (simp add: a2b_char)
next
  case (3 a b)
  then have "a div 4 < 64" "(a mod 4) * 16 + b div 16 < 64" "(b mod 16) * 4 < 64" "b div 16 < 16"
    by auto
  with 3 show ?case
    by (simp add: a2b_char)
next
  case (4 a b c r)
  have "a div 4 < 64" "(a mod 4) * 16 + b div 16 < 64" "(b mod 16) * 4 + c div 64 < 64" "c mod 64 < 64"
    "b div 16 < 16" "c div 64 < 4"
    using "4.prems" by auto
  with 4 show ?case
    by (simp add: a2b_char)
qed (simp add: a2b.simps)

lemma unat_octet: "unat (b :: 8 word) < 256"
  using unsigned_less [of b] by simp

lemma b64url_ascii: "c \<in> set (b64url_encode bs) \<Longrightarrow> code c < 128 \<and> c \<noteq> CHR ''.''"
  using b64_groups_bound [of "map unat bs"] b64_char
  by (fastforce simp: b64url_encode_def list_all_iff unat_octet)

lemma b64url_roundtrip: "b64url_decode (b64url_encode bs) = Some bs"
proof -
  have "list_all (\<lambda>n. n < 256) (map unat bs)"
    by (simp add: list_all_iff unat_octet)
  from a2b_groups [OF this] show ?thesis
    using b64url_ascii [of _ bs]
    by (simp add: b64url_decode_def list_all_iff b64url_encode_def o_def)
qed

section \<open>JSON reads back\<close>

text \<open>The values that are written: no float, and an object's keys are distinct, as in a dictionary.\<close>

fun json_plain :: "json \<Rightarrow> bool" where
  "json_plain (JFloat s) = False"
| "json_plain (JList xs) = list_all json_plain xs"
| "json_plain (JObj kvs) = (distinct (map fst kvs) \<and> list_all (\<lambda>(k, v). json_plain v) kvs)"
| "json_plain _ = True"

lemma code_less: "code c < 256"
proof -
  have "code c = code (char_of (code c) :: char)"
    by simp
  also have "\<dots> = code c mod 256"
    by (rule of_char_of)
  also have "\<dots> < 256"
    by simp
  finally show ?thesis .
qed

lemma hex_value_lower: "d < 16 \<Longrightarrow> hex_value (hex_lower d) = Some d"
  by (simp add: hex_value_def hex_lower_def is_dec_def)

lemma unicode_escape_char:
  "unicode_escape [CHR ''0'', CHR ''0'', hex_lower (code c div 16), hex_lower (code c mod 16)] = Some c"
proof -
  have "hex_value CHR ''0'' = Some 0"
    by code_simp
  moreover have "code c div 16 < 16"
    using code_less [of c] by (simp add: less_mult_imp_div_less)
  ultimately show ?thesis
    by (simp add: unicode_escape_def hex_value_lower)
qed

lemma json_char_cases:
  obtains (plain) "json_char c = [c]" "c \<noteq> CHR 0x22" "c \<noteq> CHR 0x5C" "32 \<le> code c"
  | (escape) y where "json_char c = [CHR 0x5C, y]" "y \<noteq> CHR ''u''" "escape_value y = Some c"
  | (unicode) zs where "json_char c = CHR 0x5C # CHR ''u'' # zs" "length zs = 4" "unicode_escape zs = Some c"
proof (cases "c \<in> {CHR 0x22, CHR 0x5C, CHR 0x0A, CHR 0x0D, CHR 0x09, CHR 0x0C, CHR 0x08}")
  case True
  then show thesis
    by (auto intro!: escape simp: json_char_def escape_value_def)
next
  case False
  show thesis
  proof (cases "32 \<le> code c \<and> code c \<le> 126")
    case True
    with False show thesis
      by (intro plain) (auto simp: json_char_def)
  next
    case code: False
    with False show thesis
      by (intro unicode [OF _ _ unicode_escape_char]) (auto simp: json_char_def)
  qed
qed

lemma scan_string_char: "scan_string (json_char c @ r) = map_option (apfst (Cons c)) (scan_string r)"
  by (cases rule: json_char_cases [of c]) simp_all

lemma scan_string_quote: "scan_string (CHR 0x22 # r) = Some ([], r)"
  by simp

declare scan_string.simps(2) [simp del]

lemma scan_json_string: "scan_string (concat (map json_char s) @ CHR 0x22 # r) = Some (s, r)"
  by (induction s) (simp_all add: scan_string_char scan_string_quote)

lemma nat_str_head: "n > 0 \<Longrightarrow> hd (nat_str n) \<noteq> CHR ''0''"
proof (induction n rule: nat_str.induct)
  case (1 n)
  show ?case
  proof (cases "n < 10")
    case True
    then have "code (dec_digit n) \<noteq> code CHR ''0''"
      using "1.prems" by simp
    then have "dec_digit n \<noteq> CHR ''0''"
      by (rule contrapos_nn) (rule arg_cong)
    with True show ?thesis
      by (subst nat_str.simps) simp
  next
    case False
    then show ?thesis
      using "1.IH" by (subst nat_str.simps) (simp add: hd_append)
  qed
qed

text \<open>What may follow a number that is read whole.\<close>

definition ends_number :: "string \<Rightarrow> bool" where
  "ends_number r \<longleftrightarrow> (case r of [] \<Rightarrow> True | c # _ \<Rightarrow> \<not> is_dec c \<and> c \<noteq> CHR ''.'' \<and> c \<noteq> CHR ''e'' \<and> c \<noteq> CHR ''E'')"

lemma takeWhile_digits:
  "list_all is_dec ds \<Longrightarrow> ends_number r \<Longrightarrow> takeWhile is_dec (ds @ r) = ds \<and> dropWhile is_dec (ds @ r) = r"
  by (induction ds) (auto simp: ends_number_def split: list.splits)

lemma scan_natural_str:
  assumes "ends_number r"
  shows "scan_natural (nat_str n @ r) = Some (nat_str n, r)"
proof (cases "n = 0")
  case True
  have "nat_str 0 = ''0''"
    by (subst nat_str.simps) (simp add: dec_digit_def, code_simp)
  then show ?thesis
    by (simp add: True scan_natural_def)
next
  case False
  obtain c cs where s: "nat_str n = c # cs"
    by (cases "nat_str n") auto
  then have "c \<noteq> CHR ''0''" "is_dec c"
    using nat_str_head [of n] nat_str_digits [of n] False by auto
  then show ?thesis
    using takeWhile_digits [OF nat_str_digits assms, of n] by (simp add: scan_natural_def s)
qed

lemma scan_int: "ends_number r \<Longrightarrow> scan_number (int_str i @ r) = Some (JInt i, r)"
proof -
  assume r: "ends_number r"
  then have tail: "scan_frac r = ([], r)" "scan_exp r = ([], r)"
    by (auto simp: ends_number_def scan_frac_def scan_exp_def split: list.splits)
  have nat: "scan_natural (nat_str n @ r) = Some (nat_str n, r)" for n
    by (rule scan_natural_str [OF r])
  show ?thesis
  proof (cases "i < 0")
    case True
    then show ?thesis
      using py_int_int_str [of i] by (simp add: scan_number_def int_str_def tail nat)
  next
    case False
    obtain c cs where s: "nat_str (nat i) = c # cs"
      by (cases "nat_str (nat i)") auto
    then have "c \<noteq> CHR ''-''"
      using nat_str_digits [of "nat i"] by (auto simp: is_dec_def)
    then show ?thesis
      using False py_int_int_str [of i] nat [of "nat i"] by (simp add: scan_number_def int_str_def tail s)
  qed
qed

lemma skip_ws_Cons [simp]: "skip_ws (c # cs) = (if json_ws c then skip_ws cs else c # cs)"
  by (simp add: skip_ws_def)

lemma json_ws_punctuation [simp]:
  "\<not> json_ws CHR 0x22" "\<not> json_ws CHR ''[''" "\<not> json_ws CHR '']''" "\<not> json_ws CHR ''{''" "\<not> json_ws CHR ''}''"
  "\<not> json_ws CHR '',''" "\<not> json_ws CHR '':''"
  by (simp_all add: json_ws_def)

lemma ends_number_punctuation [simp]:
  "ends_number []" "ends_number (CHR '']'' # r)" "ends_number (CHR ''}'' # r)" "ends_number (CHR '','' # r)"
  by (simp_all add: ends_number_def is_dec_def)

lemma int_str_head:
  obtains c cs where "int_str i = c # cs" "c \<notin> set '']}[{ntfNI''" "c \<noteq> CHR 0x22" "\<not> json_ws c"
proof -
  obtain c cs where s: "int_str i = c # cs"
    by (cases "int_str i") auto
  have "d \<notin> set '']}[{ntfNI'' \<and> d \<noteq> CHR 0x22 \<and> \<not> json_ws d" if "is_dec d" for d
    using that by (auto simp: is_dec_def json_ws_def)
  moreover have "CHR ''-'' \<notin> set '']}[{ntfNI''" "CHR ''-'' \<noteq> CHR 0x22" "\<not> json_ws CHR ''-''"
    by (simp_all add: json_ws_def)
  moreover have "c = CHR ''-'' \<or> is_dec c"
    using int_str_chars [of c i] s by simp
  ultimately show thesis
    using that [OF s] by blast
qed

text \<open>The first character of a written value decides how it is read.\<close>

lemma json_dumps_head:
  assumes "json_plain v"
  obtains c cs where "json_dumps v = c # cs" "\<not> json_ws c" "c \<noteq> CHR '']''" "c \<noteq> CHR ''}''"
proof (cases v)
  case (JInt i)
  obtain c cs where s: "int_str i = c # cs" "c \<notin> set '']}[{ntfNI''" "\<not> json_ws c"
    by (rule int_str_head)
  then show thesis
    using that [of c cs] JInt by simp
next
  case (JBool b)
  then show thesis
    using that by (cases b) (auto simp: json_ws_def)
qed (use assms that in \<open>auto simp: json_string_def json_ws_def\<close>)

lemma skip_ws_dumps: "json_plain v \<Longrightarrow> skip_ws (json_dumps v @ r) = json_dumps v @ r"
  by (rule json_dumps_head) auto

lemma scan_int_value:
  assumes "ends_number r"
  shows "scan_value (Suc n) (int_str i @ r) = Some (JInt i, r)"
proof -
  obtain c cs where s: "int_str i = c # cs" "c \<notin> set '']}[{ntfNI''" "c \<noteq> CHR 0x22"
    by (rule int_str_head)
  have "scan_word w v (int_str i @ r) = None" if "w \<in> {''null'', ''true'', ''false''}" for w v
    using that s by (auto simp: scan_word_def)
  then have "scan_literal (int_str i @ r) = Some (JInt i, r)"
    by (simp add: scan_literal_def scan_int [OF assms])
  then show ?thesis
    using s by simp
qed

text \<open>Reading a written list of items, and a written list of members, each followed by its bracket.\<close>

lemma scan_items_written:
  assumes "\<And>v n r. v \<in> set vs \<Longrightarrow> 2 * length (json_dumps v) \<le> n \<Longrightarrow> ends_number r \<Longrightarrow>
      scan_value n (json_dumps v @ r) = Some (v, r)"
    and "list_all json_plain vs" "vs \<noteq> []" "2 * length (comma_join (map json_dumps vs)) < n"
  shows "scan_items n (comma_join (map json_dumps vs) @ CHR '']'' # r) = Some (vs, r)"
  using assms
proof (induction vs arbitrary: n rule: induct_list012)
  case (2 v)
  then obtain m where n: "n = Suc m"
    by (cases n) auto
  then show ?case
    using 2 by simp
next
  case (3 v w vs)
  then obtain m where n: "n = Suc m"
    by (cases n) auto
  let ?rest = "comma_join (map json_dumps (w # vs)) @ CHR '']'' # r"
  have "scan_value m (json_dumps v @ CHR '','' # ?rest) = Some (v, CHR '','' # ?rest)"
    using "3.prems"(1,4) n by simp
  moreover have "skip_ws ?rest = ?rest"
    using "3.prems"(2) skip_ws_dumps [of w] by (cases vs) simp_all
  moreover have "scan_items m ?rest = Some (w # vs, r)"
    using "3.prems" n by (intro "3.IH"(2)) simp_all
  ultimately show ?case
    by (simp add: n)
qed simp

lemma dict_set_new: "k \<notin> fst ` set kvs \<Longrightarrow> dict_set kvs k v = kvs @ [(k, v)]"
  by (induction kvs) auto

abbreviation member_text :: "string \<times> json \<Rightarrow> string" where
  "member_text kv \<equiv> json_string (fst kv) @ CHR '':'' # json_dumps (snd kv)"

lemma scan_member:
  assumes "scan_value n (json_dumps v @ c # r) = Some (v, c # r)" "json_plain v" "\<not> json_ws c"
  shows "scan_members (Suc n) acc (json_string k @ CHR '':'' # json_dumps v @ c # r) =
    (if c = CHR ''}'' then Some (dict_set acc k v, r)
     else if c = CHR '','' then scan_members n (dict_set acc k v) (skip_ws r) else None)"
  using assms by (simp add: json_string_def scan_json_string skip_ws_dumps)

lemma scan_members_written:
  assumes "\<And>kv n r. kv \<in> set kvs \<Longrightarrow> 2 * length (json_dumps (snd kv)) \<le> n \<Longrightarrow> ends_number r \<Longrightarrow>
      scan_value n (json_dumps (snd kv) @ r) = Some (snd kv, r)"
    and "list_all (\<lambda>(k, v). json_plain v) kvs" "kvs \<noteq> []" "2 * length (comma_join (map member_text kvs)) < n"
    and "distinct (map fst (acc @ kvs))"
  shows "scan_members n acc (comma_join (map member_text kvs) @ CHR ''}'' # r) = Some (acc @ kvs, r)"
  using assms
proof (induction kvs arbitrary: n acc rule: induct_list012)
  case (2 kv)
  then obtain m where n: "n = Suc m"
    by (cases n) auto
  then show ?case
    using 2 scan_member [of m "snd kv" "CHR ''}''" r acc "fst kv"] by (simp add: dict_set_new case_prod_unfold)
next
  case (3 kv kv' kvs)
  then obtain m where n: "n = Suc m"
    by (cases n) auto
  let ?rest = "comma_join (map member_text (kv' # kvs)) @ CHR ''}'' # r"
  have "scan_value m (json_dumps (snd kv) @ CHR '','' # ?rest) = Some (snd kv, CHR '','' # ?rest)"
    using "3.prems"(1,4) n by simp
  moreover have "skip_ws ?rest = ?rest"
    by (cases kvs) (simp_all add: json_string_def)
  moreover have "scan_members m (acc @ [kv]) ?rest = Some ((acc @ [kv]) @ kv' # kvs, r)"
    using "3.prems" n by (intro "3.IH"(2)) simp_all
  ultimately show ?case
    using scan_member [of m "snd kv" "CHR '',''" ?rest acc "fst kv"] "3.prems"(2,5)
    by (simp add: n dict_set_new case_prod_unfold)
qed simp

lemma scan_value_written:
  "json_plain v \<Longrightarrow> 2 * length (json_dumps v) \<le> n \<Longrightarrow> ends_number r \<Longrightarrow> scan_value n (json_dumps v @ r) = Some (v, r)"
proof (induction v arbitrary: n r)
  case (JInt i)
  then show ?case
    using scan_int_value [of r "n - 1" i] by (cases n) auto
next
  case (JBool b)
  then obtain m where "n = Suc m" by (cases n) (auto split: if_splits)
  then show ?case
    by (cases b) (simp_all add: scan_literal_def scan_word_def)
next
  case JNull
  then obtain m where "n = Suc m" by (cases n) auto
  then show ?case
    by (simp add: scan_literal_def scan_word_def)
next
  case (JStr s)
  then obtain m where "n = Suc m" by (cases n) (auto simp: json_string_def)
  then show ?case
    by (simp add: json_string_def scan_json_string)
next
  case (JList vs)
  then obtain m where n: "n = Suc m" by (cases n) auto
  show ?case
  proof (cases vs)
    case Nil
    then show ?thesis by (simp add: n)
  next
    case (Cons v ws)
    have "scan_items m (comma_join (map json_dumps vs) @ CHR '']'' # r) = Some (vs, r)"
      by (rule scan_items_written) (use JList n Cons in \<open>auto simp: list_all_iff\<close>)
    moreover obtain c cs where "comma_join (map json_dumps vs) @ CHR '']'' # r = c # cs" "\<not> json_ws c" "c \<noteq> CHR '']''"
      using Cons JList.prems(1) json_dumps_head [of v] by (cases ws) (auto simp: elim!: json_dumps_head)
    ultimately show ?thesis
      by (simp add: n)
  qed
next
  case (JObj kvs)
  then obtain m where n: "n = Suc m" by (cases n) auto
  have shape: "json_dumps (JObj kvs) = CHR ''{'' # comma_join (map member_text kvs) @ [CHR ''}'']"
    by (simp add: case_prod_unfold)
  show ?case
  proof (cases kvs)
    case Nil
    then show ?thesis by (simp add: n)
  next
    case (Cons kv ws)
    have "scan_members m [] (comma_join (map member_text kvs) @ CHR ''}'' # r) = Some ([] @ kvs, r)"
      by (rule scan_members_written)
        (use JObj n Cons in \<open>fastforce simp: list_all_iff case_prod_unfold snds.simps\<close>)+
    moreover obtain cs where "comma_join (map member_text kvs) @ CHR ''}'' # r = CHR 0x22 # cs"
      using Cons by (cases ws) (auto simp: json_string_def)
    ultimately show ?thesis
      unfolding shape by (simp add: n)
  qed
qed simp

text \<open>Reading back what was written.\<close>

lemma json_loads_dumps: "json_plain v \<Longrightarrow> json_loads (json_dumps v) = Some v"
  using scan_value_written [of v "2 * length (json_dumps v) + 2" "[]"] skip_ws_dumps [of v "[]"]
  by (simp add: json_loads_def skip_ws_def)

end
