(* ===== verification/Urls.thy ===== *)
theory Urls
  imports Models
begin

text \<open>
  URLs and addresses, as the standard library of Python 3.11 (the version of the \<^verbatim>\<open>Dockerfile\<close>) reads
  them: \<open>urlsplit\<close> with the \<open>hostname\<close>, \<open>username\<close> and \<open>password\<close> of its result, \<open>ipaddress.ip_address\<close>
  with its classification of an address, and the two places of the program that decide by them where the
  platform connects: \<open>validate_webhook_url\<close> (\<^verbatim>\<open>routers/webhooks.py\<close>) and \<open>extract_slug\<close>
  (\<^verbatim>\<open>services/payway_parser.py\<close>).  The check of \<^verbatim>\<open>_checknetloc\<close> never fires below code point 256.

  Lemmas: every IPv4 address reads back from its dotted form, and a receiver written that way, with or
  without a port and whatever follows it, is refused exactly when its address is internal.  Other spellings of a loopback host are not recognised.
\<close>

section \<open>Splitting a URL\<close>

record split_url =
  ur_scheme :: string
  ur_netloc :: string
  ur_path :: string
  ur_query :: string
  ur_fragment :: string

definition ascii_alpha :: "char \<Rightarrow> bool" where
  "ascii_alpha c \<longleftrightarrow> (97 \<le> code c \<and> code c \<le> 122) \<or> (65 \<le> code c \<and> code c \<le> 90)"

definition scheme_char :: "char \<Rightarrow> bool" where
  "scheme_char c \<longleftrightarrow> ascii_alpha c \<or> is_dec c \<or> c \<in> set ''+-.''"

text \<open>\<open>str.rpartition\<close>: what precedes the last separator, if there is one, and what follows it.\<close>

definition py_rpartition :: "char \<Rightarrow> string \<Rightarrow> string option \<times> string" where
  "py_rpartition c s =
     (if c \<in> set s then (Some (rev (tl (dropWhile (\<lambda>x. x \<noteq> c) (rev s)))), rev (takeWhile (\<lambda>x. x \<noteq> c) (rev s)))
      else (None, s))"

definition hex_char :: "char \<Rightarrow> bool" where
  "hex_char c \<longleftrightarrow> c \<in> set ''0123456789ABCDEFabcdef''"

section \<open>Addresses\<close>

datatype ip = V4 int | V6 int

definition octet :: "string \<Rightarrow> int option" where
  "octet s =
     (if s = [] \<or> \<not> list_all is_dec s \<or> length s > 3 \<or> (s \<noteq> ''0'' \<and> hd s = CHR ''0'') then None
      else case dec_unsigned s of None \<Rightarrow> None | Some v \<Rightarrow> if v > 255 then None else Some v)"

definition ip4_of :: "string \<Rightarrow> int option" where
  "ip4_of s =
     (case map octet (py_split CHR ''.'' s) of
        [Some a, Some b, Some c, Some d] \<Rightarrow> Some (((a * 256 + b) * 256 + c) * 256 + d)
      | _ \<Rightarrow> None)"

definition hex_val :: "char \<Rightarrow> int" where
  "hex_val c = (if is_dec c then dec_val c else if code c \<ge> 97 then int (code c) - 87 else int (code c) - 55)"

definition hextet :: "string \<Rightarrow> int option" where
  "hextet s =
     (if s = [] \<or> \<not> list_all hex_char s \<or> length s > 4 then None
      else Some (foldl (\<lambda>acc c. acc * 16 + hex_val c) 0 s))"

definition hextets :: "string list \<Rightarrow> int option" where
  "hextets ps =
     foldl (\<lambda>acc p. case (acc, hextet p) of (Some a, Some v) \<Rightarrow> Some (a * 65536 + v) | _ \<Rightarrow> None) (Some 0) ps"

text \<open>The expansion of a double colon.  An IPv4 tail becomes the two last groups.\<close>

definition ip6_parts :: "string list \<Rightarrow> int option" where
  "ip6_parts parts =
     (let n = length parts in
      if n > 9 then None
      else case filter (\<lambda>i. parts ! i = []) [1..<n - 1] of
        [] \<Rightarrow> if n \<noteq> 8 \<or> hd parts = [] \<or> last parts = [] then None else hextets parts
      | [k] \<Rightarrow>
          let hi = (if hd parts = [] then k - 1 else k);
              lo = (if last parts = [] then n - k - 2 else n - k - 1)
          in if (hd parts = [] \<and> hi \<noteq> 0) \<or> (last parts = [] \<and> lo \<noteq> 0) \<or> hi + lo > 7 then None
             else hextets (take hi parts @ replicate (8 - (hi + lo)) ''0'' @ drop (n - lo) parts)
      | _ \<Rightarrow> None)"

definition ip6_of :: "string \<Rightarrow> int option" where
  "ip6_of s =
     (let parts = py_split CHR '':'' s in
      if length parts < 3 then None
      else if CHR ''.'' \<in> set (last parts) then
        (case ip4_of (last parts) of
           None \<Rightarrow> None
         | Some v \<Rightarrow> ip6_parts (butlast parts @ [hex4 (nat (v div 65536)), hex4 (nat (v mod 65536))]))
      else ip6_parts parts)"

text \<open>A scope id after a percent sign is dropped, an empty or a second one is an error.\<close>

definition ip_address :: "string \<Rightarrow> ip option" where
  "ip_address s =
     (if CHR ''/'' \<in> set s then None
      else case ip4_of s of
        Some v \<Rightarrow> Some (V4 v)
      | None \<Rightarrow>
          let (addr, scope) = py_partition CHR ''%'' s in
          if CHR ''%'' \<in> set s \<and> (scope = [] \<or> CHR ''%'' \<in> set scope) then None
          else map_option V6 (ip6_of addr))"

definition in_net :: "nat \<Rightarrow> int \<Rightarrow> int \<times> nat \<Rightarrow> bool" where
  "in_net width x net = (x div 2 ^ (width - snd net) = fst net div 2 ^ (width - snd net))"

definition dotted :: "int \<Rightarrow> int \<Rightarrow> int \<Rightarrow> int \<Rightarrow> int" where
  "dotted a b c d = ((a * 256 + b) * 256 + c) * 256 + d"

definition private4 :: "(int \<times> nat) list" where
  "private4 =
     [(dotted 0 0 0 0, 8), (dotted 10 0 0 0, 8), (dotted 127 0 0 0, 8), (dotted 169 254 0 0, 16),
      (dotted 172 16 0 0, 12), (dotted 192 0 0 0, 24), (dotted 192 0 0 170, 31), (dotted 192 0 2 0, 24),
      (dotted 192 168 0 0, 16), (dotted 198 18 0 0, 15), (dotted 198 51 100 0, 24), (dotted 203 0 113 0, 24),
      (dotted 240 0 0 0, 4), (dotted 255 255 255 255, 32)]"

definition private4_exceptions :: "(int \<times> nat) list" where
  "private4_exceptions = [(dotted 192 0 0 9, 32), (dotted 192 0 0 10, 32)]"

text \<open>The high 64 bits of an IPv6 prefix, by its first four groups.\<close>

definition prefix6 :: "int \<Rightarrow> int \<Rightarrow> int \<Rightarrow> int \<Rightarrow> int" where
  "prefix6 a b c d = (((a * 65536 + b) * 65536 + c) * 65536 + d) * 2 ^ 64"

definition private6 :: "(int \<times> nat) list" where
  "private6 =
     [(1, 128), (0, 128), (65535 * 2 ^ 32, 96), (prefix6 100 65435 1 0, 48), (prefix6 256 0 0 0, 64),
      (prefix6 8193 0 0 0, 23), (prefix6 8193 3512 0 0, 32), (prefix6 8194 0 0 0, 16),
      (prefix6 64512 0 0 0, 7), (prefix6 65152 0 0 0, 10)]"

definition private6_exceptions :: "(int \<times> nat) list" where
  "private6_exceptions =
     [(prefix6 8193 1 0 0 + 1, 128), (prefix6 8193 1 0 0 + 2, 128), (prefix6 8193 3 0 0, 32),
      (prefix6 8193 4 274 0, 48), (prefix6 8193 32 0 0, 28), (prefix6 8193 48 0 0, 28)]"

definition reserved6 :: "(int \<times> nat) list" where
  "reserved6 =
     [(0, 8), (prefix6 256 0 0 0, 8), (prefix6 512 0 0 0, 7), (prefix6 1024 0 0 0, 6), (prefix6 2048 0 0 0, 5),
      (prefix6 4096 0 0 0, 4), (prefix6 16384 0 0 0, 3), (prefix6 24576 0 0 0, 3), (prefix6 32768 0 0 0, 3),
      (prefix6 40960 0 0 0, 3), (prefix6 49152 0 0 0, 3), (prefix6 57344 0 0 0, 4), (prefix6 61440 0 0 0, 5),
      (prefix6 63488 0 0 0, 6), (prefix6 65024 0 0 0, 9)]"

definition is_private4 :: "int \<Rightarrow> bool" where
  "is_private4 x \<longleftrightarrow> list_ex (in_net 32 x) private4 \<and> \<not> list_ex (in_net 32 x) private4_exceptions"

definition is_private6 :: "int \<Rightarrow> bool" where
  "is_private6 x \<longleftrightarrow>
     (if x div 2 ^ 32 = 65535 then is_private4 (x mod 2 ^ 32)
      else list_ex (in_net 128 x) private6 \<and> \<not> list_ex (in_net 128 x) private6_exceptions)"

text \<open>Private, loopback, link-local, reserved, multicast or unspecified.\<close>

fun internal_address :: "ip \<Rightarrow> bool" where
  "internal_address (V4 x) \<longleftrightarrow>
     is_private4 x \<or> in_net 32 x (dotted 127 0 0 0, 8) \<or> in_net 32 x (dotted 169 254 0 0, 16) \<or>
     in_net 32 x (dotted 240 0 0 0, 4) \<or> in_net 32 x (dotted 224 0 0 0, 4) \<or> x = 0"
| "internal_address (V6 x) \<longleftrightarrow>
     is_private6 x \<or> x = 1 \<or> in_net 128 x (prefix6 65152 0 0 0, 10) \<or>
     list_ex (in_net 128 x) reserved6 \<or> in_net 128 x (prefix6 65280 0 0 0, 8) \<or> x = 0"

section \<open>The parts of a URL\<close>

definition bracketed_host_ok :: "string \<Rightarrow> bool" where
  "bracketed_host_ok h =
     (if take 1 h = ''v'' then
        (let rest = dropWhile hex_char (tl h) in
         rest \<noteq> tl h \<and> take 1 rest = ''.'' \<and> length rest \<ge> 2)
      else case ip_address h of Some (V6 _) \<Rightarrow> True | _ \<Rightarrow> False)"

definition split_scheme :: "string \<Rightarrow> string \<times> string" where
  "split_scheme url =
     (let s = takeWhile (\<lambda>c. c \<noteq> CHR '':'') url in
      if CHR '':'' \<in> set url \<and> s \<noteq> [] \<and> ascii_alpha (hd s) \<and> list_all scheme_char s
      then (py_lower s, drop (length s + 1) url) else ([], url))"

definition split_netloc :: "string \<Rightarrow> string \<times> string" where
  "split_netloc url =
     (if take 2 url = ''//'' then
        (takeWhile (\<lambda>c. c \<notin> set ''/?#'') (drop 2 url), dropWhile (\<lambda>c. c \<notin> set ''/?#'') (drop 2 url))
      else ([], url))"

definition netloc_ok :: "string \<Rightarrow> bool" where
  "netloc_ok netloc \<longleftrightarrow>
     (CHR ''['' \<in> set netloc \<longleftrightarrow> CHR '']'' \<in> set netloc) \<and>
     (CHR ''['' \<in> set netloc \<longrightarrow>
       bracketed_host_ok (fst (py_partition CHR '']'' (snd (py_partition CHR ''['' netloc)))))"

definition urlsplit :: "string \<Rightarrow> split_url result" where
  "urlsplit value =
     (let url = filter (\<lambda>c. code c \<notin> {9, 10, 13}) (dropWhile (\<lambda>c. code c \<le> 32) value);
          (scheme, url1) = split_scheme url;
          (netloc, url2) = split_netloc url1;
          (url3, fragment) = py_partition CHR ''#'' url2;
          (path, query) = py_partition CHR ''?'' url3
      in rbind (guard (netloc_ok netloc) (ValueError ''Invalid IPv6 URL'')) (\<lambda>_.
         Inr \<lparr>ur_scheme = scheme, ur_netloc = netloc, ur_path = path, ur_query = query, ur_fragment = fragment\<rparr>))"

definition url_hostinfo :: "split_url \<Rightarrow> string" where
  "url_hostinfo u = snd (py_rpartition CHR ''@'' (ur_netloc u))"

definition url_hostname :: "split_url \<Rightarrow> string option" where
  "url_hostname u =
     (let info = url_hostinfo u;
          h = (if CHR ''['' \<in> set info then fst (py_partition CHR '']'' (snd (py_partition CHR ''['' info)))
               else fst (py_partition CHR '':'' info));
          name = fst (py_partition CHR ''%'' h)
      in if h = [] then None else Some (py_lower name @ drop (length name) h))"

definition url_username :: "split_url \<Rightarrow> string" where
  "url_username u =
     (case fst (py_rpartition CHR ''@'' (ur_netloc u)) of None \<Rightarrow> [] | Some i \<Rightarrow> fst (py_partition CHR '':'' i))"

definition url_password :: "split_url \<Rightarrow> string" where
  "url_password u =
     (case fst (py_rpartition CHR ''@'' (ur_netloc u)) of None \<Rightarrow> [] | Some i \<Rightarrow> snd (py_partition CHR '':'' i))"

section \<open>Where a webhook may be delivered\<close>

definition ends_with :: "string \<Rightarrow> string \<Rightarrow> bool" where
  "ends_with suffix s \<longleftrightarrow> length suffix \<le> length s \<and> drop (length s - length suffix) s = suffix"

definition local_name :: "string \<Rightarrow> bool" where
  "local_name host \<longleftrightarrow> host = ''localhost'' \<or> ends_with ''.localhost'' host \<or> ends_with ''.local'' host"

definition validate_webhook_url :: "string \<Rightarrow> string result" where
  "validate_webhook_url value =
     rbind (urlsplit value) (\<lambda>u.
     rbind (guard (ur_scheme u = ''http'' \<or> ur_scheme u = ''https'') (ValueError ''url must be an http or https URL'')) (\<lambda>_.
     case url_hostname u of
       None \<Rightarrow> Inl (ValueError ''url must include a host'')
     | Some h \<Rightarrow>
         rbind (guard (url_username u = [] \<and> url_password u = []) (ValueError ''url must not include credentials'')) (\<lambda>_.
         let host = py_lower h in
         rbind (guard (\<not> local_name host) (ValueError ''url must not point at a local host'')) (\<lambda>_.
         case ip_address host of
           None \<Rightarrow> Inr value
         | Some a \<Rightarrow>
             rbind (guard (\<not> internal_address a) (ValueError ''url must not point at a private or local address''))
               (\<lambda>_. Inr value)))))"

section \<open>The slug of a PayWay link\<close>

definition PAYWAY_BASE :: string where
  "PAYWAY_BASE = ''https://link.payway.com.kh''"

definition py_rstrip_char :: "char \<Rightarrow> string \<Rightarrow> string" where
  "py_rstrip_char c s = rev (dropWhile (\<lambda>x. x = c) (rev s))"

text \<open>\<open>urlparse\<close> also cuts the parameters off the last segment of a path.\<close>

definition drop_params :: "string \<Rightarrow> string" where
  "drop_params path =
     (case py_rpartition CHR ''/'' path of
        (None, s) \<Rightarrow> takeWhile (\<lambda>c. c \<noteq> CHR '';'') s
      | (Some d, s) \<Rightarrow> d @ CHR ''/'' # takeWhile (\<lambda>c. c \<noteq> CHR '';'') s)"

definition USES_PARAMS :: "string set" where
  "USES_PARAMS = {[], ''ftp'', ''hdl'', ''prospero'', ''http'', ''imap'', ''https'', ''shttp'', ''rtsp'', ''rtsps'', ''rtspu'',
     ''sip'', ''sips'', ''mms'', ''sftp'', ''tel''}"

definition cut_at :: "char \<Rightarrow> string \<Rightarrow> string" where
  "cut_at c s = fst (py_partition c s)"

definition url_slug :: "string \<Rightarrow> string option" where
  "url_slug s =
     (case urlsplit s of
        Inl _ \<Rightarrow> None
      | Inr u \<Rightarrow>
          let path = py_rstrip_char CHR ''/''
                (if ur_scheme u \<in> USES_PARAMS
                 then drop_params (ur_path u) else ur_path u)
          in if path = [] then None else Some (last (py_split CHR ''/'' path)))"

definition base_slug :: "string \<Rightarrow> string" where
  "base_slug s =
     (if take (length PAYWAY_BASE) s = PAYWAY_BASE then
        (let tail = cut_at CHR ''#'' (cut_at CHR ''?''
               (py_rstrip_char CHR ''/'' (dropWhile (\<lambda>x. x = CHR ''/'') (drop (length PAYWAY_BASE) s))))
         in if tail = [] then s else tail)
      else cut_at CHR ''#'' (cut_at CHR ''?'' s))"

definition extract_slug :: "string \<Rightarrow> string" where
  "extract_slug raw =
     (let s = py_strip raw in
      case (if py_contains ''://'' s then url_slug s else None) of
        Some slug \<Rightarrow> slug
      | None \<Rightarrow> base_slug s)"

section \<open>Dotted addresses\<close>

definition ip4_str :: "nat \<Rightarrow> nat \<Rightarrow> nat \<Rightarrow> nat \<Rightarrow> string" where
  "ip4_str a b c d = nat_str a @ CHR ''.'' # nat_str b @ CHR ''.'' # nat_str c @ CHR ''.'' # nat_str d"

lemma dec_digit_not_zero: "0 < d \<Longrightarrow> d < 10 \<Longrightarrow> dec_digit d \<noteq> CHR ''0''"
proof
  assume "0 < d" "d < 10" "dec_digit d = CHR ''0''"
  then have "code (CHR ''0'') = 48 + d"
    using code_dec_digit [of d] by simp
  moreover have "code (CHR ''0'') = 48"
    by simp
  ultimately show False
    using \<open>0 < d\<close> by linarith
qed

lemma nat_str_zero: "nat_str 0 = ''0''"
  by code_simp

lemma nat_str_leading: "0 < n \<Longrightarrow> hd (nat_str n) \<noteq> CHR ''0''"
proof (induction n rule: nat_str.induct)
  case (1 n)
  then show ?case
    by (cases "n < 10") (simp_all add: dec_digit_not_zero nat_str.simps [of n])
qed

lemma octet_nat_str: "n < 256 \<Longrightarrow> octet (nat_str n) = Some (int n)"
  using nat_str_digits [of n] nat_str_leading [of n] length_nat_str [of 3 n]
  using dec_unsigned_nat_str [of n] by (cases "n = 0") (auto simp: octet_def nat_str_zero)

lemma nat_str_chars: "x \<in> set (nat_str n) \<Longrightarrow> is_dec x"
  using nat_str_digits [of n] by (simp add: list_all_iff)

lemma nat_str_no_dot: "CHR ''.'' \<notin> set (nat_str n)"
  using nat_str_chars [of "CHR ''.''" n] by (auto simp: is_dec_def)

lemma split_ip4_str: "py_split CHR ''.'' (ip4_str a b c d) = [nat_str a, nat_str b, nat_str c, nat_str d]"
  by (simp add: ip4_str_def py_split_sep py_split_no_sep nat_str_no_dot)

lemma ip4_of_ip4_str:
  assumes "a < 256" "b < 256" "c < 256" "d < 256"
  shows "ip4_of (ip4_str a b c d) = Some (dotted (int a) (int b) (int c) (int d))"
  using assms by (simp add: ip4_of_def split_ip4_str octet_nat_str dotted_def)

lemma ip4_str_chars: "x \<in> set (ip4_str a b c d) \<Longrightarrow> is_dec x \<or> x = CHR ''.''"
  by (auto simp: ip4_str_def dest: nat_str_chars)

lemma ip4_str_free:
  assumes "\<not> is_dec x" "x \<noteq> CHR ''.''"
  shows "x \<notin> set (ip4_str a b c d)"
  using ip4_str_chars [of x a b c d] assms by blast

text \<open>Which dotted addresses are internal, by their bytes.\<close>

definition internal_quad :: "nat \<Rightarrow> nat \<Rightarrow> nat \<Rightarrow> nat \<Rightarrow> bool" where
  "internal_quad a b c d \<longleftrightarrow>
     a \<in> {0, 10, 127} \<or> a \<ge> 224 \<or> (a = 169 \<and> b = 254) \<or> (a = 172 \<and> 16 \<le> b \<and> b < 32) \<or>
     (a = 192 \<and> b = 168) \<or> (a = 192 \<and> b = 0 \<and> c = 0 \<and> d \<notin> {9, 10}) \<or> (a = 192 \<and> b = 0 \<and> c = 2) \<or>
     (a = 198 \<and> b \<in> {18, 19}) \<or> (a = 198 \<and> b = 51 \<and> c = 100) \<or> (a = 203 \<and> b = 0 \<and> c = 113)"

definition byte :: "int \<Rightarrow> bool" where
  "byte x \<longleftrightarrow> 0 \<le> x \<and> x < 256"

lemma byte_int [simp]: "byte (int n) \<longleftrightarrow> n < 256"
  by (simp add: byte_def)

lemma byte_numeral [simp]: "byte 0" "byte 1" "byte (numeral n) \<longleftrightarrow> numeral n < (256::int)"
  by (simp_all add: byte_def)

lemma quotient: "0 \<le> r \<Longrightarrow> r < n \<Longrightarrow> (q * n + r) div n = (q::int)"
  by simp

lemma pack_eq:
  fixes q :: int
  assumes "0 \<le> r" "r < n" "0 \<le> r'" "r' < n"
  shows "q * n + r = q' * n + r' \<longleftrightarrow> q = q' \<and> r = r'"
  using quotient [OF assms(1,2), of q] quotient [OF assms(3,4), of q'] by auto

definition snoc_byte :: "int \<Rightarrow> int \<Rightarrow> int" where
  "snoc_byte q r = q * 256 + r"

lemma dotted_bytes: "dotted a b c d = snoc_byte (snoc_byte (snoc_byte a b) c) d"
  by (simp add: dotted_def snoc_byte_def)

lemma byte_parts:
  assumes "byte r"
  shows "0 \<le> r div 2" "r div 2 < 128" "0 \<le> r div 16" "r div 16 < 16"
  using assms by (auto simp: byte_def)

lemma snoc_byte_div:
  "byte r \<Longrightarrow> snoc_byte q r div 256 = q"
  "snoc_byte q r div 2 = q * 128 + r div 2" "snoc_byte q r div 16 = q * 16 + r div 16"
  using div_mult_self3 [of 2 r "q * 128"] div_mult_self3 [of 16 r "q * 16"]
  by (simp_all add: snoc_byte_def byte_def)

lemma snoc_byte_eq:
  assumes "byte r" "byte r'"
  shows "snoc_byte q r = snoc_byte q' r' \<longleftrightarrow> q = q' \<and> r = r'"
    "snoc_byte q r div 2 = snoc_byte q' r' div 2 \<longleftrightarrow> q = q' \<and> r div 2 = r' div 2"
    "snoc_byte q r div 16 = snoc_byte q' r' div 16 \<longleftrightarrow> q = q' \<and> r div 16 = r' div 16"
proof -
  show "snoc_byte q r = snoc_byte q' r' \<longleftrightarrow> q = q' \<and> r = r'"
    using assms unfolding snoc_byte_def byte_def by (intro pack_eq) simp_all
  show "snoc_byte q r div 2 = snoc_byte q' r' div 2 \<longleftrightarrow> q = q' \<and> r div 2 = r' div 2"
    unfolding snoc_byte_div using byte_parts [OF assms(1)] byte_parts [OF assms(2)] by (intro pack_eq)
  show "snoc_byte q r div 16 = snoc_byte q' r' div 16 \<longleftrightarrow> q = q' \<and> r div 16 = r' div 16"
    unfolding snoc_byte_div using byte_parts [OF assms(1)] byte_parts [OF assms(2)] by (intro pack_eq)
qed

lemma dotted_div:
  assumes "byte b" "byte c" "byte d"
  shows "dotted a b c d div 256 = snoc_byte (snoc_byte a b) c"
    "dotted a b c d div 65536 = snoc_byte a b"
    "dotted a b c d div 16777216 = a"
    "dotted a b c d div 131072 = snoc_byte a b div 2"
    "dotted a b c d div 1048576 = snoc_byte a b div 16"
    "dotted a b c d div 268435456 = a div 16"
proof -
  show 1: "dotted a b c d div 256 = snoc_byte (snoc_byte a b) c"
    using assms(3) by (simp add: dotted_bytes snoc_byte_div)
  show 2: "dotted a b c d div 65536 = snoc_byte a b"
    using zdiv_zmult2_eq [of 256 "dotted a b c d" 256] 1 assms(2) by (simp add: snoc_byte_div)
  show 3: "dotted a b c d div 16777216 = a"
    using zdiv_zmult2_eq [of 256 "dotted a b c d" 65536] 2 assms(1) by (simp add: snoc_byte_div(1))
  show "dotted a b c d div 131072 = snoc_byte a b div 2"
    using zdiv_zmult2_eq [of 2 "dotted a b c d" 65536] 2 by simp
  show "dotted a b c d div 1048576 = snoc_byte a b div 16"
    using zdiv_zmult2_eq [of 16 "dotted a b c d" 65536] 2 by simp
  show "dotted a b c d div 268435456 = a div 16"
    using zdiv_zmult2_eq [of 16 "dotted a b c d" 16777216] 3 by simp
qed

lemma in_net_dotted:
  assumes "byte b" "byte c" "byte d" "byte x" "byte y" "byte z"
  shows "in_net 32 (dotted a b c d) (dotted w x y z, 4) \<longleftrightarrow> a div 16 = w div 16"
    "in_net 32 (dotted a b c d) (dotted w x y z, 8) \<longleftrightarrow> a = w"
    "in_net 32 (dotted a b c d) (dotted w x y z, 12) \<longleftrightarrow> a = w \<and> b div 16 = x div 16"
    "in_net 32 (dotted a b c d) (dotted w x y z, 15) \<longleftrightarrow> a = w \<and> b div 2 = x div 2"
    "in_net 32 (dotted a b c d) (dotted w x y z, 16) \<longleftrightarrow> a = w \<and> b = x"
    "in_net 32 (dotted a b c d) (dotted w x y z, 24) \<longleftrightarrow> a = w \<and> b = x \<and> c = y"
    "in_net 32 (dotted a b c d) (dotted w x y z, 31) \<longleftrightarrow> a = w \<and> b = x \<and> c = y \<and> d div 2 = z div 2"
    "in_net 32 (dotted a b c d) (dotted w x y z, 32) \<longleftrightarrow> a = w \<and> b = x \<and> c = y \<and> d = z"
proof -
  note q = dotted_div [OF assms(1-3), of a] dotted_div [OF assms(4-6), of w]
  have net: "in_net 32 (dotted a b c d) (dotted w x y z, n) \<longleftrightarrow>
      dotted a b c d div 2 ^ (32 - n) = dotted w x y z div 2 ^ (32 - n)" for n
    by (simp add: in_net_def)
  show "in_net 32 (dotted a b c d) (dotted w x y z, 4) \<longleftrightarrow> a div 16 = w div 16"
    "in_net 32 (dotted a b c d) (dotted w x y z, 8) \<longleftrightarrow> a = w"
    "in_net 32 (dotted a b c d) (dotted w x y z, 12) \<longleftrightarrow> a = w \<and> b div 16 = x div 16"
    "in_net 32 (dotted a b c d) (dotted w x y z, 15) \<longleftrightarrow> a = w \<and> b div 2 = x div 2"
    "in_net 32 (dotted a b c d) (dotted w x y z, 16) \<longleftrightarrow> a = w \<and> b = x"
    "in_net 32 (dotted a b c d) (dotted w x y z, 24) \<longleftrightarrow> a = w \<and> b = x \<and> c = y"
    by (simp_all add: net q snoc_byte_eq assms)
  show "in_net 32 (dotted a b c d) (dotted w x y z, 31) \<longleftrightarrow> a = w \<and> b = x \<and> c = y \<and> d div 2 = z div 2"
    "in_net 32 (dotted a b c d) (dotted w x y z, 32) \<longleftrightarrow> a = w \<and> b = x \<and> c = y \<and> d = z"
    by (simp_all add: net) (simp_all add: dotted_bytes snoc_byte_eq assms)
qed

lemma byte_ranges:
  "int b div 16 = 1 \<longleftrightarrow> 16 \<le> b \<and> b < 32" "int b div 2 = 9 \<longleftrightarrow> b \<in> {18, 19}" "int b div 2 = 85 \<longleftrightarrow> b \<in> {170, 171}"
  "int b div 16 = 14 \<longleftrightarrow> 224 \<le> b \<and> b < 240" "int b div 16 = 15 \<longleftrightarrow> 240 \<le> b \<and> b < 256"
  by auto

lemma int_eq_numeral: "int n = numeral k \<longleftrightarrow> n = numeral k"
  by simp

lemma dotted_zero: "dotted (int a) (int b) (int c) (int d) = 0 \<Longrightarrow> a = 0"
  by (simp add: dotted_def)

lemma internal_dotted:
  assumes "a < 256" "b < 256" "c < 256" "d < 256"
  shows "internal_address (V4 (dotted (int a) (int b) (int c) (int d))) = internal_quad a b c d"
proof -
  have high: "224 \<le> a \<and> a < 240 \<or> 240 \<le> a \<and> a < 256 \<longleftrightarrow> 224 \<le> a"
    using assms(1) by auto
  show ?thesis
    using dotted_zero [of a b c d] high
    by (cases "a = 192") (auto simp: internal_quad_def is_private4_def private4_def private4_exceptions_def
        in_net_dotted assms byte_ranges int_eq_numeral)
qed

lemma ends_with_last: "ends_with suffix s \<Longrightarrow> suffix \<noteq> [] \<Longrightarrow> last s = last suffix"
  unfolding ends_with_def by (metis append_take_drop_id last_append)

lemma quad_not_local: "\<not> local_name (ip4_str a b c d)"
proof -
  have "last (ip4_str a b c d) = last (nat_str d)"
    by (simp add: ip4_str_def)
  then have "is_dec (last (ip4_str a b c d))"
    using nat_str_chars [of "last (nat_str d)" d] by simp
  then show ?thesis
    using ends_with_last [of "''.localhost''" "ip4_str a b c d"] ends_with_last [of "''.local''" "ip4_str a b c d"]
    by (auto simp: local_name_def is_dec_def)
qed

lemma map_lower_digits: "list_all (\<lambda>x. is_dec x \<or> x = CHR ''.'') s \<Longrightarrow> py_lower s = s"
  unfolding py_lower_def by (induction s) (auto simp: lower_char_def is_dec_def)

lemma lower_ip4_str [simp]: "py_lower (ip4_str a b c d) = ip4_str a b c d"
  using ip4_str_chars by (intro map_lower_digits) (auto simp: list_all_iff)

lemma ip4_str_nonempty [simp]: "ip4_str a b c d \<noteq> []"
  by (simp add: ip4_str_def)

lemma partition_absent: "c \<notin> set s \<Longrightarrow> py_partition c s = (s, [])"
  by (induction s) (auto simp: py_partition_def)

lemma partition_prefix: "c \<notin> set s \<Longrightarrow> fst (py_partition c s) = s"
  by (simp add: partition_absent)

text \<open>A host with none of the delimiters.\<close>

definition plain_host :: "string \<Rightarrow> bool" where
  "plain_host h \<longleftrightarrow> h \<noteq> [] \<and> list_all (\<lambda>x. x \<notin> set ''/?#@:%[]'' \<and> code x \<notin> {9, 10, 13}) h"

lemma ip4_str_plain [simp]: "plain_host (ip4_str a b c d)"
proof -
  have "x \<notin> set ''/?#@:%[]'' \<and> code x \<notin> {9, 10, 13}" if "is_dec x \<or> x = CHR ''.''" for x
    using that by (auto simp: is_dec_def)
  then show ?thesis
    using ip4_str_chars by (fastforce simp: plain_host_def list_all_iff)
qed

text \<open>What may follow a host: a port, and a path, a query or a fragment.\<close>

definition port_part :: "string \<Rightarrow> bool" where
  "port_part p \<longleftrightarrow> p = [] \<or> (hd p = CHR '':'' \<and> list_all is_dec (tl p))"

definition url_tail :: "string \<Rightarrow> bool" where
  "url_tail t \<longleftrightarrow> t = [] \<or> hd t \<in> set ''/?#''"

lemma takeWhile_netloc:
  "list_all (\<lambda>x. x \<notin> set ''/?#'') s \<Longrightarrow> url_tail t \<Longrightarrow>
    takeWhile (\<lambda>x. x \<notin> set ''/?#'') (s @ t) = s \<and> dropWhile (\<lambda>x. x \<notin> set ''/?#'') (s @ t) = t"
  by (induction s) (cases t, auto simp: url_tail_def)+

lemma port_char: "is_dec x \<or> x = CHR '':'' \<Longrightarrow> x \<notin> set ''/?#[]@'' \<and> code x \<notin> {9, 10, 13}"
  by (auto simp: is_dec_def)

lemma port_part_chars:
  assumes "port_part p" "x \<in> set p"
  shows "x \<notin> set ''/?#[]@'' \<and> code x \<notin> {9, 10, 13}"
proof (rule port_char)
  show "is_dec x \<or> x = CHR '':''"
    using assms by (cases p) (auto simp: port_part_def list_all_iff)
qed

lemma host_chars: "plain_host h \<Longrightarrow> x \<in> set h \<Longrightarrow> x \<notin> set ''/?#@:%[]'' \<and> code x \<notin> {9, 10, 13}"
  by (simp add: plain_host_def list_all_iff)

lemma netloc_chars:
  assumes "plain_host h" "port_part p" "x \<in> set (h @ p)"
  shows "x \<notin> set ''/?#[]@''" "code x \<notin> {9, 10, 13}"
  using assms(3) host_chars [OF assms(1), of x] port_part_chars [OF assms(2), of x] by auto

lemma rpartition_absent: "c \<notin> set s \<Longrightarrow> py_rpartition c s = (None, s)"
  by (simp add: py_rpartition_def)

lemma urlsplit_plain:
  assumes "plain_host h" "port_part port" "url_tail tail" "scheme \<in> {''http'', ''https''}"
  shows "\<exists>p q f. urlsplit (scheme @ ''://'' @ h @ port @ tail) =
    Inr \<lparr>ur_scheme = scheme, ur_netloc = h @ port, ur_path = p, ur_query = q, ur_fragment = f\<rparr>"
proof -
  note plain = netloc_chars [OF assms(1,2)]
  have "list_all (\<lambda>x. x \<notin> set ''/?#[]@'') (h @ port)"
    unfolding list_all_iff using plain(1) by blast
  then have chars: "list_all (\<lambda>x. x \<notin> set ''/?#'') (h @ port)" "CHR ''['' \<notin> set (h @ port)" "CHR '']'' \<notin> set (h @ port)"
    by (auto simp: list_all_iff)
  have kept: "filter (\<lambda>x. code x \<notin> {9, 10, 13}) (h @ port) = h @ port"
    using plain(2) by (intro filter_True) blast
  let ?tail = "filter (\<lambda>x. code x \<notin> {9, 10, 13}) tail"
  have tail: "url_tail ?tail"
    using assms(3) by (cases tail) (auto simp: url_tail_def)
  have scheme: "split_scheme (scheme @ ''://'' @ (h @ port) @ ?tail) = (scheme, ''//'' @ (h @ port) @ ?tail)"
    using assms(4) by (elim insertE emptyE) (simp add: split_scheme_def ascii_alpha_def scheme_char_def is_dec_def, code_simp)+
  have netloc: "split_netloc (''//'' @ (h @ port) @ ?tail) = (h @ port, ?tail)"
    using takeWhile_netloc [OF chars(1) tail] by (simp add: split_netloc_def)
  have clean: "filter (\<lambda>x. code x \<notin> {9, 10, 13}) (dropWhile (\<lambda>x. code x \<le> 32) (scheme @ ''://'' @ h @ port @ tail)) =
      scheme @ ''://'' @ (h @ port) @ ?tail"
    using assms(4) kept by (elim insertE emptyE) simp_all
  show ?thesis
    using chars(2,3) scheme netloc unfolding urlsplit_def clean by (simp add: Let_def netloc_ok_def split_beta)
qed

lemma lower_char_idem: "lower_char (lower_char x) = lower_char x"
  by (auto simp: lower_char_def)

lemma py_lower_idem [simp]: "py_lower (py_lower s) = py_lower s"
  by (simp add: py_lower_def lower_char_idem)

lemma validate_plain:
  assumes "plain_host h" "port_part port" "url_tail tail" "scheme \<in> {''http'', ''https''}"
  shows "validate_webhook_url (scheme @ ''://'' @ h @ port @ tail) =
    (if local_name (py_lower h) then Inl (ValueError ''url must not point at a local host'')
     else case ip_address (py_lower h) of
       None \<Rightarrow> Inr (scheme @ ''://'' @ h @ port @ tail)
     | Some a \<Rightarrow> if internal_address a then Inl (ValueError ''url must not point at a private or local address'')
         else Inr (scheme @ ''://'' @ h @ port @ tail))"
proof -
  obtain p q f where u: "urlsplit (scheme @ ''://'' @ h @ port @ tail) =
      Inr \<lparr>ur_scheme = scheme, ur_netloc = h @ port, ur_path = p, ur_query = q, ur_fragment = f\<rparr>" (is "_ = Inr ?u")
    using urlsplit_plain [OF assms] by blast
  have chars: "CHR '':'' \<notin> set h" "CHR ''%'' \<notin> set h" "h \<noteq> []"
    using assms(1) by (auto simp: plain_host_def list_all_iff)
  have host: "py_partition CHR '':'' (h @ port) = (h, tl port)"
  proof (cases port)
    case (Cons x ds)
    then show ?thesis
      using assms(2) chars(1) py_partition_sep [of "CHR '':''" h ds] by (simp add: port_part_def)
  qed (simp add: partition_absent chars(1))
  have free: "CHR ''@'' \<notin> set (h @ port)" "CHR ''['' \<notin> set (h @ port)"
    using netloc_chars(1) [OF assms(1,2)] by fastforce+
  have "url_hostname ?u = Some (py_lower h)" "url_username ?u = []" "url_password ?u = []"
    using chars host free by (simp_all add: url_hostname_def url_hostinfo_def url_username_def url_password_def Let_def
        rpartition_absent partition_absent)
  then show ?thesis
    using u assms(4) by (auto simp: validate_webhook_url_def Let_def split: option.split)
qed

section \<open>Properties\<close>

text \<open>C37. A receiver written with a dotted IPv4 address (\<open>http\<close> or \<open>https\<close>, no credentials, with or without a port,
  followed by nothing or by a path, a query or a fragment) is refused exactly when the address is
  internal: unspecified, private, loopback, link-local, documentation, benchmark, multicast or
  reserved; every other one is accepted unchanged.\<close>

theorem dotted_receiver_refused_iff_internal:
  assumes "a < 256" "b < 256" "c < 256" "d < 256"
    and "scheme \<in> {''http'', ''https''}" "port_part port" "url_tail tail"
  shows "validate_webhook_url (scheme @ ''://'' @ ip4_str a b c d @ port @ tail) =
    (if internal_quad a b c d then Inl (ValueError ''url must not point at a private or local address'')
     else Inr (scheme @ ''://'' @ ip4_str a b c d @ port @ tail))"
proof -
  have "CHR ''/'' \<notin> set (ip4_str a b c d)"
    by (rule ip4_str_free) (simp_all add: is_dec_def)
  then have "ip_address (ip4_str a b c d) = Some (V4 (dotted (int a) (int b) (int c) (int d)))"
    by (simp add: ip_address_def ip4_of_ip4_str assms)
  then show ?thesis
    using internal_dotted [OF assms(1-4)] unfolding validate_plain [OF ip4_str_plain assms(6,7,5)]
    by (simp add: quad_not_local del: internal_address.simps)
qed

theorem dotted_receiver_refused_iff_internal_witness:
  "validate_webhook_url (''http'' @ ''://'' @ ip4_str 169 254 169 254 @ '':80'' @ ''/latest/meta-data'') =
     Inl (ValueError ''url must not point at a private or local address'') \<and>
   validate_webhook_url (''https'' @ ''://'' @ ip4_str 8 8 8 8 @ [] @ []) = Inr (''https'' @ ''://'' @ ip4_str 8 8 8 8 @ [] @ [])"
proof -
  have parts: "port_part '':80''" "url_tail ''/latest/meta-data''" "port_part []" "url_tail []"
    by code_simp+
  show ?thesis
    using dotted_receiver_refused_iff_internal [of 169 254 169 254 "''http''", OF _ _ _ _ _ parts(1,2)]
      dotted_receiver_refused_iff_internal [of 8 8 8 8 "''https''", OF _ _ _ _ _ parts(3,4)]
    by (simp add: internal_quad_def)
qed

text \<open>Three spellings of the loopback host pass: the fully qualified name with its final dot, the short
  form and the plain number of the address, which resolvers read as \<open>127.0.0.1\<close>.\<close>

lemma loopback_spellings_accepted:
  "validate_webhook_url ''https://localhost./hook'' = Inr ''https://localhost./hook''"
  "validate_webhook_url ''https://127.1/hook'' = Inr ''https://127.1/hook''"
  "validate_webhook_url ''https://2130706433/hook'' = Inr ''https://2130706433/hook''"
  by code_simp+

end
