(* ===== verification/Auth.thy ===== *)
theory Auth
  imports Ratelimit Security Json Billing Urls
begin

text \<open>
  Sign-in and sessions (\<^verbatim>\<open>src/src/chmabapay/routers/auth.py\<close>): the session token, the cookie, the gate of a
  frozen account, accounts created at first sign-in, the promotion of operators and the seeding of
  the platform's own store, password sign-in with its lockout and Google sign-in.

  Arguments of the model: \<open>mac\<close> is the raw HMAC-SHA256 digest, \<open>hashpw\<close> and \<open>checkpw\<close> are bcrypt,
  \<open>exchange\<close> is Google's token endpoint (the status
  code and the JSON body it answers with), \<open>fresh_public_id\<close> the generated id of a new store.  The wall clock
  and the monotonic clock are arguments.  A handler that commits before it raises returns the new
  state beside the exception.
\<close>

type_synonym mac_fun = "bytes \<Rightarrow> bytes \<Rightarrow> bytes"

record auth_settings =
  jwt_secret_key :: string
  jwt_ttl_seconds :: int
  google_client_id :: "string option"
  google_client_secret :: "string option"
  google_redirect_uri :: "string option"
  public_origin :: "string option"
  post_login_redirect_url :: string
  admin_emails_csv :: "string option"
  admin_password :: "string option"
  hq_store_id :: "string option"
  hq_payway_link :: "string option"

section \<open>The session token\<close>

definition SESSION_COOKIE :: string where
  "SESSION_COOKIE = ''chmabapay_session''"

definition jwt_header :: json where
  "jwt_header = JObj [(''alg'', JStr ''HS256''), (''typ'', JStr ''JWT'')]"

definition sign_jwt :: "mac_fun \<Rightarrow> json \<Rightarrow> string \<Rightarrow> string" where
  "sign_jwt mac payload secret =
     (let header_b64 = b64url_encode (py_encode (json_dumps jwt_header));
          payload_b64 = b64url_encode (py_encode (json_dumps payload));
          signing_input = header_b64 @ ''.'' @ payload_b64;
          sig = mac (py_encode secret) (py_encode signing_input)
      in signing_input @ ''.'' @ b64url_encode sig)"

text \<open>The expiry check on the \<open>exp\<close> claim: \<open>None\<close> is a comparison that raises.  A float is compared at its
  decimal value, the clock being in microseconds.\<close>

definition expired :: "instant \<Rightarrow> json option \<Rightarrow> bool option" where
  "expired now exp =
     (case exp of
        None \<Rightarrow> Some False
      | Some JNull \<Rightarrow> Some False
      | Some (JInt e) \<Rightarrow> Some (now > seconds e)
      | Some (JBool b) \<Rightarrow> Some (now > seconds (if b then 1 else 0))
      | Some (JFloat t) \<Rightarrow> map_option (\<lambda>(m, e). int_greater now (m, e + 6)) (decimal_parts t)
      | Some _ \<Rightarrow> None)"

definition jwt_parts :: "string \<Rightarrow> (string \<times> string \<times> string) option" where
  "jwt_parts token = (case py_split CHR ''.'' token of [h, p, s] \<Rightarrow> Some (h, p, s) | _ \<Rightarrow> None)"

definition verify_jwt :: "mac_fun \<Rightarrow> string \<Rightarrow> string \<Rightarrow> instant \<Rightarrow> json option" where
  "verify_jwt mac token secret now =
     (case jwt_parts token of
        None \<Rightarrow> None
      | Some (header_b64, payload_b64, sig_b64) \<Rightarrow>
          (case b64url_decode sig_b64 of
             None \<Rightarrow> None
           | Some actual_sig \<Rightarrow>
               if mac (py_encode secret) (py_encode (header_b64 @ ''.'' @ payload_b64)) \<noteq> actual_sig then None
               else (case Option.bind (b64url_decode payload_b64) json_load_bytes of
                  Some (JObj claims) \<Rightarrow>
                    if expired now (map_of claims ''exp'') = Some False then Some (JObj claims) else None
                | _ \<Rightarrow> None)))"

definition session_claims :: "auth_settings \<Rightarrow> instant \<Rightarrow> account \<Rightarrow> string \<Rightarrow> json" where
  "session_claims s now a amr =
     (let iat = epoch_seconds now in
      JObj [(''sub'', JStr (int_str (acc_id a))), (''email'', JStr (acc_email a)),
            (''is_platform_admin'', JBool (acc_is_platform_admin a)), (''amr'', JStr amr),
            (''iat'', JInt iat), (''exp'', JInt (iat + jwt_ttl_seconds s))])"

definition make_session_jwt :: "mac_fun \<Rightarrow> auth_settings \<Rightarrow> instant \<Rightarrow> account \<Rightarrow> string \<Rightarrow> string" where
  "make_session_jwt mac s now a amr = sign_jwt mac (session_claims s now a amr) (jwt_secret_key s)"

section \<open>The cookie\<close>

definition is_https_request :: "request \<Rightarrow> bool" where
  "is_https_request r \<longleftrightarrow>
     py_lower (case header_get r ''x-forwarded-proto'' of Some v \<Rightarrow> v | None \<Rightarrow> []) = ''https'' \<or>
     py_lower (req_scheme r) = ''https''"

definition truthy_str :: "string option \<Rightarrow> bool" where
  "truthy_str x \<longleftrightarrow> (case x of None \<Rightarrow> False | Some s \<Rightarrow> s \<noteq> [])"

definition is_localhost :: "request \<Rightarrow> bool" where
  "is_localhost r \<longleftrightarrow>
     \<not> (truthy_str (header_get r ''x-forwarded-for'') \<or> truthy_str (header_get r ''x-forwarded-host'')) \<and>
     or_str (req_hostname r) [] \<in> {''localhost'', ''127.0.0.1'', ''::1''}"

record cookie =
  ck_value :: string
  ck_secure :: bool
  ck_max_age :: int

definition set_session_cookie :: "string \<Rightarrow> request \<Rightarrow> int \<Rightarrow> cookie" where
  "set_session_cookie token r max_age =
     \<lparr>ck_value = token, ck_secure = is_https_request r \<or> \<not> is_localhost r, ck_max_age = max_age\<rparr>"

definition session_token :: "request \<Rightarrow> string option" where
  "session_token r = map_of (req_cookies r) SESSION_COOKIE"

definition session_auth_method :: "mac_fun \<Rightarrow> auth_settings \<Rightarrow> instant \<Rightarrow> request \<Rightarrow> string" where
  "session_auth_method mac s now r =
     (case session_token r of
        None \<Rightarrow> ''unknown''
      | Some token \<Rightarrow>
          if token = [] then ''unknown''
          else (case verify_jwt mac token (jwt_secret_key s) now of
             None \<Rightarrow> ''unknown''
           | Some payload \<Rightarrow>
               (case json_get payload ''amr'' of Some (JStr amr) \<Rightarrow> amr | _ \<Rightarrow> ''unknown'')))"

section \<open>Who the request is from\<close>

definition RESTRICTED_ALLOWED_WRITES :: "(string \<times> string) list" where
  "RESTRICTED_ALLOWED_WRITES = [(''POST'', ''/api/v1/billing/change-plan'')]"

definition RESTRICTED_REFUSED_READS :: "string list" where
  "RESTRICTED_REFUSED_READS = [''/api/v1/transactions/check-status'']"

definition path_under :: "string \<Rightarrow> string \<Rightarrow> bool" where
  "path_under path prefix \<longleftrightarrow> path = prefix \<or> starts_with (prefix @ ''/'') path"

definition restricted_may_reach :: "request \<Rightarrow> bool" where
  "restricted_may_reach r =
     (let verb = py_upper (req_method r) in
      if (verb, req_path r) \<in> set RESTRICTED_ALLOWED_WRITES then True
      else if verb \<in> {''GET'', ''HEAD'', ''OPTIONS''}
        then \<not> list_ex (path_under (req_path r)) RESTRICTED_REFUSED_READS
      else False)"

text \<open>\<open>int(payload["sub"])\<close>; every failure is the same 401.\<close>

definition claimed_account :: "json \<Rightarrow> int option" where
  "claimed_account payload =
     (case json_get payload ''sub'' of
        Some (JStr t) \<Rightarrow> py_int t
      | Some (JInt i) \<Rightarrow> Some i
      | Some (JBool b) \<Rightarrow> Some (if b then 1 else 0)
      | Some (JFloat t) \<Rightarrow> map_option decimal_trunc (decimal_parts t)
      | _ \<Rightarrow> None)"

definition invalid_session :: exc where
  "invalid_session = HTTPException 401 ''invalid_session''"

definition get_current_session_account ::
  "mac_fun \<Rightarrow> auth_settings \<Rightarrow> instant \<Rightarrow> request \<Rightarrow> db \<Rightarrow> account result"
where
  "get_current_session_account mac s now r d =
     (case session_token r of
        None \<Rightarrow> Inl invalid_session
      | Some token \<Rightarrow>
          if token = [] then Inl invalid_session
          else (case Option.bind (verify_jwt mac token (jwt_secret_key s) now) claimed_account of
             None \<Rightarrow> Inl invalid_session
           | Some account_id \<Rightarrow>
               (case tget acc_id account_id (accounts d) of
                  None \<Rightarrow> Inl invalid_session
                | Some a \<Rightarrow>
                    if acc_status a = ACCOUNT_SUSPENDED then Inl invalid_session
                    else if acc_status a = ACCOUNT_RESTRICTED \<and> \<not> restricted_may_reach r
                      then Inl (HTTPException 403 ''account_restricted'')
                    else Inr a)))"

section \<open>Accounts\<close>

definition add_account :: "account \<Rightarrow> db \<Rightarrow> db" where
  "add_account a d = d\<lparr>accounts := tadd a (accounts d)\<rparr>"

definition ensure_free_subscription :: "instant \<Rightarrow> account \<Rightarrow> db \<Rightarrow> db result" where
  "ensure_free_subscription now a d =
     rbind (scalar_one_or_none (filter (\<lambda>p. plan_code p = ''free'') (plans d))) (\<lambda>free.
       Inr (case free of
          None \<Rightarrow> d
        | Some p \<Rightarrow> add_sub \<lparr>sub_id = fresh_id sub_id (plan_subscriptions d), sub_account_id = acc_id a,
            sub_plan_id = plan_id p, sub_status = SUB_ACTIVE, sub_started_at = None, sub_canceled_at = None,
            sub_next_billing_at = now + days 30, sub_trial_ends_at = None, sub_created_at = now,
            sub_updated_at = now\<rparr> d))"

text \<open>The unique column: no other account has the Google subject.\<close>

definition google_sub_free :: "int \<Rightarrow> string option \<Rightarrow> db \<Rightarrow> bool" where
  "google_sub_free account_id sub d \<longleftrightarrow>
     sub = None \<or> list_all (\<lambda>a. acc_id a = account_id \<or> acc_google_sub a \<noteq> sub) (accounts d)"

definition refresh_account :: "instant \<Rightarrow> string \<Rightarrow> string option \<Rightarrow> bool \<Rightarrow> account \<Rightarrow> account" where
  "refresh_account now name sub rename_existing a =
     (let new_sub = (sub \<noteq> None \<and> acc_google_sub a \<noteq> sub);
          rename = (rename_existing \<and> name \<noteq> [] \<and> acc_name a \<noteq> name);
          a = (if new_sub then a\<lparr>acc_google_sub := sub\<rparr> else a);
          a = (if rename then a\<lparr>acc_name := name\<rparr> else a)
      in if new_sub \<or> rename then a\<lparr>acc_updated_at := now\<rparr> else a)"

definition upsert_account ::
  "instant \<Rightarrow> string \<Rightarrow> string \<Rightarrow> string option \<Rightarrow> bool \<Rightarrow> db \<Rightarrow> (account \<times> db) result"
where
  "upsert_account now email name sub rename_existing d =
     rbind (scalar_one_or_none (filter (\<lambda>a. acc_email a = email) (accounts d))) (\<lambda>found.
       case found of
         None \<Rightarrow>
           let a = \<lparr>acc_id = fresh_id acc_id (accounts d), acc_email = email,
                    acc_name = (if name = [] then email else name), acc_google_sub = sub,
                    acc_status = ACCOUNT_ACTIVE, acc_created_at = now, acc_updated_at = now,
                    acc_whitelabel_enabled = False, acc_is_platform_admin = False, acc_password_hash = None,
                    acc_terms_accepted_at = None, acc_terms_accepted_version = None\<rparr>
           in rbind (guard (google_sub_free (acc_id a) sub d) (RuntimeError ''IntegrityError'')) (\<lambda>_.
              rbind (ensure_free_subscription now a (add_account a d)) (\<lambda>d. Inr (a, d)))
       | Some a \<Rightarrow>
           let a' = refresh_account now name sub rename_existing a
           in rbind (guard (google_sub_free (acc_id a) (acc_google_sub a') d) (RuntimeError ''IntegrityError'')) (\<lambda>_.
              Inr (a', mod_account (acc_id a) (\<lambda>_. a') d)))"

definition admin_emails :: "auth_settings \<Rightarrow> string list" where
  "admin_emails s =
     filter (\<lambda>e. e \<noteq> [])
       (map py_strip (py_split CHR '','' (py_lower (py_strip (or_str (admin_emails_csv s) [])))))"

section \<open>The platform's own store\<close>

definition hq_store_row :: "account \<Rightarrow> string \<Rightarrow> instant \<Rightarrow> db \<Rightarrow> store" where
  "hq_store_row a public_id now d =
     \<lparr>st_id = fresh_id st_id (stores d), st_public_id = public_id, st_account_id = acc_id a,
      st_created_via = ''api'', st_name = HQ_STORE_NAME, st_external_id = None, st_city = ''Phnom Penh'',
      st_support_email = None, st_redirect_success_url = None, st_redirect_failure_url = None,
      st_telegram_chat_id = None, st_brand_color = None, st_logo_image_url = None, st_whitelabel_css = None,
      st_is_internal = True, st_billing_suspended_at = None, st_status = STORE_ACTIVE, st_created_at = now,
      st_updated_at = now\<rparr>"

definition hq_link_row :: "(string \<Rightarrow> string) \<Rightarrow> store \<Rightarrow> string \<Rightarrow> db \<Rightarrow> payment_link" where
  "hq_link_row slug st url d =
     \<lparr>lk_id = fresh_id lk_id (payment_links d), lk_store_id = st_id st, lk_type = LINK_ABA_PAYWAY,
      lk_raw_link = url, lk_merchant_account_id = slug url, lk_merchant_name = Some HQ_STORE_NAME,
      lk_payway_client_id = None, lk_currency = ''USD'', lk_verification = LINK_VERIFIED,
      lk_min_amount_cents = 1, lk_max_amount_cents = None, lk_status = LINK_ACTIVE\<rparr>"

definition existing_hq_store :: "auth_settings \<Rightarrow> account \<Rightarrow> db \<Rightarrow> store option result" where
  "existing_hq_store s a d =
     (let configured_id = py_strip (or_str (hq_store_id s) []) in
      scalar_one_or_none
        (filter (\<lambda>st. if configured_id \<noteq> [] then st_public_id st = configured_id
                      else st_account_id st = acc_id a \<and> st_name st = HQ_STORE_NAME) (stores d)))"

definition ensure_hq_store ::
  "(string \<Rightarrow> string) \<Rightarrow> auth_settings \<Rightarrow> string \<Rightarrow> instant \<Rightarrow> account \<Rightarrow> db \<Rightarrow> db result"
where
  "ensure_hq_store slug s fresh_public_id now a d =
     (let configured_id = py_strip (or_str (hq_store_id s) []);
          link_url = py_strip (or_str (hq_payway_link s) [])
      in if \<not> acc_is_platform_admin a \<or> (configured_id = [] \<and> link_url = []) then Inr d
         else rbind (existing_hq_store s a d) (\<lambda>existing.
           case existing of
             Some st \<Rightarrow> Inr (d\<lparr>stores := tupd st_id (st_id st) (\<lambda>st. st\<lparr>st_is_internal := True\<rparr>) (stores d)\<rparr>)
           | None \<Rightarrow>
               let public_id = (if configured_id \<noteq> [] then configured_id else fresh_public_id);
                   st = hq_store_row a public_id now d;
                   d1 = d\<lparr>stores := tadd st (stores d)\<rparr>
               in rbind (guard (public_id \<notin> st_public_id ` set (stores d)) (RuntimeError ''IntegrityError'')) (\<lambda>_.
                  Inr (if link_url = [] then d1
                       else d1\<lparr>payment_links := tadd (hq_link_row slug st link_url d) (payment_links d)\<rparr>))))"

definition promote_admin :: "auth_settings \<Rightarrow> instant \<Rightarrow> account \<Rightarrow> account" where
  "promote_admin s now a =
     (if py_lower (acc_email a) \<in> set (admin_emails s) \<and> \<not> (acc_is_platform_admin a \<and> acc_whitelabel_enabled a)
      then a\<lparr>acc_is_platform_admin := True, acc_whitelabel_enabled := True, acc_updated_at := now\<rparr>
      else a)"

text \<open>The newest live subscription; the ids are distinct, so there is one at most.\<close>

definition newest_live_sub :: "int \<Rightarrow> db \<Rightarrow> plan_subscription option" where
  "newest_live_sub account_id d =
     (case filter (\<lambda>s. sub_account_id s = account_id \<and> live_sub s) (plan_subscriptions d) of
        [] \<Rightarrow> None
      | x # xs \<Rightarrow> Some (fold (\<lambda>y m. if sub_id y > sub_id m then y else m) xs x))"

definition nudge_to_pro :: "account \<Rightarrow> db \<Rightarrow> db result" where
  "nudge_to_pro a d =
     (case newest_live_sub (acc_id a) d of
        None \<Rightarrow> Inr d
      | Some sub \<Rightarrow>
          rbind (scalar_one_or_none (filter (\<lambda>p. plan_id p = sub_plan_id sub) (plans d))) (\<lambda>plan.
            case plan of
              None \<Rightarrow> Inr d
            | Some p \<Rightarrow>
                if plan_code p \<noteq> ''free'' then Inr d
                else rbind (scalar_one_or_none (filter (\<lambda>p. plan_code p = ''pro'') (plans d))) (\<lambda>better.
                  Inr (case better of
                     None \<Rightarrow> d
                   | Some b \<Rightarrow> mod_sub (sub_id sub) (\<lambda>x. x\<lparr>sub_plan_id := plan_id b, sub_status := SUB_ACTIVE\<rparr>) d))))"

definition maybe_promote_admin_and_seed_hq ::
  "(string \<Rightarrow> string) \<Rightarrow> auth_settings \<Rightarrow> string \<Rightarrow> instant \<Rightarrow> account \<Rightarrow> db \<Rightarrow> (account \<times> db) result"
where
  "maybe_promote_admin_and_seed_hq slug s fresh_public_id now a d =
     (let a1 = promote_admin s now a;
          d1 = mod_account (acc_id a) (\<lambda>_. a1) d
      in rbind (ensure_hq_store slug s fresh_public_id now a1 d1) (\<lambda>d2.
         if \<not> acc_is_platform_admin a1 then Inr (a1, d2)
         else rbind (nudge_to_pro a1 d2) (\<lambda>d3. Inr (a1, d3))))"

section \<open>Password sign-in\<close>

definition login_body_ok :: "string \<Rightarrow> string \<Rightarrow> bool" where
  "login_body_ok email password \<longleftrightarrow>
     3 \<le> length email \<and> length email \<le> 255 \<and> 1 \<le> length password \<and> length password \<le> 200"

definition audit_login ::
  "account option \<Rightarrow> string \<Rightarrow> string \<Rightarrow> string \<Rightarrow> string option \<Rightarrow> (string \<times> json) list \<Rightarrow> db \<Rightarrow> db"
where
  "audit_login a action email ip reason extra d =
     audit_record a action (if a = None then ''Email'' else ''Account'')
       (case a of None \<Rightarrow> 0 | Some a \<Rightarrow> acc_id a)
       ([(''method'', JStr ''password''), (''email'', JStr email), (''ip'', JStr ip)] @
        (case reason of None \<Rightarrow> [] | Some x \<Rightarrow> [(''reason'', JStr x)]) @ extra) d"

record login_env =
  le_mac :: mac_fun
  le_hashpw :: "bytes \<Rightarrow> string"
  le_checkpw :: "bytes \<Rightarrow> string \<Rightarrow> bool option"
  le_settings :: auth_settings

record login_out =
  lo_email :: string
  lo_name :: string
  lo_is_platform_admin :: bool
  lo_cookie :: cookie

text \<open>Adopting the configured operator password at the first sign-in.\<close>

definition adopt_bootstrap ::
  "login_env \<Rightarrow> instant \<Rightarrow> string \<Rightarrow> account option \<Rightarrow> db \<Rightarrow> (account option \<times> db) result"
where
  "adopt_bootstrap E now email found d =
     (case found of
        None \<Rightarrow> Inr (None, d)
      | Some a \<Rightarrow>
          let bootstrap = py_strip (or_str (admin_password (le_settings E)) []) in
          if acc_password_hash a = None \<and> bootstrap \<noteq> [] \<and> email \<in> set (admin_emails (le_settings E))
          then rbind (hash_password (le_hashpw E) bootstrap) (\<lambda>h.
            let a = a\<lparr>acc_password_hash := Some h, acc_updated_at := now\<rparr>
            in Inr (Some a, mod_account (acc_id a) (\<lambda>_. a) d))
          else Inr (Some a, d))"

text \<open>\<open>lock\<close> is the lockout the application installs, \<open>None\<close> when it has none; \<open>tick\<close> reads the
  monotonic clock.\<close>

definition remaining_lock :: "('c, login_failures) ttl_ops option \<Rightarrow> instant \<Rightarrow> string \<Rightarrow> 'c \<Rightarrow> int \<times> 'c" where
  "remaining_lock lock tick email c = (case lock of None \<Rightarrow> (0, c) | Some C \<Rightarrow> locked_for C tick email c)"

definition note_failure :: "('c, login_failures) ttl_ops option \<Rightarrow> instant \<Rightarrow> string \<Rightarrow> 'c \<Rightarrow> 'c" where
  "note_failure lock tick email c =
     (case lock of None \<Rightarrow> c | Some C \<Rightarrow> snd (record_failure C LOGIN_FAILURE_THRESHOLD tick tick email c))"

definition note_success :: "('c, login_failures) ttl_ops option \<Rightarrow> string \<Rightarrow> 'c \<Rightarrow> 'c" where
  "note_success lock email c = (case lock of None \<Rightarrow> c | Some C \<Rightarrow> clear_failures C email c)"

definition signed_in ::
  "login_env \<Rightarrow> ('c, login_failures) ttl_ops option \<Rightarrow> instant \<Rightarrow> string \<Rightarrow> request \<Rightarrow> string \<Rightarrow> account \<Rightarrow>
   'c \<Rightarrow> db \<Rightarrow> (exc + login_out) \<times> 'c \<times> db"
where
  "signed_in E lock now fresh_public_id r email a c d =
     (let s = le_settings E in
      case maybe_promote_admin_and_seed_hq extract_slug s fresh_public_id now a d of
        Inl e \<Rightarrow> (Inl e, c, d)
      | Inr (a, d) \<Rightarrow>
          (Inr \<lparr>lo_email = acc_email a, lo_name = acc_name a, lo_is_platform_admin = acc_is_platform_admin a,
                lo_cookie = set_session_cookie (make_session_jwt (le_mac E) s now a ''password'') r (jwt_ttl_seconds s)\<rparr>,
           note_success lock email c,
           audit_login (Some a) ''auth.login_succeeded'' email (client_ip r) None [] d))"

definition password_login ::
  "login_env \<Rightarrow> ('c, login_failures) ttl_ops option \<Rightarrow> instant \<Rightarrow> instant \<Rightarrow> string \<Rightarrow> request \<Rightarrow> string \<Rightarrow> string \<Rightarrow>
   'c \<Rightarrow> db \<Rightarrow> (exc + login_out) \<times> 'c \<times> db"
where
  "password_login E lock now tick fresh_public_id r body_email password c d =
     (if \<not> login_body_ok body_email password then (Inl (HTTPException 422 ''validation_error''), c, d)
      else
        let email = py_lower (py_strip body_email); ip = client_ip r;
            (remaining, c) = remaining_lock lock tick email c
        in if remaining > 0 then
             (Inl (HTTPException 429 ''too_many_attempts''), c,
              audit_login None ''auth.login_blocked'' email ip (Some ''locked_out'')
                [(''locked_for_seconds'', JInt remaining)] d)
           else case scalar_one_or_none (filter (\<lambda>a. py_lower (acc_email a) = email) (accounts d)) of
             Inl e \<Rightarrow> (Inl e, c, d)
           | Inr found \<Rightarrow>
               (case adopt_bootstrap E now email found d of
                  Inl e \<Rightarrow> (Inl e, c, d)
                | Inr (found, d) \<Rightarrow>
                    (case found of
                       None \<Rightarrow>
                         (Inl (HTTPException 401 ''invalid_credentials''), note_failure lock tick email c,
                          audit_login None ''auth.login_failed'' email ip (Some ''invalid_credentials'') [] d)
                     | Some a \<Rightarrow>
                         if \<not> verify_password (le_checkpw E) password (acc_password_hash a) then
                           (Inl (HTTPException 401 ''invalid_credentials''), note_failure lock tick email c,
                            audit_login (Some a) ''auth.login_failed'' email ip (Some ''invalid_credentials'') [] d)
                         else if acc_status a = ACCOUNT_SUSPENDED then
                           (Inl (HTTPException 403 ''account_suspended''), c,
                            audit_login (Some a) ''auth.login_failed'' email ip (Some ''account_suspended'') [] d)
                         else signed_in E lock now fresh_public_id r email a c d)))"

section \<open>Google sign-in\<close>

definition resolve_google_redirect_uri :: "auth_settings \<Rightarrow> request \<Rightarrow> string" where
  "resolve_google_redirect_uri s r =
     (let suffix = ''/user/google/auth/callback'';
          proto = py_lower (or_str (header_get r ''x-forwarded-proto'') []);
          host = or_str (header_get r ''x-forwarded-host'') []
      in if truthy_str (google_redirect_uri s) then the (google_redirect_uri s)
         else if truthy_str (public_origin s) then rstrip_char CHR ''/'' (the (public_origin s)) @ suffix
         else if proto \<noteq> [] \<and> host \<noteq> [] then proto @ ''://'' @ host @ suffix
         else req_scheme r @ ''://'' @ req_netloc r @ suffix)"

definition is_safe_next :: "string option \<Rightarrow> bool" where
  "is_safe_next next_path \<longleftrightarrow>
     (case next_path of
        None \<Rightarrow> False
      | Some p \<Rightarrow> starts_with ''/'' p \<and> \<not> starts_with ''//'' p)"

definition encode_google_state :: "instant \<Rightarrow> string option \<Rightarrow> string" where
  "encode_google_state now next_path =
     b64url_encode (py_encode (json_dumps (JObj
       ((''ts'', JInt (epoch_seconds now)) #
        (if is_safe_next next_path then [(''next'', JStr (the next_path))] else [])))))"

definition decode_google_state :: "string option \<Rightarrow> (string \<times> json) list" where
  "decode_google_state state_param =
     (case state_param of
        None \<Rightarrow> []
      | Some p \<Rightarrow>
          if p = [] then []
          else (case Option.bind (b64url_decode p) json_load_bytes of Some (JObj kvs) \<Rightarrow> kvs | _ \<Rightarrow> []))"

text \<open>The page to return to; a value that is not a string has no \<^verbatim>\<open>startswith\<close>.\<close>

definition login_redirect :: "auth_settings \<Rightarrow> string option \<Rightarrow> string result" where
  "login_redirect s state_param =
     (let default_page = (if post_login_redirect_url s = [] then ''/'' else post_login_redirect_url s) in
      case map_of (decode_google_state state_param) ''next'' of
        None \<Rightarrow> Inr default_page
      | Some JNull \<Rightarrow> Inr default_page
      | Some (JStr p) \<Rightarrow> Inr (if is_safe_next (Some p) then p else default_page)
      | Some _ \<Rightarrow> Inl (RuntimeError ''AttributeError''))"

definition json_is_object :: "json \<Rightarrow> bool" where
  "json_is_object v = (case v of JObj _ \<Rightarrow> True | _ \<Rightarrow> False)"

text \<open>The claims of Google's answer: its status, its body, and the middle part of the identity token.\<close>

definition google_identity :: "int \<times> json \<Rightarrow> json result" where
  "google_identity answer =
     rbind (guard (fst answer = 200) (HTTPException 400 ''google_token_exchange_failed'')) (\<lambda>_.
       rbind (guard (json_is_object (snd answer)) (RuntimeError ''AttributeError'')) (\<lambda>_.
       case json_get (snd answer) ''id_token'' of
         Some (JStr t) \<Rightarrow>
           if t = [] then Inl (HTTPException 400 ''google_no_id_token'')
           else (case py_split CHR ''.'' t of
             _ # p # _ \<Rightarrow>
               (case Option.bind (b64url_decode p) json_load_bytes of
                  None \<Rightarrow> Inl (HTTPException 400 ''google_invalid_id_token'')
                | Some v \<Rightarrow> Inr v)
           | _ \<Rightarrow> Inl (HTTPException 400 ''google_invalid_id_token''))
       | Some v \<Rightarrow>
           if json_truthy v then Inl (HTTPException 400 ''google_invalid_id_token'')
           else Inl (HTTPException 400 ''google_no_id_token'')
       | None \<Rightarrow> Inl (HTTPException 400 ''google_no_id_token'')))"

text \<open>A claim on its way to a text column: the driver refuses to bind any other value but null.  A falsy
  one reads as absent where the code tests it first.\<close>

definition text_claim :: "json option \<Rightarrow> string option result" where
  "text_claim v =
     (case v of
        None \<Rightarrow> Inr None
      | Some JNull \<Rightarrow> Inr None
      | Some (JStr t) \<Rightarrow> Inr (Some t)
      | Some _ \<Rightarrow> Inl (RuntimeError ''DataError''))"

definition truthy_claim :: "json option \<Rightarrow> json option" where
  "truthy_claim v = (case v of None \<Rightarrow> None | Some x \<Rightarrow> if json_truthy x then Some x else None)"

text \<open>The account and its session, once Google has vouched for the address.\<close>

definition federated_sign_in ::
  "login_env \<Rightarrow> instant \<Rightarrow> string \<Rightarrow> request \<Rightarrow> string \<Rightarrow> string \<Rightarrow> string \<Rightarrow> string option \<Rightarrow> bool \<Rightarrow> db \<Rightarrow>
   (exc + cookie) \<times> db"
where
  "federated_sign_in E now fresh_public_id r amr email name sub rename d =
     (let s = le_settings E in
      case upsert_account now email name sub rename d of
        Inl e \<Rightarrow> (Inl e, d)
      | Inr (a, d) \<Rightarrow>
          (case maybe_promote_admin_and_seed_hq extract_slug s fresh_public_id now a d of
             Inl e \<Rightarrow> (Inl e, d)
           | Inr (a, d) \<Rightarrow>
               (Inr (set_session_cookie (make_session_jwt (le_mac E) s now a amr) r (jwt_ttl_seconds s)), d)))"

definition google_claims ::
  "auth_settings \<Rightarrow> (string \<Rightarrow> string \<Rightarrow> int \<times> json) \<Rightarrow> request \<Rightarrow> string \<Rightarrow> (string \<times> string \<times> string option) result"
where
  "google_claims s exchange r auth_code =
     rbind (guard (truthy_str (google_client_id s) \<and> truthy_str (google_client_secret s))
       (HTTPException 400 ''google_oauth_not_configured'')) (\<lambda>_.
     rbind (google_identity (exchange auth_code (resolve_google_redirect_uri s r))) (\<lambda>claims.
     rbind (guard (json_is_object claims) (RuntimeError ''AttributeError'')) (\<lambda>_.
     rbind (guard (truthy_claim (json_get claims ''email'') \<noteq> None) (HTTPException 400 ''google_no_email'')) (\<lambda>_.
     rbind (text_claim (json_get claims ''email'')) (\<lambda>email.
     rbind (text_claim (truthy_claim (json_get claims ''name''))) (\<lambda>name.
     rbind (text_claim (json_get claims ''sub'')) (\<lambda>sub.
       Inr (or_str email [], or_str name (or_str email []), sub))))))))"

definition google_callback ::
  "login_env \<Rightarrow> (string \<Rightarrow> string \<Rightarrow> int \<times> json) \<Rightarrow> instant \<Rightarrow> string \<Rightarrow> request \<Rightarrow> string \<Rightarrow> string option \<Rightarrow>
   db \<Rightarrow> (exc + string \<times> cookie) \<times> db"
where
  "google_callback E exchange now fresh_public_id r auth_code state_param d =
     (case google_claims (le_settings E) exchange r auth_code of
        Inl e \<Rightarrow> (Inl e, d)
      | Inr (email, name, sub) \<Rightarrow>
          let (answer, d) = federated_sign_in E now fresh_public_id r ''google'' email name sub True d
          in (rbind answer (\<lambda>ck. rbind (login_redirect (le_settings E) state_param) (\<lambda>url. Inr (url, ck))), d))"

definition google_login :: "auth_settings \<Rightarrow> instant \<Rightarrow> request \<Rightarrow> string option \<Rightarrow> (string \<times> string) list result" where
  "google_login s now r next_path =
     rbind (guard (truthy_str (google_client_id s)) (HTTPException 400 ''google_oauth_not_configured'')) (\<lambda>_.
       Inr [(''client_id'', the (google_client_id s)), (''redirect_uri'', resolve_google_redirect_uri s r),
            (''response_type'', ''code''), (''scope'', ''openid email profile''), (''access_type'', ''offline''),
            (''state'', encode_google_state now next_path)])"

definition dev_login :: "login_env \<Rightarrow> instant \<Rightarrow> string \<Rightarrow> request \<Rightarrow> string \<Rightarrow> db \<Rightarrow> (exc + cookie) \<times> db" where
  "dev_login E now fresh_public_id r email d =
     federated_sign_in E now fresh_public_id r ''dev'' email (fst (py_partition CHR ''@'' email)) None False d"

section \<open>The token reads back\<close>

lemma two_octets: "128 \<le> n \<Longrightarrow> n < 256 \<Longrightarrow> n div 64 = 2 \<or> n div 64 = 3" for n :: nat
  using div_le_mono [of 128 n 64] less_mult_imp_div_less [of n 4 64] by auto

lemma unat_small: "n < 256 \<Longrightarrow> unat (of_nat n :: 8 word) = n"
  by (simp add: unat_of_nat)

lemma utf8_decode_encode: "utf8_decode (py_encode s) = Some s"
proof (induction s)
  case Nil
  then show ?case by (simp add: py_encode_def)
next
  case (Cons c s)
  have step: "py_encode (c # s) = utf8_char c @ py_encode s"
    by (simp add: py_encode_def)
  have c: "code c < 256"
    by (rule code_less)
  show ?case
  proof (cases "code c < 128")
    case True
    then show ?thesis
      using Cons c by (simp add: step utf8_char_def unat_small)
  next
    case False
    define q where "q = code c div 64"
    have q: "q = 2 \<or> q = 3"
      using two_octets [of "code c"] False c by (simp add: q_def)
    have "unat (of_nat (192 + q) :: 8 word) = 192 + q"
      by (rule unat_small) (use q in auto)
    moreover have "unat (of_nat (128 + code c mod 64) :: 8 word) = 128 + code c mod 64"
      using mod_less_divisor [of 64 "code c"] by (intro unat_small) linarith
    moreover have "q * 64 + code c mod 64 = code c"
      by (simp add: q_def)
    ultimately show ?thesis
      using False Cons q by (simp add: step utf8_char_def q_def [symmetric] del: of_nat_add)
  qed
qed

lemma json_load_dumps_bytes: "json_plain v \<Longrightarrow> json_load_bytes (py_encode (json_dumps v)) = Some v"
  by (simp add: json_load_bytes_def utf8_decode_encode json_loads_dumps)

lemma jwt_parts_signed:
  "jwt_parts (b64url_encode a @ ''.'' @ b64url_encode b @ ''.'' @ b64url_encode c) =
     Some (b64url_encode a, b64url_encode b, b64url_encode c)"
proof -
  have dot: "CHR ''.'' \<notin> set (b64url_encode x)" for x
    using b64url_ascii by blast
  show ?thesis
    using py_split_sep [OF dot, of a "b64url_encode b @ ''.'' @ b64url_encode c"]
      py_split_sep [OF dot, of b "b64url_encode c"] py_split_no_sep [OF dot, of c]
    by (simp add: jwt_parts_def)
qed

lemma verify_sign_jwt:
  assumes "json_plain (JObj claims)"
  shows "verify_jwt mac (sign_jwt mac (JObj claims) secret) secret now =
    (if expired now (map_of claims ''exp'') = Some False then Some (JObj claims) else None)"
proof -
  define h p where "h = py_encode (json_dumps jwt_header)" "p = py_encode (json_dumps (JObj claims))"
  define sig where "sig = mac (py_encode secret) (py_encode (b64url_encode h @ ''.'' @ b64url_encode p))"
  have "sign_jwt mac (JObj claims) secret = b64url_encode h @ ''.'' @ b64url_encode p @ ''.'' @ b64url_encode sig"
    by (simp add: sign_jwt_def Let_def h_p_def sig_def)
  then show ?thesis
    using jwt_parts_signed [of h p sig] json_load_dumps_bytes [OF assms]
    by (simp add: verify_jwt_def b64url_roundtrip sig_def h_p_def)
qed

lemma session_claims_plain: "session_claims s now a amr = JObj kvs \<Longrightarrow> json_plain (JObj kvs)"
  by (auto simp: session_claims_def Let_def)

lemma verify_session_jwt:
  "verify_jwt mac (make_session_jwt mac s issued a amr) (jwt_secret_key s) now =
     (if now > seconds (epoch_seconds issued + jwt_ttl_seconds s) then None
      else Some (session_claims s issued a amr))"
proof -
  obtain kvs where kvs: "session_claims s issued a amr = JObj kvs"
    by (simp add: session_claims_def Let_def)
  have "expired now (map_of kvs ''exp'') = Some (now > seconds (epoch_seconds issued + jwt_ttl_seconds s))"
    using kvs by (auto simp: session_claims_def Let_def expired_def)
  then show ?thesis
    using verify_sign_jwt [OF session_claims_plain [OF kvs], of mac "jwt_secret_key s" now]
    by (simp add: make_session_jwt_def kvs)
qed

lemma session_jwt_nonempty: "make_session_jwt mac s now a amr \<noteq> []"
  by (simp add: make_session_jwt_def sign_jwt_def Let_def)

lemma claimed_session_account: "claimed_account (session_claims s now a amr) = Some (acc_id a)"
  by (simp add: claimed_account_def session_claims_def Let_def py_int_int_str)

section \<open>Properties\<close>

text \<open>C17. A session lasts exactly as long as it says: a request that carries the token minted for an
  account is served as that account's current row until the token's lifetime is over, and is a 401
  afterwards; an account suspended meanwhile is a 401 at once, a frozen one a 403 on every request
  the gate does not let through.\<close>

theorem session_token_roundtrip:
  assumes "session_token r = Some (make_session_jwt mac s issued a amr)"
    and "tget acc_id (acc_id a) (accounts d) = Some current"
  shows "get_current_session_account mac s now r d =
    (if now > seconds (epoch_seconds issued + jwt_ttl_seconds s) \<or> acc_status current = ACCOUNT_SUSPENDED
     then Inl (HTTPException 401 ''invalid_session'')
     else if acc_status current = ACCOUNT_RESTRICTED \<and> \<not> restricted_may_reach r
     then Inl (HTTPException 403 ''account_restricted'')
     else Inr current)"
  using assms
  by (simp add: get_current_session_account_def verify_session_jwt claimed_session_account invalid_session_def
      session_jwt_nonempty)

definition demo_mac :: mac_fun where
  "demo_mac k m = [of_nat (length m), 7]"

definition demo_auth_settings :: auth_settings where
  "demo_auth_settings = \<lparr>jwt_secret_key = ''s3cret'', jwt_ttl_seconds = 86400, google_client_id = Some ''gid'',
     google_client_secret = Some ''gs'', google_redirect_uri = None, public_origin = None,
     post_login_redirect_url = ''/'', admin_emails_csv = Some ''Ops@Example.com, '', admin_password = None,
     hq_store_id = None, hq_payway_link = None\<rparr>"

definition demo_request :: request where
  "demo_request = \<lparr>req_method = ''POST'', req_path = ''/api/v1/stores'', req_headers = [],
     req_cookies = [(SESSION_COOKIE, make_session_jwt demo_mac demo_auth_settings (seconds 1000) sample_account ''password'')],
     req_scheme = ''https'', req_hostname = Some ''pay.example.com'', req_netloc = ''pay.example.com'',
     req_client = Some ''10.0.0.9''\<rparr>"

theorem session_token_roundtrip_witness:
  "get_current_session_account demo_mac demo_auth_settings (seconds 2000) demo_request
     (empty_db\<lparr>accounts := [sample_account\<lparr>acc_status := ACCOUNT_RESTRICTED\<rparr>]\<rparr>) =
   Inl (HTTPException 403 ''account_restricted'')"
proof -
  let ?a = "sample_account\<lparr>acc_status := ACCOUNT_RESTRICTED\<rparr>"
  have "session_token demo_request =
      Some (make_session_jwt demo_mac demo_auth_settings (seconds 1000) sample_account ''password'')"
    by (simp add: session_token_def demo_request_def)
  moreover have "tget acc_id (acc_id sample_account) (accounts (empty_db\<lparr>accounts := [?a]\<rparr>)) = Some ?a"
    by code_simp
  ultimately have "get_current_session_account demo_mac demo_auth_settings (seconds 2000) demo_request
      (empty_db\<lparr>accounts := [?a]\<rparr>) =
    (if seconds 2000 > seconds (epoch_seconds (seconds 1000) + jwt_ttl_seconds demo_auth_settings) \<or>
        acc_status ?a = ACCOUNT_SUSPENDED
     then Inl (HTTPException 401 ''invalid_session'')
     else if acc_status ?a = ACCOUNT_RESTRICTED \<and> \<not> restricted_may_reach demo_request
     then Inl (HTTPException 403 ''account_restricted'') else Inr ?a)"
    by (rule session_token_roundtrip)
  moreover have "\<not> restricted_may_reach demo_request"
    by (simp add: restricted_may_reach_def demo_request_def RESTRICTED_ALLOWED_WRITES_def Let_def, code_simp)
  moreover have "\<not> seconds 2000 > seconds (epoch_seconds (seconds 1000) + jwt_ttl_seconds demo_auth_settings)"
    by code_simp
  ultimately show ?thesis
    by simp
qed

text \<open>C14. Nobody is served on a token the secret did not sign: a request gets an account only if its
  cookie is \<open>header.payload.signature\<close> with a signature that decodes to the keyed digest of exactly
  that header and payload, whose claims name the account and have not run out; and the account is
  not suspended.\<close>

theorem session_needs_signature:
  assumes "get_current_session_account mac s now r d = Inr a"
  shows "\<exists>h p sig claims. session_token r = Some (h @ ''.'' @ p @ ''.'' @ sig) \<and>
    b64url_decode sig = Some (mac (py_encode (jwt_secret_key s)) (py_encode (h @ ''.'' @ p))) \<and>
    Option.bind (b64url_decode p) json_load_bytes = Some (JObj claims) \<and>
    claimed_account (JObj claims) = Some (acc_id a) \<and>
    expired now (map_of claims ''exp'') = Some False \<and>
    a \<in> set (accounts d) \<and> acc_status a \<noteq> ACCOUNT_SUSPENDED"
proof -
  obtain token payload i where t: "session_token r = Some token" "verify_jwt mac token (jwt_secret_key s) now = Some payload"
    "claimed_account payload = Some i" "tget acc_id i (accounts d) = Some a" "acc_status a \<noteq> ACCOUNT_SUSPENDED"
    using assms by (auto simp: get_current_session_account_def bind_eq_Some_conv split: option.splits if_splits)
  obtain h p sig claims where v: "jwt_parts token = Some (h, p, sig)"
    "b64url_decode sig = Some (mac (py_encode (jwt_secret_key s)) (py_encode (h @ ''.'' @ p)))"
    "Option.bind (b64url_decode p) json_load_bytes = Some (JObj claims)"
    "expired now (map_of claims ''exp'') = Some False" "payload = JObj claims"
    using t(2) unfolding verify_jwt_def by (auto split: option.splits if_splits json.splits)
  have "py_split CHR ''.'' token = [h, p, sig]"
    using v(1) by (simp add: jwt_parts_def split: list.splits)
  then have "token = h @ ''.'' @ p @ ''.'' @ sig"
    using py_split_join [of "CHR ''.''" token] by simp
  moreover have "a \<in> set (accounts d)" "acc_id a = i"
    using t(4) by (auto simp: tget_def find_Some_iff)
  ultimately show ?thesis
    using t v by auto
qed

theorem session_needs_signature_witness:
  "\<exists>h p sig claims. session_token demo_request = Some (h @ ''.'' @ p @ ''.'' @ sig) \<and>
    b64url_decode sig = Some (demo_mac (py_encode ''s3cret'') (py_encode (h @ ''.'' @ p))) \<and>
    claimed_account (JObj claims) = Some 3"
proof -
  have "get_current_session_account demo_mac demo_auth_settings (seconds 2000) demo_request
      (empty_db\<lparr>accounts := [sample_account]\<rparr>) = Inr sample_account"
  proof -
    have "\<not> seconds 2000 > seconds (epoch_seconds (seconds 1000) + jwt_ttl_seconds demo_auth_settings)"
      by code_simp
    moreover have "tget acc_id (acc_id sample_account) (accounts (empty_db\<lparr>accounts := [sample_account]\<rparr>)) =
        Some sample_account" "acc_status sample_account = ACCOUNT_ACTIVE"
      by code_simp+
    ultimately show ?thesis
      by (simp add: get_current_session_account_def session_token_def demo_request_def session_jwt_nonempty
          verify_session_jwt claimed_session_account)
  qed
  from session_needs_signature [OF this] show ?thesis
    by (auto simp: demo_auth_settings_def sample_account_def)
qed

section \<open>Runs of sign-in attempts\<close>

record login_attempt =
  la_now :: instant
  la_tick :: instant
  la_public_id :: string
  la_request :: request
  la_email :: string
  la_password :: string

definition attempt ::
  "login_env \<Rightarrow> ('c, login_failures) ttl_ops option \<Rightarrow> login_attempt \<Rightarrow> 'c \<Rightarrow> db \<Rightarrow> (exc + login_out) \<times> 'c \<times> db"
where
  "attempt E lock x c d =
     password_login E lock (la_now x) (la_tick x) (la_public_id x) (la_request x) (la_email x) (la_password x) c d"

fun attempts ::
  "login_env \<Rightarrow> ('c, login_failures) ttl_ops option \<Rightarrow> login_attempt list \<Rightarrow> 'c \<Rightarrow> db \<Rightarrow>
   (exc + login_out) list \<times> 'c \<times> db"
where
  "attempts E lock [] c d = ([], c, d)"
| "attempts E lock (x # xs) c d =
     (let (a, c, d) = attempt E lock x c d; (as, c, d) = attempts E lock xs c d in (a # as, c, d))"

abbreviation refused :: "exc + login_out" where
  "refused \<equiv> Inl (HTTPException 401 ''invalid_credentials'')"

abbreviation attempt_email :: "login_attempt \<Rightarrow> string" where
  "attempt_email x \<equiv> py_lower (py_strip (la_email x))"

definition failing :: "('c, login_failures) ttl_ops \<Rightarrow> 'c \<Rightarrow> string \<Rightarrow> nat \<Rightarrow> instant \<Rightarrow> bool" where
  "failing C c email n t \<longleftrightarrow> (\<forall>u \<ge> t.
     (if n = 0 then tc_peek C c u email = None
      else u < t + seconds LOGIN_LOCK_MAX_SECONDS \<longrightarrow> tc_peek C c u email = Some (failed_times (int n) t)))"

lemma attempts_snoc:
  "attempts E lock (xs @ [x]) c d =
     (let (as, c, d) = attempts E lock xs c d; (a, c, d) = attempt E lock x c d in (as @ [a], c, d))"
  by (induction xs arbitrary: c d) (simp_all add: case_prod_unfold Let_def)

lemma length_attempts: "length (fst (attempts E lock xs c d)) = length xs"
  by (induction xs arbitrary: c d) (simp_all add: case_prod_unfold Let_def)

lemma scalar_error: "scalar_one_or_none t = Inl e \<Longrightarrow> \<exists>m. e = RuntimeError m"
  by (auto simp: scalar_one_or_none_def split: list.splits)

lemma ensure_hq_store_error: "ensure_hq_store slug s pid now a d = Inl e \<Longrightarrow> \<exists>m. e = RuntimeError m"
  by (auto simp: ensure_hq_store_def existing_hq_store_def Let_def rbind_eq_Inl
      split: if_splits option.splits dest: scalar_error)

lemma nudge_error: "nudge_to_pro a d = Inl e \<Longrightarrow> \<exists>m. e = RuntimeError m"
  by (auto simp: nudge_to_pro_def rbind_eq_Inl split: if_splits option.splits dest: scalar_error)

lemma promote_error: "maybe_promote_admin_and_seed_hq slug s pid now a d = Inl e \<Longrightarrow> \<exists>m. e = RuntimeError m"
  by (auto simp: maybe_promote_admin_and_seed_hq_def Let_def rbind_eq_Inl
      split: if_splits dest: ensure_hq_store_error nudge_error)

lemma adopt_error: "adopt_bootstrap E now email found d = Inl e \<Longrightarrow> \<exists>m. e = ValueError m"
  by (auto simp: adopt_bootstrap_def Let_def rbind_eq_Inl hash_password_def split: if_splits option.splits)

text \<open>The ways a password sign-in ends.\<close>

lemma password_login_cases:
  assumes "password_login E lock now tick pid r raw password c d = (ans, c', d')"
  obtains (invalid) "ans = Inl (HTTPException 422 ''validation_error'')" "c' = c" "d' = d"
      "\<not> login_body_ok raw password"
  | (blocked) "ans = Inl (HTTPException 429 ''too_many_attempts'')"
      "0 < fst (remaining_lock lock tick (py_lower (py_strip raw)) c)"
      "c' = snd (remaining_lock lock tick (py_lower (py_strip raw)) c)"
      "d' = audit_login None ''auth.login_blocked'' (py_lower (py_strip raw)) (client_ip r) (Some ''locked_out'')
        [(''locked_for_seconds'', JInt (fst (remaining_lock lock tick (py_lower (py_strip raw)) c)))] d"
  | (crashed) e where "ans = Inl e" "(\<exists>m. e = RuntimeError m) \<or> (\<exists>m. e = ValueError m)"
      "d' = d \<or> (\<exists>a a'. adopt_bootstrap E now (py_lower (py_strip raw)) (Some a) d = Inr (Some a', d') \<and> a \<in> set (accounts d))"
  | (failed) found found' d1 where "ans = Inl (HTTPException 401 ''invalid_credentials'')"
      "found = None \<or> (\<exists>a \<in> set (accounts d). found = Some a)"
      "adopt_bootstrap E now (py_lower (py_strip raw)) found d = Inr (found', d1)"
      "c' = note_failure lock tick (py_lower (py_strip raw)) (snd (remaining_lock lock tick (py_lower (py_strip raw)) c))"
      "d' = audit_login found' ''auth.login_failed'' (py_lower (py_strip raw)) (client_ip r) (Some ''invalid_credentials'') [] d1"
  | (suspended) a a' d1 where "ans = Inl (HTTPException 403 ''account_suspended'')" "a \<in> set (accounts d)"
      "adopt_bootstrap E now (py_lower (py_strip raw)) (Some a) d = Inr (Some a', d1)"
      "verify_password (le_checkpw E) password (acc_password_hash a')"
      "d' = audit_login (Some a') ''auth.login_failed'' (py_lower (py_strip raw)) (client_ip r) (Some ''account_suspended'') [] d1"
  | (entered) out a a' d1 a2 d2 where "ans = Inr out" "a \<in> set (accounts d)" "py_lower (acc_email a) = py_lower (py_strip raw)"
      "fst (remaining_lock lock tick (py_lower (py_strip raw)) c) \<le> 0"
      "adopt_bootstrap E now (py_lower (py_strip raw)) (Some a) d = Inr (Some a', d1)"
      "verify_password (le_checkpw E) password (acc_password_hash a')" "acc_status a' \<noteq> ACCOUNT_SUSPENDED"
      "maybe_promote_admin_and_seed_hq extract_slug (le_settings E) pid now a' d1 = Inr (a2, d2)"
      "d' = audit_login (Some a2) ''auth.login_succeeded'' (py_lower (py_strip raw)) (client_ip r) None [] d2"
proof -
  define email where "email = py_lower (py_strip raw)"
  note cases = invalid blocked crashed failed suspended entered
  obtain left c1 where lk: "remaining_lock lock tick email c = (left, c1)"
    by (cases "remaining_lock lock tick email c")
  note step = assms [unfolded password_login_def Let_def, folded email_def, unfolded lk, simplified]
  note cs = cases [folded email_def, unfolded lk, simplified]
  consider "\<not> login_body_ok raw password" | "login_body_ok raw password" "left > 0" | "login_body_ok raw password" "\<not> left > 0"
    by blast
  then show thesis
  proof cases
    case 1
    then show thesis using step cs(1) by simp
  next
    case 2
    then show thesis using step cs(2) by simp
  next
    case 3
    show thesis
    proof (cases "scalar_one_or_none (filter (\<lambda>a. py_lower (acc_email a) = email) (accounts d))")
      case (Inl e)
      then show thesis using 3 step cs(3) [of e] scalar_error [OF Inl] by auto
    next
      case (Inr found)
      have found: "found = None \<or> (\<exists>a \<in> set (accounts d). found = Some a \<and> py_lower (acc_email a) = email)"
        using scalar_one_or_none_mem [of _ "accounts d"] Inr by (cases found) auto
      show thesis
      proof (cases "adopt_bootstrap E now email found d")
        case (Inl e)
        then show thesis using 3 Inr step cs(3) [of e] adopt_error [OF Inl] by auto
      next
        case ad: (Inr p)
        obtain found' d1 where p: "p = (found', d1)" by (cases p)
        note step' = step [unfolded Inr ad p, simplified]
        show thesis
        proof (cases found')
          case None
          then show thesis
            using 3 step' cs(4) [of found found' d1] found ad p by auto
        next
          case (Some a')
          then obtain a where a: "found = Some a" "a \<in> set (accounts d)" "py_lower (acc_email a) = email"
            using found ad p by (cases found) (auto simp: adopt_bootstrap_def)
          note ad' = ad [unfolded p a(1) Some]
          show thesis
          proof (cases "verify_password (le_checkpw E) password (acc_password_hash a')")
            case False
            then show thesis
              using 3 step' cs(4) [of found found' d1] a ad p Some by auto
          next
            case pw: True
            show thesis
            proof (cases "acc_status a' = ACCOUNT_SUSPENDED")
              case True
              then show thesis
                using 3 step' cs(5) [of a a' d1] a ad' pw Some by auto
            next
              case active: False
              show thesis
              proof (cases "maybe_promote_admin_and_seed_hq extract_slug (le_settings E) pid now a' d1")
                case (Inl e)
                then show thesis
                  using 3 step' cs(3) [of e] promote_error [OF Inl] pw active Some a ad'
                  by (auto simp: signed_in_def)
              next
                case (Inr q)
                then show thesis
                  using 3 step' cs(6) [of _ a a' d1 "fst q" "snd q"] pw active Some a ad'
                  by (cases q) (auto simp: signed_in_def Let_def)
              qed
            qed
          qed
        qed
      qed
    qed
  qed
qed

lemma attempt_refused:
  assumes "attempt E (Some C) x c d = (refused, c', d')"
  shows "c' = snd (record_failure C LOGIN_FAILURE_THRESHOLD (la_tick x) (la_tick x) (attempt_email x)
    (snd (locked_for C (la_tick x) (attempt_email x) c)))"
  using assms unfolding attempt_def
  by (rule password_login_cases) (auto simp: remaining_lock_def note_failure_def)

context lockout_cache
begin

lemma failing_next:
  assumes "failing C c email n t" "t \<le> tick" "n = 0 \<or> tick < t + seconds LOGIN_LOCK_MAX_SECONDS"
  shows "failing C (snd (record_failure C LOGIN_FAILURE_THRESHOLD tick tick email (snd (locked_for C tick email c))))
    email (Suc n) tick"
proof -
  have "count_failure LOGIN_FAILURE_THRESHOLD tick (tc_peek C c tick email) = failed_times (int (Suc n)) tick"
  proof (cases "n = 0")
    case True
    then show ?thesis
      using assms(1,2) by (simp add: failing_def count_failure_times)
  next
    case False
    then have "tc_peek C c tick email = Some (failed_times (int n) t)"
      using assms by (simp add: failing_def)
    then show ?thesis
      using False count_failure_times(1) [of "int n" tick t] by (simp add: Suc_leI add.commute)
  qed
  then show ?thesis
    by (simp add: failing_def peek_record_failure locked_for_eq peek_after_get)
qed

lemma failing_run:
  assumes "\<And>x. x \<in> set xs \<Longrightarrow> attempt_email x = email"
    and "sorted (map la_tick xs)"
    and "\<And>i. Suc i < length xs \<Longrightarrow> la_tick (xs ! Suc i) < la_tick (xs ! i) + seconds LOGIN_LOCK_MAX_SECONDS"
    and "attempts E (Some C) xs (tc_empty C) d = (replicate (length xs) refused, c', d')" "xs \<noteq> []"
  shows "failing C c' email (length xs) (la_tick (last xs))"
  using assms
proof (induction xs arbitrary: c' d' rule: rev_induct)
  case (snoc x xs)
  obtain as c1 d1 where run: "attempts E (Some C) xs (tc_empty C) d = (as, c1, d1)"
    by (cases "attempts E (Some C) xs (tc_empty C) d")
  have len: "length as = length xs"
    using arg_cong [OF run, of "\<lambda>p. length (fst p)"] length_attempts [of E "Some C" xs "tc_empty C" d] by simp
  have as: "as = replicate (length xs) refused" and last: "attempt E (Some C) x c1 d1 = (refused, c', d')"
    using snoc.prems(4) len by (auto simp: attempts_snoc run case_prod_unfold Let_def replicate_append_same [symmetric]
        prod_eq_iff simp del: replicate_append_same)
  have before: "failing C c1 email (length xs) (if xs = [] then la_tick x else la_tick (last xs))"
  proof (cases "xs = []")
    case True
    then show ?thesis
      using run by (auto simp: failing_def peek_empty)
  next
    case False
    have "la_tick (xs ! Suc i) < la_tick (xs ! i) + seconds LOGIN_LOCK_MAX_SECONDS" if "Suc i < length xs" for i
      using snoc.prems(3) [of i] that by (simp add: nth_append)
    then show ?thesis
      using snoc.prems(1,2) run False as by (auto intro!: snoc.IH simp: sorted_append)
  qed
  moreover have "(if xs = [] then la_tick x else la_tick (last xs)) \<le> la_tick x"
    using snoc.prems(2) by (auto simp: sorted_append)
  moreover have "length xs = 0 \<or> la_tick x < la_tick (last xs) + seconds LOGIN_LOCK_MAX_SECONDS"
    using snoc.prems(3) [of "length xs - 1"] by (cases "xs = []") (auto simp: nth_append last_conv_nth)
  ultimately show ?case
    using failing_next [of c1 email "length xs" _ "la_tick x"] attempt_refused [OF last] snoc.prems(1)
    by auto
qed simp

end

lemma audit_login_accounts [simp]: "accounts (audit_login a action email ip reason extra d) = accounts d"
  by (simp add: audit_login_def audit_record_def)

text \<open>A locked address, the answer it gets, and the one row it writes.\<close>

lemma locked_out_held:
  assumes "lockout_cache C" and "5 \<le> length xs"
    and "\<And>x. x \<in> set xs \<Longrightarrow> attempt_email x = email" and "sorted (map la_tick xs)"
    and "\<And>i. Suc i < length xs \<Longrightarrow> la_tick (xs ! Suc i) < la_tick (xs ! i) + seconds LOGIN_LOCK_MAX_SECONDS"
    and "attempts E (Some C) xs (tc_empty C) d = (replicate (length xs) refused, c', d')"
    and "attempt_email y = email"
    and "la_tick (last xs) \<le> la_tick y"
    and "la_tick y + seconds 1 \<le> la_tick (last xs) + seconds (min (60 * 2 ^ (length xs - 5)) 3600)"
  shows "fst (remaining_lock (Some C) (la_tick y) (py_lower (py_strip (la_email y))) c') > 0"
proof -
  have failing: "failing C c' email (length xs) (la_tick (last xs))"
    using assms(2-6) by (intro lockout_cache.failing_run [OF assms(1)]) auto
  define lock where "lock = min (60 * 2 ^ (length xs - 5)) (3600 :: int)"
  have lock: "la_tick y + seconds 1 \<le> la_tick (last xs) + seconds lock" "lock \<le> LOGIN_LOCK_MAX_SECONDS"
    using assms(9) by (simp_all add: lock_def LOGIN_LOCK_MAX_SECONDS_def)
  have peek: "tc_peek C c' (la_tick y) email = Some (failed_times (int (length xs)) (la_tick (last xs)))"
  proof -
    have "la_tick y < la_tick (last xs) + seconds LOGIN_LOCK_MAX_SECONDS" "length xs \<noteq> 0"
      using lock assms(2) by (auto simp: seconds_def)
    then show ?thesis
      using failing assms(8) by (simp add: failing_def)
  qed
  have "lf_locked_until (failed_times (int (length xs)) (la_tick (last xs))) = la_tick (last xs) + seconds lock"
    using assms(2) by (simp add: failed_times_def LOGIN_FAILURE_THRESHOLD_def login_backoff_def lock_def
        LOGIN_LOCK_BASE_SECONDS_def LOGIN_LOCK_MAX_SECONDS_def nat_diff_distrib)
  then have "fst (locked_for C (la_tick y) email c') > 0"
    using lock(1) by (simp add: locked_for_eq peek whole_seconds_def seconds_def pos_imp_zdiv_pos_iff)
  then show ?thesis
    using assms(7) by (simp add: remaining_lock_def)
qed

lemma locked_out_answer:
  assumes "lockout_cache C" and "5 \<le> length xs"
    and "\<And>x. x \<in> set xs \<Longrightarrow> attempt_email x = email" and "sorted (map la_tick xs)"
    and "\<And>i. Suc i < length xs \<Longrightarrow> la_tick (xs ! Suc i) < la_tick (xs ! i) + seconds LOGIN_LOCK_MAX_SECONDS"
    and "attempts E (Some C) xs (tc_empty C) d = (replicate (length xs) refused, c', d')"
    and "attempt_email y = email" and "login_body_ok (la_email y) (la_password y)"
    and "la_tick (last xs) \<le> la_tick y"
    and "la_tick y + seconds 1 \<le> la_tick (last xs) + seconds (min (60 * 2 ^ (length xs - 5)) 3600)"
  shows "fst (attempt E (Some C) y c' d') = Inl (HTTPException 429 ''too_many_attempts'') \<and>
    (\<exists>row. snd (snd (attempt E (Some C) y c' d')) = d'\<lparr>audit_logs := tadd row (audit_logs d')\<rparr>)"
proof -
  have "fst (remaining_lock (Some C) (la_tick y) (py_lower (py_strip (la_email y))) c') > 0"
    by (rule locked_out_held [OF assms(1-7,9,10)])
  then show ?thesis
    using assms(8) by (auto simp: attempt_def password_login_def Let_def case_prod_unfold audit_login_def audit_record_def)
qed

text \<open>C34. Guessing a password is cut off.  From an empty lockout table, once \<open>n \<ge> 5\<close> sign-in attempts in a row,
  all for one address and none an hour after the one before, have been refused as wrong, the next
  attempt for that address is refused whatever password it carries, as long as a whole second is left of
  the \<open>60 * 2 ^ (n - 5)\<close> seconds (an hour at most) after the last: the answer and the state are the same for
  every password, no session is opened, and one audit row is all that is written.\<close>

theorem repeated_failures_lock:
  assumes "lockout_cache C" and "5 \<le> length xs"
    and "\<And>x. x \<in> set xs \<Longrightarrow> attempt_email x = email" and "sorted (map la_tick xs)"
    and "\<And>i. Suc i < length xs \<Longrightarrow> la_tick (xs ! Suc i) < la_tick (xs ! i) + seconds LOGIN_LOCK_MAX_SECONDS"
    and "attempts E (Some C) xs (tc_empty C) d = (replicate (length xs) refused, c', d')"
    and "attempt_email y = email" and "login_body_ok (la_email y) (la_password y)" "login_body_ok (la_email y) password"
    and "la_tick (last xs) \<le> la_tick y"
    and "la_tick y + seconds 1 \<le> la_tick (last xs) + seconds (min (60 * 2 ^ (length xs - 5)) 3600)"
  shows "attempt E (Some C) (y\<lparr>la_password := password\<rparr>) c' d' = attempt E (Some C) y c' d' \<and>
    isl (fst (attempt E (Some C) y c' d')) \<and>
    (\<exists>row. snd (snd (attempt E (Some C) y c' d')) = d'\<lparr>audit_logs := tadd row (audit_logs d')\<rparr>)"
proof -
  have locked: "fst (attempt E (Some C) y c' d') = Inl (HTTPException 429 ''too_many_attempts'')"
    "\<exists>row. snd (snd (attempt E (Some C) y c' d')) = d'\<lparr>audit_logs := tadd row (audit_logs d')\<rparr>"
    using locked_out_answer [OF assms(1-8,10,11)] by blast+
  have held: "fst (remaining_lock (Some C) (la_tick y) (py_lower (py_strip (la_email y))) c') > 0"
    by (rule locked_out_held [OF assms(1-7,10,11)])
  have "attempt E (Some C) (y\<lparr>la_password := password\<rparr>) c' d' = attempt E (Some C) y c' d'"
    using assms(8,9) held by (simp add: attempt_def password_login_def Let_def case_prod_unfold)
  then show ?thesis
    using locked by simp
qed

definition demo_login_env :: login_env where
  "demo_login_env = \<lparr>le_mac = demo_mac, le_hashpw = (\<lambda>_. ''$2b$''), le_checkpw = (\<lambda>_ _. Some True),
     le_settings = demo_auth_settings\<rparr>"

definition demo_attempt :: "int \<Rightarrow> login_attempt" where
  "demo_attempt t = \<lparr>la_now = seconds t, la_tick = seconds t, la_public_id = ''st_hq'',
     la_request = \<lparr>req_method = ''POST'', req_path = ''/auth/login'', req_headers = [], req_cookies = [],
       req_scheme = ''https'', req_hostname = None, req_netloc = [], req_client = Some ''10.0.0.9''\<rparr>,
     la_email = '' M@Example.com'', la_password = ''guess''\<rparr>"

definition demo_lock :: "(login_failures entries, login_failures) ttl_ops" where
  "demo_lock = list_cache (seconds LOGIN_LOCK_MAX_SECONDS) None"

definition guesses :: "(exc + login_out) list \<times> login_failures entries \<times> db" where
  "guesses = attempts demo_login_env (Some demo_lock) (map demo_attempt [0, 1, 2, 3, 4]) []
     (empty_db\<lparr>accounts := [sample_account]\<rparr>)"

theorem repeated_failures_lock_witness:
  "isl (fst (attempt demo_login_env (Some demo_lock) (demo_attempt 60) (fst (snd guesses)) (snd (snd guesses)))) \<and>
   attempt demo_login_env (Some demo_lock) ((demo_attempt 60)\<lparr>la_password := ''the right one''\<rparr>) (fst (snd guesses)) (snd (snd guesses)) =
     attempt demo_login_env (Some demo_lock) (demo_attempt 60) (fst (snd guesses)) (snd (snd guesses))"
proof -
  let ?xs = "map demo_attempt [0, 1, 2, 3, 4]" and ?d = "empty_db\<lparr>accounts := [sample_account]\<rparr>"
  have "fst guesses = replicate (length ?xs) refused"
    by code_simp
  moreover have "guesses = (fst guesses, fst (snd guesses), snd (snd guesses))"
    by simp
  ultimately have run: "attempts demo_login_env (Some demo_lock) ?xs (tc_empty demo_lock) ?d =
      (replicate (length ?xs) refused, fst (snd guesses), snd (snd guesses))"
    by (simp add: guesses_def demo_lock_def list_cache_def)
  have lock: "lockout_cache demo_lock"
    unfolding demo_lock_def by (rule lockout.lockout_cache_axioms)
  have email: "attempt_email (demo_attempt t) = ''m@example.com''" for t
  proof -
    have "py_lower (py_strip '' M@Example.com'') = ''m@example.com''"
      by code_simp
    then show ?thesis by (simp add: demo_attempt_def)
  qed
  have ticks: "la_tick (demo_attempt t) = seconds t" for t
    by (simp add: demo_attempt_def)
  have body: "login_body_ok (la_email (demo_attempt 60)) (la_password (demo_attempt 60))"
    "login_body_ok (la_email (demo_attempt 60)) ''the right one''"
    by code_simp+
  have gap: "la_tick (?xs ! Suc i) < la_tick (?xs ! i) + seconds LOGIN_LOCK_MAX_SECONDS" if "Suc i < length ?xs" for i
    using that by (auto simp: ticks seconds_def LOGIN_LOCK_MAX_SECONDS_def less_Suc_eq numeral_eq_Suc)
  have rest: "5 \<le> length ?xs" "sorted (map la_tick ?xs)" "la_tick (last ?xs) \<le> la_tick (demo_attempt 60)"
    "la_tick (demo_attempt 60) + seconds 1 \<le> la_tick (last ?xs) + seconds (min (60 * 2 ^ (length ?xs - 5)) 3600)"
    "\<And>x. x \<in> set ?xs \<Longrightarrow> attempt_email x = ''m@example.com''"
    by (auto simp: email ticks seconds_def)
  show ?thesis
    using repeated_failures_lock [OF lock rest(1,5,2) gap run email body rest(3,4)] by simp
qed

text \<open>An account becomes an operator only by being listed.\<close>

definition admin_from :: "auth_settings \<Rightarrow> db \<Rightarrow> db \<Rightarrow> bool" where
  "admin_from s d d' \<longleftrightarrow> (\<forall>a \<in> set (accounts d'). acc_is_platform_admin a \<longrightarrow>
     py_lower (acc_email a) \<in> set (admin_emails s) \<or>
     (\<exists>b \<in> set (accounts d). acc_id b = acc_id a \<and> acc_email b = acc_email a \<and> acc_is_platform_admin b))"

lemma admin_from_refl: "accounts d' = accounts d \<Longrightarrow> admin_from s d d'"
  by (auto simp: admin_from_def)

lemma admin_from_trans: "admin_from s d d1 \<Longrightarrow> admin_from s d1 d2 \<Longrightarrow> admin_from s d d2"
  by (fastforce simp: admin_from_def)

lemma admin_from_mod:
  assumes "a \<in> set (accounts d)" "acc_id a' = acc_id a" "acc_email a' = acc_email a"
    and "acc_is_platform_admin a' \<Longrightarrow> py_lower (acc_email a') \<in> set (admin_emails s) \<or> acc_is_platform_admin a"
  shows "admin_from s d (mod_account (acc_id a) (\<lambda>_. a') d)"
  using assms by (auto simp: admin_from_def mod_account_def tupd_def)

lemma ensure_hq_store_accounts: "ensure_hq_store slug s pid now a d = Inr d' \<Longrightarrow> accounts d' = accounts d"
  by (auto simp: ensure_hq_store_def Let_def split: if_splits option.splits)

lemma nudge_accounts:
  assumes "nudge_to_pro a d = Inr d'"
  shows "accounts d' = accounts d"
proof -
  have "returns (nudge_to_pro a d) (\<lambda>d'. accounts d' = accounts d)"
    by (auto intro!: returns_intros simp: nudge_to_pro_def mod_sub_def split: option.split)
  then show ?thesis
    using assms by (rule returnsD)
qed

lemma ensure_free_accounts: "ensure_free_subscription now a d = Inr d' \<Longrightarrow> accounts d' = accounts d"
  by (auto simp: ensure_free_subscription_def add_sub_def split: option.splits)

lemma promote_accounts:
  assumes "maybe_promote_admin_and_seed_hq slug s pid now a d = Inr (a', d')"
  shows "accounts d' = accounts (mod_account (acc_id a) (\<lambda>_. promote_admin s now a) d)"
  using assms
  by (auto simp: maybe_promote_admin_and_seed_hq_def Let_def split: if_splits
      dest!: ensure_hq_store_accounts nudge_accounts)

lemma promote_admin_from:
  assumes "maybe_promote_admin_and_seed_hq slug s pid now a d = Inr (a', d')" "a \<in> set (accounts d)"
  shows "admin_from s d d'"
proof -
  have "admin_from s d (mod_account (acc_id a) (\<lambda>_. promote_admin s now a) d)"
    by (rule admin_from_mod [OF assms(2)]) (auto simp: promote_admin_def split: if_splits)
  then show ?thesis
    using promote_accounts [OF assms(1)] by (simp add: admin_from_def)
qed

lemma adopt_admin_from:
  assumes "adopt_bootstrap E now email found d = Inr (found', d')" "\<And>a. found = Some a \<Longrightarrow> a \<in> set (accounts d)"
  shows "admin_from s d d'" and "\<And>a'. found' = Some a' \<Longrightarrow> a' \<in> set (accounts d')"
proof -
  have "admin_from s d d' \<and> (\<forall>a'. found' = Some a' \<longrightarrow> a' \<in> set (accounts d'))"
  proof (cases found)
    case None
    then show ?thesis using assms by (auto simp: adopt_bootstrap_def admin_from_refl)
  next
    case (Some a)
    then have a: "a \<in> set (accounts d)" using assms(2) by simp
    have mod: "admin_from s d (mod_account (acc_id a) (\<lambda>_. a\<lparr>acc_password_hash := h, acc_updated_at := now\<rparr>) d)" for h
      by (rule admin_from_mod [OF a]) auto
    have mem: "f a \<in> set (accounts (mod_account (acc_id a) f d))" for f
      using a by (auto simp: mod_account_def tupd_def)
    show ?thesis
      using assms(1) Some a mod mem [of "\<lambda>_. a\<lparr>acc_password_hash := Some _, acc_updated_at := now\<rparr>"]
      by (auto simp: adopt_bootstrap_def Let_def admin_from_refl split: if_splits)
  qed
  then show "admin_from s d d'" and "\<And>a'. found' = Some a' \<Longrightarrow> a' \<in> set (accounts d')"
    by auto
qed

lemma upsert_admin_from:
  assumes "upsert_account now email name sub rename d = Inr (a, d')"
  shows "admin_from s d d' \<and> a \<in> set (accounts d')"
proof -
  obtain found where found: "scalar_one_or_none (filter (\<lambda>a. acc_email a = email) (accounts d)) = Inr found"
    using assms by (auto simp: upsert_account_def)
  show ?thesis
  proof (cases found)
    case None
    then obtain d1 where "ensure_free_subscription now a (add_account a d) = Inr d1" "d' = d1"
      "\<not> acc_is_platform_admin a"
      using assms found by (auto simp: upsert_account_def Let_def)
    then show ?thesis
      by (auto simp: admin_from_def add_account_def tadd_def dest!: ensure_free_accounts)
  next
    case (Some b)
    then have b: "b \<in> set (accounts d)"
      using scalar_one_or_none_mem [of "\<lambda>a. acc_email a = email" "accounts d" b] found by simp
    define b' where "b' = refresh_account now name sub rename b"
    have b': "acc_id b' = acc_id b" "acc_email b' = acc_email b" "acc_is_platform_admin b' = acc_is_platform_admin b"
      by (simp_all add: b'_def refresh_account_def Let_def)
    have res: "a = b'" "d' = mod_account (acc_id b) (\<lambda>_. b') d"
      using assms found Some by (auto simp: upsert_account_def Let_def b'_def)
    have "admin_from s d d'"
      unfolding res(2) by (rule admin_from_mod [OF b]) (use b' in auto)
    moreover have "a \<in> set (accounts d')"
      using b res by (auto simp: mod_account_def tupd_def)
    ultimately show ?thesis by blast
  qed
qed

lemma federated_admin_from:
  "admin_from (le_settings E) d (snd (federated_sign_in E now pid r amr email name sub rename d))"
proof (cases "upsert_account now email name sub rename d")
  case (Inl e)
  then show ?thesis by (simp add: federated_sign_in_def Let_def admin_from_refl)
next
  case (Inr p)
  obtain a d1 where p: "p = (a, d1)" by (cases p)
  have up: "admin_from (le_settings E) d d1" "a \<in> set (accounts d1)"
    using upsert_admin_from [OF Inr [unfolded p]] by blast+
  show ?thesis
  proof (cases "maybe_promote_admin_and_seed_hq extract_slug (le_settings E) pid now a d1")
    case (Inl e)
    then show ?thesis using up Inr p by (simp add: federated_sign_in_def Let_def)
  next
    case pr: (Inr q)
    obtain a2 d2 where q: "q = (a2, d2)" by (cases q)
    show ?thesis
      using admin_from_trans [OF up(1) promote_admin_from [OF pr [unfolded q] up(2)]] Inr pr p q
      by (simp add: federated_sign_in_def Let_def)
  qed
qed

text \<open>An address that changed at Google: the subject is already on another row, the insert violates the
  unique column and the sign-in ends in an internal error.\<close>

lemma changed_google_address_fails:
  assumes "filter (\<lambda>a. acc_email a = email) (accounts d) = []"
    and "b \<in> set (accounts d)" "acc_google_sub b = Some sub"
  shows "upsert_account now email name (Some sub) rename d = Inl (RuntimeError ''IntegrityError'')"
proof -
  have "acc_id b \<noteq> fresh_id acc_id (accounts d)"
    using fresh_id_greater [OF assms(2), of acc_id] by simp
  then have "\<not> google_sub_free (fresh_id acc_id (accounts d)) (Some sub) d"
    using assms(2,3) by (auto simp: google_sub_free_def list_all_iff)
  then show ?thesis
    using assms(1) by (simp add: upsert_account_def Let_def)
qed

text \<open>A path that begins with a slash and a backslash passes the check of a return path.\<close>

lemma backslash_next_is_safe: "is_safe_next (Some (CHR ''/'' # CHR 0x5C # host))"
  by (simp add: is_safe_next_def starts_with_def)

text \<open>C16. No way to sign in makes an operator of anyone who is not listed: after a password sign-in, a
  Google sign-in or a development sign-in, however it ends, an account that is a platform admin was
  one before, or its address is in the configured list.\<close>

theorem sign_in_grants_no_admin:
  "admin_from (le_settings E) d (snd (snd (password_login E lock now tick pid r raw password c d))) \<and>
   admin_from (le_settings E) d (snd (google_callback E exchange now pid r auth_code state d)) \<and>
   admin_from (le_settings E) d (snd (dev_login E now pid r email d))"
proof (intro conjI)
  show "admin_from (le_settings E) d (snd (dev_login E now pid r email d))"
    by (simp add: dev_login_def federated_admin_from)
  show "admin_from (le_settings E) d (snd (google_callback E exchange now pid r auth_code state d))"
    by (auto simp: google_callback_def admin_from_refl case_prod_unfold Let_def federated_admin_from split: sum.split)
  obtain ans c' d' where run: "password_login E lock now tick pid r raw password c d = (ans, c', d')"
    by (cases "password_login E lock now tick pid r raw password c d")
  have same: "admin_from s d1 d2 \<Longrightarrow> accounts d3 = accounts d2 \<Longrightarrow> admin_from s d1 d3" for s d1 d2 d3
    by (simp add: admin_from_def)
  from run have "admin_from (le_settings E) d d'"
  proof (cases rule: password_login_cases)
    case (crashed e)
    from crashed(3) show ?thesis
    proof (elim disjE exE conjE)
      fix a a'
      assume adopt: "adopt_bootstrap E now (py_lower (py_strip raw)) (Some a) d = Inr (Some a', d')"
        and "a \<in> set (accounts d)"
      then show ?thesis
        by (intro adopt_admin_from(1) [OF adopt]) simp
    qed (simp add: admin_from_refl)
  next
    case (failed found found' d1)
    have "admin_from (le_settings E) d d1"
      by (rule adopt_admin_from(1) [OF failed(3)]) (use failed(2) in auto)
    then show ?thesis
      by (rule same) (simp add: failed(5))
  next
    case (suspended a a' d1)
    have "admin_from (le_settings E) d d1"
      by (rule adopt_admin_from(1) [OF suspended(3)]) (use suspended(2) in auto)
    then show ?thesis
      by (rule same) (simp add: suspended(5))
  next
    case (entered out a a' d1 a2 d2)
    have 1: "admin_from (le_settings E) d d1" "a' \<in> set (accounts d1)"
      using adopt_admin_from [OF entered(5)] entered(2) by auto
    show ?thesis
      by (rule same [OF admin_from_trans [OF 1(1) promote_admin_from [OF entered(8) 1(2)]]]) (simp add: entered(9))
  qed (simp_all add: admin_from_refl)
  then show "admin_from (le_settings E) d (snd (snd (password_login E lock now tick pid r raw password c d)))"
    by (simp add: run)
qed

end
