(* ===== verification/Keys.thy ===== *)
theory Keys
  imports Auth
begin

text \<open>
  API keys (\<^verbatim>\<open>src/src/chmabapay/auth.py\<close> and \<^verbatim>\<open>routers/keys.py\<close>): resolving the caller of a request
  from its key or its session, and minting, rotating and revoking keys.  \<open>hash_key\<close> is the
  SHA-256 digest of the key and \<open>token\<close> the random part of a new one, arguments both; the unique column
  of the hash is checked where a row is written.
\<close>

section \<open>Authentication\<close>

definition unauthorized :: exc where
  "unauthorized = HTTPException 401 ''unauthorized''"

definition bearer_key :: "string option \<Rightarrow> string option" where
  "bearer_key authorization =
     (case authorization of
        None \<Rightarrow> None
      | Some h \<Rightarrow>
          if starts_with ''Bearer '' h then Some (py_strip (drop (length ''Bearer '') h)) else None)"

definition mod_key :: "int \<Rightarrow> (api_key \<Rightarrow> api_key) \<Rightarrow> db \<Rightarrow> db" where
  "mod_key i f d = d\<lparr>api_keys := tupd ak_id i f (api_keys d)\<rparr>"

definition key_rows :: "string \<Rightarrow> db \<Rightarrow> (api_key \<times> account) list" where
  "key_rows h d =
     [(k, a). k \<leftarrow> api_keys d, ak_hash k = h \<and> ak_status k = KEY_ACTIVE,
              a \<leftarrow> accounts d, acc_id a = ak_account_id k]"

definition resolve_key_context ::
  "(string \<Rightarrow> string) \<Rightarrow> instant \<Rightarrow> string option \<Rightarrow> db \<Rightarrow> ((api_key \<times> account) \<times> db) result"
where
  "resolve_key_context hash_key now authorization d =
     (case bearer_key authorization of
        None \<Rightarrow> Inl unauthorized
      | Some raw \<Rightarrow>
          if raw = [] then Inl unauthorized
          else rbind (scalar_one_or_none (key_rows (hash_key raw) d)) (\<lambda>row.
            case row of
              None \<Rightarrow> Inl unauthorized
            | Some (k, a) \<Rightarrow>
                if acc_status a = ACCOUNT_RESTRICTED then Inl (HTTPException 403 ''account_restricted'')
                else if acc_status a \<noteq> ACCOUNT_ACTIVE then Inl (HTTPException 403 ''account_suspended'')
                else let k = k\<lparr>ak_last_used_at := Some now\<rparr> in Inr ((k, a), mod_key (ak_id k) (\<lambda>_. k) d)))"

record auth_context =
  cx_account :: account
  cx_key :: "api_key option"
  cx_is_session :: bool
  cx_api_key_mode :: "string option"

definition kc_to_ctx :: "api_key \<times> account \<Rightarrow> auth_context" where
  "kc_to_ctx kc = \<lparr>cx_account = snd kc, cx_key = Some (fst kc), cx_is_session = False,
     cx_api_key_mode = Some (ak_mode (fst kc))\<rparr>"

definition session_to_ctx :: "account \<Rightarrow> auth_context" where
  "session_to_ctx a = \<lparr>cx_account = a, cx_key = None, cx_is_session = True, cx_api_key_mode = None\<rparr>"

definition presents_key :: "string option \<Rightarrow> bool" where
  "presents_key authorization \<longleftrightarrow>
     (case bearer_key authorization of
        None \<Rightarrow> False
      | Some raw \<Rightarrow> starts_with ''ck_'' raw \<or> starts_with ''st_'' raw \<or> starts_with ''sk_'' raw)"

definition get_current_auth_context ::
  "mac_fun \<Rightarrow> (string \<Rightarrow> string) \<Rightarrow> auth_settings \<Rightarrow> instant \<Rightarrow> request \<Rightarrow> db \<Rightarrow> (auth_context \<times> db) result"
where
  "get_current_auth_context mac hash_key s now r d =
     (let authorization = header_get r ''authorization'' in
      if presents_key authorization
      then rbind (resolve_key_context hash_key now authorization d) (\<lambda>(kc, d). Inr (kc_to_ctx kc, d))
      else rbind (get_current_session_account mac s now r d) (\<lambda>a. Inr (session_to_ctx a, d)))"

section \<open>Key management\<close>

text \<open>\<open>new_api_key\<close>: the display prefix and the raw key.\<close>

definition new_api_key :: "string \<Rightarrow> string \<times> string" where
  "new_api_key token = (let raw = ''ck_live_'' @ token in (take 12 raw, raw))"

definition account_keys :: "int \<Rightarrow> db \<Rightarrow> api_key list" where
  "account_keys account_id d = filter (\<lambda>k. ak_account_id k = account_id) (api_keys d)"

definition active_keys :: "int \<Rightarrow> db \<Rightarrow> api_key list" where
  "active_keys account_id d = filter (\<lambda>k. ak_status k = KEY_ACTIVE) (account_keys account_id d)"

definition get_active_plan :: "int \<Rightarrow> db \<Rightarrow> plan option result" where
  "get_active_plan account_id d =
     scalar_one_or_none
       [p. p \<leftarrow> plans d, s \<leftarrow> plan_subscriptions d, sub_plan_id s = plan_id p \<and> sub_account_id s = account_id \<and> live_sub s]"

definition require_terms_accepted :: "string \<Rightarrow> account \<Rightarrow> unit result" where
  "require_terms_accepted terms_version a =
     guard (acc_terms_accepted_version a = Some terms_version) (HTTPException 403 ''terms_not_accepted'')"

definition enforce_key_limits :: "account \<Rightarrow> plan option \<Rightarrow> db \<Rightarrow> unit result" where
  "enforce_key_limits a plan d =
     (case plan of
        None \<Rightarrow> Inr ()
      | Some p \<Rightarrow>
          guard (int (length (active_keys (acc_id a) d)) < plan_max_keys_per_account p)
            (HTTPException 400 (''Max API keys ('' @ int_str (plan_max_keys_per_account p) @
              '') reached for your plan. Revoke old keys or upgrade.'')))"

definition key_row :: "(string \<Rightarrow> string) \<Rightarrow> int \<Rightarrow> string option \<Rightarrow> string \<Rightarrow> instant \<Rightarrow> db \<Rightarrow> api_key" where
  "key_row hash_key account_id name token now d =
     \<lparr>ak_id = fresh_id ak_id (api_keys d), ak_account_id = account_id, ak_prefix = fst (new_api_key token),
      ak_name = name, ak_hash = hash_key (snd (new_api_key token)), ak_mode = ''live'', ak_status = KEY_ACTIVE,
      ak_last_used_at = None, ak_created_at = now, ak_revoked_at = None\<rparr>"

text \<open>A new row: the unique column refuses a hash that is taken.\<close>

definition add_key :: "api_key \<Rightarrow> db \<Rightarrow> db result" where
  "add_key k d =
     rbind (guard (ak_hash k \<notin> ak_hash ` set (api_keys d)) (RuntimeError ''IntegrityError'')) (\<lambda>_.
       Inr (d\<lparr>api_keys := tadd k (api_keys d)\<rparr>))"

definition via_console :: "account \<Rightarrow> int \<Rightarrow> (string \<times> json) list" where
  "via_console actor account_id =
     (if acc_id actor \<noteq> account_id then [(''account_id'', JInt account_id), (''via'', JStr ''admin_console'')] else [])"

definition mint_key ::
  "(string \<Rightarrow> string) \<Rightarrow> instant \<Rightarrow> string \<Rightarrow> account \<Rightarrow> string \<Rightarrow> account \<Rightarrow> db \<Rightarrow> ((api_key \<times> string) \<times> db) result"
where
  "mint_key hash_key now token a name actor d =
     (let k = key_row hash_key (acc_id a) (Some (py_strip name)) token now d in
      rbind (add_key k d) (\<lambda>d.
        Inr ((k, snd (new_api_key token)),
             audit_record (Some actor) ''key.created'' ''ApiKey'' (ak_id k)
               ([(''name'', json_opt_str (ak_name k)), (''key_prefix'', JStr (ak_prefix k)), (''mode'', JStr (ak_mode k))] @
                via_console actor (acc_id a)) d)))"

definition rotate_key_instance ::
  "(string \<Rightarrow> string) \<Rightarrow> instant \<Rightarrow> string \<Rightarrow> api_key \<Rightarrow> account \<Rightarrow> db \<Rightarrow> ((api_key \<times> string) \<times> db) result"
where
  "rotate_key_instance hash_key now token k actor d =
     (let d = mod_key (ak_id k) (\<lambda>k. k\<lparr>ak_status := KEY_SUSPENDED, ak_revoked_at := Some now\<rparr>) d;
          k' = key_row hash_key (ak_account_id k) (ak_name k) token now d
      in rbind (add_key k' d) (\<lambda>d.
         Inr ((k', snd (new_api_key token)),
              audit_record (Some actor) ''key.rotated'' ''ApiKey'' (ak_id k')
                ([(''replaces_id'', JInt (ak_id k)), (''name'', json_opt_str (ak_name k')),
                  (''key_prefix'', JStr (ak_prefix k'))] @ via_console actor (ak_account_id k)) d)))"

definition own_key :: "account \<Rightarrow> int \<Rightarrow> db \<Rightarrow> api_key result" where
  "own_key a key_id d =
     rbind (scalar_one_or_none (filter (\<lambda>k. ak_id k = key_id) (account_keys (acc_id a) d))) (\<lambda>found.
       case found of None \<Rightarrow> Inl (HTTPException 404 ''key_not_found'') | Some k \<Rightarrow> Inr k)"

text \<open>\<open>KeyCreate\<close> is checked before the handler runs.\<close>

definition create_key ::
  "(string \<Rightarrow> string) \<Rightarrow> string \<Rightarrow> instant \<Rightarrow> string \<Rightarrow> account \<Rightarrow> string \<Rightarrow> db \<Rightarrow> ((api_key \<times> string) \<times> db) result"
where
  "create_key hash_key terms_version now token a name d =
     rbind (guard (1 \<le> length name \<and> length name \<le> 64) (HTTPException 422 ''validation_error'')) (\<lambda>_.
     rbind (require_terms_accepted terms_version a) (\<lambda>_.
     rbind (get_active_plan (acc_id a) d) (\<lambda>plan.
     rbind (enforce_key_limits a plan d) (\<lambda>_.
     mint_key hash_key now token a name a d))))"

definition revoke_key :: "instant \<Rightarrow> account \<Rightarrow> int \<Rightarrow> db \<Rightarrow> (api_key \<times> db) result" where
  "revoke_key now a key_id d =
     rbind (own_key a key_id d) (\<lambda>k.
       if ak_status k \<noteq> KEY_ACTIVE then Inr (k, d)
       else let k = k\<lparr>ak_status := KEY_REVOKED, ak_revoked_at := Some now\<rparr>
            in Inr (k, audit_record (Some a) ''key.revoked'' ''ApiKey'' (ak_id k)
                 [(''name'', json_opt_str (ak_name k)), (''key_prefix'', JStr (ak_prefix k))]
                 (mod_key (ak_id k) (\<lambda>_. k) d)))"

definition rotate_key ::
  "(string \<Rightarrow> string) \<Rightarrow> instant \<Rightarrow> string \<Rightarrow> account \<Rightarrow> int \<Rightarrow> db \<Rightarrow> ((api_key \<times> string) \<times> db) result"
where
  "rotate_key hash_key now token a key_id d =
     rbind (own_key a key_id d) (\<lambda>k. rotate_key_instance hash_key now token k a d)"

definition list_keys :: "account \<Rightarrow> db \<Rightarrow> api_key list" where
  "list_keys a d = rev (sort_key ak_created_at (rev (account_keys (acc_id a) d)))"

section \<open>Requests\<close>

datatype key_request =
    CreateKey string string
  | RevokeKey int
  | RotateKey int string
  | UseKey "string option"

fun handle_key_request ::
  "(string \<Rightarrow> string) \<Rightarrow> string \<Rightarrow> instant \<times> account \<times> key_request \<Rightarrow> db \<Rightarrow> db"
where
  "handle_key_request hash_key tv (now, a, CreateKey name token) d =
     (case create_key hash_key tv now token a name d of Inl _ \<Rightarrow> d | Inr (_, d) \<Rightarrow> d)"
| "handle_key_request hash_key tv (now, a, RevokeKey i) d =
     (case revoke_key now a i d of Inl _ \<Rightarrow> d | Inr (_, d) \<Rightarrow> d)"
| "handle_key_request hash_key tv (now, a, RotateKey i token) d =
     (case rotate_key hash_key now token a i d of Inl _ \<Rightarrow> d | Inr (_, d) \<Rightarrow> d)"
| "handle_key_request hash_key tv (now, a, UseKey h) d =
     (case resolve_key_context hash_key now h d of Inl _ \<Rightarrow> d | Inr (_, d) \<Rightarrow> d)"

definition keys_inv :: "db \<Rightarrow> bool" where
  "keys_inv d \<longleftrightarrow> distinct_keys ak_id (api_keys d) \<and> distinct (map ak_hash (api_keys d))"

text \<open>A hash whose key no longer works.\<close>

definition dead_hash :: "string \<Rightarrow> db \<Rightarrow> bool" where
  "dead_hash h d \<longleftrightarrow> keys_inv d \<and> (\<exists>k \<in> set (api_keys d). ak_hash k = h \<and> ak_status k \<noteq> KEY_ACTIVE)"

lemma audit_record_keys [simp]: "api_keys (audit_record a b c e f d) = api_keys d"
  by (simp add: audit_record_def)

lemma keys_hash_eq:
  "keys_inv d \<Longrightarrow> k \<in> set (api_keys d) \<Longrightarrow> k' \<in> set (api_keys d) \<Longrightarrow> ak_hash k = ak_hash k' \<Longrightarrow> k = k'"
  unfolding keys_inv_def by (meson distinct_map inj_onD)

lemma keys_id_eq:
  "keys_inv d \<Longrightarrow> k \<in> set (api_keys d) \<Longrightarrow> k' \<in> set (api_keys d) \<Longrightarrow> ak_id k = ak_id k' \<Longrightarrow> k = k'"
  unfolding keys_inv_def by (meson rows.rows_eq)

lemma dead_hash_rows: "dead_hash h d \<Longrightarrow> key_rows h d = []"
proof -
  assume dead: "dead_hash h d"
  then obtain k where k: "k \<in> set (api_keys d)" "ak_hash k = h" "ak_status k \<noteq> KEY_ACTIVE"
    by (auto simp: dead_hash_def)
  have "\<not> (ak_hash k' = h \<and> ak_status k' = KEY_ACTIVE)" if "k' \<in> set (api_keys d)" for k'
    using keys_hash_eq [OF _ that k(1)] dead k(2,3) by (auto simp: dead_hash_def)
  then show ?thesis
    by (auto simp: key_rows_def concat_eq_Nil_conv)
qed

lemma keys_inv_mod:
  assumes "keys_inv d" "\<And>k. k \<in> set (api_keys d) \<Longrightarrow> ak_id k = i \<Longrightarrow> ak_id (f k) = i \<and> ak_hash (f k) = ak_hash k"
  shows "keys_inv (mod_key i f d)"
proof -
  have "map ak_id (tupd ak_id i f t) = map ak_id t" "map ak_hash (tupd ak_id i f t) = map ak_hash t"
    if "\<And>k. k \<in> set t \<Longrightarrow> ak_id k = i \<Longrightarrow> ak_id (f k) = i \<and> ak_hash (f k) = ak_hash k" for t
    using that by (auto simp: tupd_def)
  then show ?thesis
    using assms by (simp add: keys_inv_def distinct_keys_def mod_key_def)
qed

lemma dead_hash_mod:
  assumes "dead_hash h d"
    and "\<And>k. k \<in> set (api_keys d) \<Longrightarrow> ak_id k = i \<Longrightarrow> ak_id (f k) = i \<and> ak_hash (f k) = ak_hash k \<and>
      (ak_status (f k) = KEY_ACTIVE \<longrightarrow> ak_status k = KEY_ACTIVE)"
  shows "dead_hash h (mod_key i f d)"
proof -
  obtain k where k: "k \<in> set (api_keys d)" "ak_hash k = h" "ak_status k \<noteq> KEY_ACTIVE"
    using assms(1) by (auto simp: dead_hash_def)
  let ?k = "if ak_id k = i then f k else k"
  have "?k \<in> set (api_keys (mod_key i f d))"
    using k(1) by (auto simp: mod_key_def tupd_def)
  moreover have "ak_hash ?k = h" "ak_status ?k \<noteq> KEY_ACTIVE"
    using k assms(2) [of k] by auto
  moreover have "keys_inv (mod_key i f d)"
    using assms by (intro keys_inv_mod) (auto simp: dead_hash_def)
  ultimately show ?thesis
    unfolding dead_hash_def by blast
qed

lemma add_key_Inr:
  assumes "add_key k d = Inr d'" "ak_id k = fresh_id ak_id (api_keys d)"
  shows "api_keys d' = api_keys d @ [k]" and "keys_inv d \<Longrightarrow> keys_inv d'"
  using assms fresh_id_not_used [of ak_id "api_keys d"]
  by (auto simp: add_key_def tadd_def keys_inv_def distinct_keys_def)

lemma dead_hash_cong: "api_keys d' = api_keys d \<Longrightarrow> dead_hash h d' = dead_hash h d"
  by (simp add: dead_hash_def keys_inv_def)

lemma dead_hash_add:
  "dead_hash h d \<Longrightarrow> add_key k d = Inr d' \<Longrightarrow> ak_id k = fresh_id ak_id (api_keys d) \<Longrightarrow> dead_hash h d'"
  using add_key_Inr [of k d d'] by (auto simp: dead_hash_def)

lemma own_key_Inr: "own_key a i d = Inr k \<Longrightarrow> k \<in> set (api_keys d) \<and> ak_id k = i \<and> ak_account_id k = acc_id a"
proof -
  assume "own_key a i d = Inr k"
  then have "scalar_one_or_none (filter (\<lambda>k. ak_id k = i) (account_keys (acc_id a) d)) = Inr (Some k)"
    by (auto simp: own_key_def split: option.splits)
  then show ?thesis
    by (auto simp: account_keys_def dest: scalar_one_or_none_mem)
qed

lemma mint_key_Inr:
  assumes "mint_key hash_key now token a name actor d = Inr (kr, d')"
  shows "\<exists>d1. add_key (fst kr) d = Inr d1 \<and> api_keys d' = api_keys d1 \<and> fst kr = key_row hash_key (acc_id a) (Some (py_strip name)) token now d"
  using assms by (auto simp: mint_key_def Let_def)

lemma rotate_instance_Inr:
  assumes "rotate_key_instance hash_key now token k actor d = Inr (kr, d')"
  shows "\<exists>d1 d2. d1 = mod_key (ak_id k) (\<lambda>k. k\<lparr>ak_status := KEY_SUSPENDED, ak_revoked_at := Some now\<rparr>) d \<and>
    add_key (fst kr) d1 = Inr d2 \<and> api_keys d' = api_keys d2 \<and>
    fst kr = key_row hash_key (ak_account_id k) (ak_name k) token now d1"
  using assms by (auto simp: rotate_key_instance_def Let_def)

lemma key_row_simps [simp]:
  "ak_id (key_row hk i n tok now d) = fresh_id ak_id (api_keys d)" "ak_status (key_row hk i n tok now d) = KEY_ACTIVE"
  "ak_account_id (key_row hk i n tok now d) = i"
  by (simp_all add: key_row_def)

text \<open>How each request changes the table: at most one row changes, at most one is added.\<close>

lemma resolve_key_Inr:
  assumes "resolve_key_context hash_key now h d = Inr (kc, d')"
  shows "\<exists>k \<in> set (api_keys d). ak_status k = KEY_ACTIVE \<and> d' = mod_key (ak_id k) (\<lambda>_. k\<lparr>ak_last_used_at := Some now\<rparr>) d"
proof -
  obtain raw where raw: "bearer_key h = Some raw" "raw \<noteq> []"
    using assms by (auto simp: resolve_key_context_def split: option.splits if_splits)
  then obtain found where found: "scalar_one_or_none (key_rows (hash_key raw) d) = Inr found"
    using assms by (auto simp: resolve_key_context_def)
  then obtain row where row: "scalar_one_or_none (key_rows (hash_key raw) d) = Inr (Some row)"
    using assms raw by (cases found) (auto simp: resolve_key_context_def)
  have d': "d' = mod_key (ak_id (fst row)) (\<lambda>_. (fst row)\<lparr>ak_last_used_at := Some now\<rparr>) d"
    using assms raw row by (cases row) (auto simp: resolve_key_context_def Let_def split: if_splits)
  from row have "row \<in> set (key_rows (hash_key raw) d)"
    by (auto simp: scalar_one_or_none_Inr)
  then have "fst row \<in> set (api_keys d)" "ak_status (fst row) = KEY_ACTIVE"
    by (auto simp: key_rows_def)
  with d' show ?thesis by blast
qed

lemma handle_dead_hash: "dead_hash h d \<Longrightarrow> dead_hash h (handle_key_request hash_key tv rq d)"
proof (induction hash_key tv rq d rule: handle_key_request.induct)
  case (1 hash_key tv now a name token d)
  show ?case
  proof (cases "create_key hash_key tv now token a name d")
    case (Inr p)
    then have "mint_key hash_key now token a name a d = Inr (fst p, snd p)"
      by (auto simp: create_key_def)
    then show ?thesis
      using mint_key_Inr [of hash_key now token a name a d "fst p" "snd p"] 1 Inr
      by (auto simp: case_prod_unfold dest: dead_hash_add dead_hash_cong)
  qed (use 1 in simp)
next
  case (2 hash_key tv now a i d)
  show ?case
  proof (cases "revoke_key now a i d")
    case (Inr p)
    then obtain k where k: "own_key a i d = Inr k"
      and d': "api_keys (snd p) = api_keys d \<or>
        ak_status k = KEY_ACTIVE \<and> api_keys (snd p) = api_keys (mod_key (ak_id k) (\<lambda>_. k\<lparr>ak_status := KEY_REVOKED, ak_revoked_at := Some now\<rparr>) d)"
      by (auto simp: revoke_key_def Let_def split: if_splits)
    have "dead_hash h (mod_key (ak_id k) (\<lambda>_. k\<lparr>ak_status := KEY_REVOKED, ak_revoked_at := Some now\<rparr>) d)"
      using 2 own_key_Inr [OF k] keys_id_eq [of d _ k] by (intro dead_hash_mod) (auto simp: dead_hash_def)
    then show ?thesis
      using d' 2 Inr by (auto simp: case_prod_unfold dest: dead_hash_cong)
  qed (use 2 in simp)
next
  case (3 hash_key tv now a i token d)
  show ?case
  proof (cases "rotate_key hash_key now token a i d")
    case (Inr p)
    then obtain k where "own_key a i d = Inr k" and rot: "rotate_key_instance hash_key now token k a d = Inr (fst p, snd p)"
      by (auto simp: rotate_key_def)
    have "dead_hash h (mod_key (ak_id k) (\<lambda>k. k\<lparr>ak_status := KEY_SUSPENDED, ak_revoked_at := Some now\<rparr>) d)"
      using 3 by (intro dead_hash_mod) auto
    then show ?thesis
      using rotate_instance_Inr [OF rot] Inr by (auto simp: case_prod_unfold dest: dead_hash_add dead_hash_cong)
  qed (use 3 in simp)
next
  case (4 hash_key tv now a auth d)
  show ?case
  proof (cases "resolve_key_context hash_key now auth d")
    case (Inr p)
    then obtain k where k: "k \<in> set (api_keys d)" "ak_status k = KEY_ACTIVE"
      "snd p = mod_key (ak_id k) (\<lambda>_. k\<lparr>ak_last_used_at := Some now\<rparr>) d"
      using resolve_key_Inr [of hash_key now auth d "fst p" "snd p"] by auto
    have "dead_hash h (mod_key (ak_id k) (\<lambda>_. k\<lparr>ak_last_used_at := Some now\<rparr>) d)"
      using 4 k keys_id_eq [of d _ k] by (intro dead_hash_mod) (auto simp: dead_hash_def)
    then show ?thesis
      using k(3) Inr by (auto simp: case_prod_unfold)
  qed (use 4 in simp)
qed

section \<open>Counting active keys\<close>

lemma length_filter_tupd_le:
  "(\<And>r. r \<in> set t \<Longrightarrow> key r = i \<Longrightarrow> P (f r) \<Longrightarrow> P r) \<Longrightarrow> length (filter P (tupd key i f t)) \<le> length (filter P t)"
  unfolding tupd_def by (induction t) (auto simp: le_Suc_eq)

lemma length_filter_tupd_less:
  assumes "r \<in> set t" "key r = i" "P r" "\<not> P (f r)"
    and "\<And>r. r \<in> set t \<Longrightarrow> key r = i \<Longrightarrow> P (f r) \<Longrightarrow> P r"
  shows "length (filter P (tupd key i f t)) < length (filter P t)"
  using assms
proof (induction t)
  case (Cons x t)
  have tail: "length (filter P (tupd key i f t)) \<le> length (filter P t)"
    using Cons.prems(5) by (intro length_filter_tupd_le) auto
  show ?case
  proof (cases "r = x")
    case True
    then show ?thesis
      using Cons.prems(2-4) tail by (simp add: tupd_def)
  next
    case False
    then have "length (filter P (tupd key i f t)) < length (filter P t)"
      using Cons by auto
    then show ?thesis
      using Cons.prems(5) [of x] by (auto simp: tupd_def)
  qed
qed simp

abbreviation key_count :: "int \<Rightarrow> db \<Rightarrow> nat" where
  "key_count i d \<equiv> length (active_keys i d)"

lemma key_count_eq: "key_count i d = length (filter (\<lambda>k. ak_status k = KEY_ACTIVE \<and> ak_account_id k = i) (api_keys d))"
  by (simp add: active_keys_def account_keys_def conj_commute)

lemma key_count_add:
  "api_keys d' = api_keys d @ [k] \<Longrightarrow> key_count i d' =
    key_count i d + (if ak_status k = KEY_ACTIVE \<and> ak_account_id k = i then 1 else 0)"
  by (simp add: key_count_eq)

lemma rotate_key_count:
  assumes "rotate_key hash_key now token a j d = Inr (kr, d')"
  shows "\<exists>k \<in> set (api_keys d). ak_id k = j \<and> ak_account_id k = acc_id a \<and>
    (if ak_status k = KEY_ACTIVE then key_count i d' \<le> key_count i d
     else keys_inv d \<longrightarrow> key_count (acc_id a) d' = key_count (acc_id a) d + 1)"
proof -
  let ?f = "\<lambda>k. k\<lparr>ak_status := KEY_SUSPENDED, ak_revoked_at := Some now\<rparr>"
  obtain k where "own_key a j d = Inr k" and rot: "rotate_key_instance hash_key now token k a d = Inr (kr, d')"
    using assms by (auto simp: rotate_key_def)
  then have k: "k \<in> set (api_keys d)" "ak_id k = j" "ak_account_id k = acc_id a"
    using own_key_Inr by blast+
  define d1 where "d1 = mod_key j ?f d"
  obtain d2 where "add_key (fst kr) d1 = Inr d2" "api_keys d' = api_keys d2" "fst kr = key_row hash_key (acc_id a) (ak_name k) token now d1"
    using rotate_instance_Inr [OF rot] k by (auto simp: d1_def)
  then have d': "api_keys d' = api_keys d1 @ [fst kr]" "ak_status (fst kr) = KEY_ACTIVE" "ak_account_id (fst kr) = acc_id a"
    using add_key_Inr(1) [of "fst kr" d1 d2] by auto
  have count: "key_count i d' = key_count i d1 + (if acc_id a = i then 1 else 0)" for i
    using key_count_add [OF d'(1)] d'(2,3) by simp
  have le: "key_count i d1 \<le> key_count i d" for i
    unfolding key_count_eq d1_def mod_key_def by (simp, rule length_filter_tupd_le) auto
  show ?thesis
  proof (cases "ak_status k = KEY_ACTIVE")
    case True
    have "key_count (acc_id a) d1 < key_count (acc_id a) d"
      unfolding key_count_eq d1_def mod_key_def using True k by (simp, intro length_filter_tupd_less [of k]) auto
    then have "key_count i d' \<le> key_count i d"
      using count [of i] le [of i] by (cases "acc_id a = i") auto
    with True k show ?thesis by auto
  next
    case False
    have "key_count (acc_id a) d1 = key_count (acc_id a) d" if "keys_inv d"
    proof -
      have "filter (\<lambda>k. ak_status k = KEY_ACTIVE \<and> ak_account_id k = acc_id a) (tupd ak_id j ?f (api_keys d)) =
          filter (\<lambda>k. ak_status k = KEY_ACTIVE \<and> ak_account_id k = acc_id a) (api_keys d)"
        if "\<And>x. x \<in> set t \<Longrightarrow> ak_id x = j \<Longrightarrow> ak_status x \<noteq> KEY_ACTIVE" "t = api_keys d" for t
        using that(1) unfolding that(2) [symmetric] tupd_def by (induction t) auto
      moreover have "ak_status x \<noteq> KEY_ACTIVE" if "x \<in> set (api_keys d)" "ak_id x = j" for x
        using keys_id_eq [OF \<open>keys_inv d\<close> that(1) k(1)] that(2) k(2) False by auto
      ultimately show ?thesis
        by (simp add: key_count_eq d1_def mod_key_def)
    qed
    with False k count show ?thesis by auto
  qed
qed

section \<open>Properties\<close>

text \<open>C15. A key that was revoked or rotated out never works again: whatever keys are created, used, rotated
  or revoked afterwards, by any account, a request that presents it is answered 401.\<close>

theorem dead_key_stays_dead:
  assumes "keys_inv d" and "k \<in> set (api_keys d)" and "ak_status k \<noteq> KEY_ACTIVE"
    and "bearer_key authorization = Some raw" and "hash_key raw = ak_hash k"
  shows "resolve_key_context hash_key now authorization (fold (handle_key_request hash_key tv) rs d) =
    Inl (HTTPException 401 ''unauthorized'')"
proof -
  have "dead_hash (ak_hash k) d"
    using assms(1-3) by (auto simp: dead_hash_def)
  then have "dead_hash (ak_hash k) (fold (handle_key_request hash_key tv) rs d)"
    by (induction rs arbitrary: d) (simp_all add: handle_dead_hash)
  then show ?thesis
    using assms(4,5) by (simp add: resolve_key_context_def dead_hash_rows unauthorized_def)
qed

definition demo_plan :: plan where
  "demo_plan = \<lparr>plan_id = 1, plan_name = ''Free'', plan_code = ''free'', plan_monthly_fee_cents = 0,
     plan_base_payments_included = 10, plan_currency = ''USD'', plan_max_stores = Some 1,
     plan_max_keys_per_account = 1, plan_max_webhooks_per_account = 1, plan_priority_support = False,
     plan_is_public = True, plan_is_active = True,
     plan_tagline = None, plan_features = None, plan_is_featured = False\<rparr>"

definition demo_sub :: plan_subscription where
  "demo_sub = \<lparr>sub_id = 1, sub_account_id = 3, sub_plan_id = 1, sub_status = SUB_ACTIVE, sub_started_at = None,
     sub_canceled_at = None, sub_next_billing_at = 0, sub_trial_ends_at = None, sub_created_at = 0, sub_updated_at = 0\<rparr>"

definition demo_key :: "int \<Rightarrow> string \<Rightarrow> key_status \<Rightarrow> api_key" where
  "demo_key i h st = \<lparr>ak_id = i, ak_account_id = 3, ak_prefix = ''ck_live_abcd'', ak_name = Some ''till'', ak_hash = h,
     ak_mode = ''live'', ak_status = st, ak_last_used_at = None, ak_created_at = 0, ak_revoked_at = None\<rparr>"

definition keyed_db :: db where
  "keyed_db = empty_db\<lparr>accounts := [sample_account\<lparr>acc_terms_accepted_version := Some ''v1''\<rparr>], plans := [demo_plan],
     plan_subscriptions := [demo_sub],
     api_keys := [demo_key 1 ''ck_live_old'' KEY_REVOKED, demo_key 2 ''ck_live_new'' KEY_ACTIVE]\<rparr>"

theorem dead_key_stays_dead_witness:
  "resolve_key_context id 9 (Some ''Bearer ck_live_old'')
     (handle_key_request id ''v1'' (5, sample_account, RotateKey 1 ''again'') keyed_db) =
   Inl (HTTPException 401 ''unauthorized'')"
proof -
  have "keys_inv keyed_db" "demo_key 1 ''ck_live_old'' KEY_REVOKED \<in> set (api_keys keyed_db)"
    "ak_status (demo_key 1 ''ck_live_old'' KEY_REVOKED) \<noteq> KEY_ACTIVE"
    "bearer_key (Some ''Bearer ck_live_old'') = Some ''ck_live_old''"
    "id ''ck_live_old'' = ak_hash (demo_key 1 ''ck_live_old'' KEY_REVOKED)"
    by (simp add: keys_inv_def keyed_db_def demo_key_def distinct_keys_def, simp add: keyed_db_def, code_simp+)
  from dead_key_stays_dead [where hash_key = id, OF this, of 9 "''v1''" "[(5, sample_account, RotateKey 1 ''again'')]"]
  show ?thesis by simp
qed

text \<open>C33. An account within its plan's number of keys stays within it: no request of any account, to create,
  revoke, rotate or use a key, takes the account above the limit, as long as the keys it rotates are
  active ones.\<close>

theorem key_limit_kept:
  assumes "get_active_plan i d = Inr (Some p)" and "int (key_count i d) \<le> plan_max_keys_per_account p"
    and "keys_inv d"
    and "\<And>j token k. snd (snd rq) = RotateKey j token \<Longrightarrow> k \<in> set (api_keys d) \<Longrightarrow> ak_id k = j \<Longrightarrow> ak_status k = KEY_ACTIVE"
  shows "int (key_count i (handle_key_request hash_key tv rq d)) \<le> plan_max_keys_per_account p"
  using assms
proof (induction hash_key tv rq d rule: handle_key_request.induct)
  case (1 hash_key tv now a name token d)
  show ?case
  proof (cases "create_key hash_key tv now token a name d")
    case (Inr q)
    then obtain plan where plan: "get_active_plan (acc_id a) d = Inr plan" "enforce_key_limits a plan d = Inr ()"
      and mint: "mint_key hash_key now token a name a d = Inr (fst q, snd q)"
      by (auto simp: create_key_def)
    obtain d1 where "add_key (fst (fst q)) d = Inr d1" "api_keys (snd q) = api_keys d1"
      "ak_account_id (fst (fst q)) = acc_id a" "ak_id (fst (fst q)) = fresh_id ak_id (api_keys d)"
      using mint_key_Inr [OF mint] by auto
    then have "key_count i (snd q) \<le> key_count i d + (if acc_id a = i then 1 else 0)"
      using key_count_add [of "snd q" d "fst (fst q)" i] add_key_Inr(1) by auto
    moreover have "int (key_count i d) < plan_max_keys_per_account p" if "acc_id a = i"
      using plan "1.prems"(1) that by (auto simp: enforce_key_limits_def)
    ultimately show ?thesis
      using "1.prems"(2) Inr by (cases "acc_id a = i") (auto simp: case_prod_unfold)
  qed (use 1 in simp)
next
  case (2 hash_key tv now a j d)
  show ?case
  proof (cases "revoke_key now a j d")
    case (Inr q)
    then obtain k where k: "own_key a j d = Inr k"
      and d': "api_keys (snd q) = api_keys d \<or>
        api_keys (snd q) = tupd ak_id (ak_id k) (\<lambda>_. k\<lparr>ak_status := KEY_REVOKED, ak_revoked_at := Some now\<rparr>) (api_keys d)"
      by (auto simp: revoke_key_def Let_def mod_key_def split: if_splits)
    have "key_count i (snd q) \<le> key_count i d"
      using d'
    proof
      assume "api_keys (snd q) = tupd ak_id (ak_id k) (\<lambda>_. k\<lparr>ak_status := KEY_REVOKED, ak_revoked_at := Some now\<rparr>) (api_keys d)"
      then show ?thesis
        unfolding key_count_eq by (simp, intro length_filter_tupd_le) simp
    qed (simp add: key_count_eq)
    with 2 Inr show ?thesis by (auto simp: case_prod_unfold)
  qed (use 2 in simp)
next
  case (3 hash_key tv now a j token d)
  show ?case
  proof (cases "rotate_key hash_key now token a j d")
    case (Inr q)
    then have "rotate_key hash_key now token a j d = Inr (fst q, snd q)"
      by simp
    from rotate_key_count [OF this, of i] "3.prems"(4) have "key_count i (snd q) \<le> key_count i d"
      by (auto split: if_splits)
    with 3 Inr show ?thesis by (auto simp: case_prod_unfold)
  qed (use 3 in simp)
next
  case (4 hash_key tv now a auth d)
  show ?case
  proof (cases "resolve_key_context hash_key now auth d")
    case (Inr q)
    then obtain k where k: "k \<in> set (api_keys d)" "ak_status k = KEY_ACTIVE"
      "snd q = mod_key (ak_id k) (\<lambda>_. k\<lparr>ak_last_used_at := Some now\<rparr>) d"
      using resolve_key_Inr [of hash_key now auth d "fst q" "snd q"] by auto
    have "key_count i (snd q) \<le> key_count i d"
      unfolding key_count_eq k(3) mod_key_def using k(1,2) keys_id_eq [OF "4.prems"(3) _ k(1)]
      by (simp, intro length_filter_tupd_le) auto
    with 4 Inr show ?thesis by (auto simp: case_prod_unfold)
  qed (use 4 in simp)
qed

theorem key_limit_kept_witness:
  "int (key_count 3 (handle_key_request id ''v1'' (5, sample_account, RotateKey 2 ''next'') keyed_db)) \<le> 1"
proof -
  have "get_active_plan 3 keyed_db = Inr (Some demo_plan)" "int (key_count 3 keyed_db) \<le> plan_max_keys_per_account demo_plan"
    by code_simp+
  moreover have "keys_inv keyed_db"
    by (simp add: keys_inv_def keyed_db_def demo_key_def distinct_keys_def)
  moreover have "ak_status k = KEY_ACTIVE" if "k \<in> set (api_keys keyed_db)" "ak_id k = 2" for k
    using that by (auto simp: keyed_db_def demo_key_def)
  ultimately show ?thesis
    using key_limit_kept [of 3 keyed_db demo_plan "(5, sample_account, RotateKey 2 ''next'')" id "''v1''"]
    by (simp add: demo_plan_def)
qed

text \<open>Rotating a key that no longer works mints an active one and checks no limit.\<close>

lemma rotating_dead_key_adds_one:
  assumes "keys_inv d" "rotate_key hash_key now token a j d = Inr (kr, d')"
    and "\<And>k. k \<in> set (api_keys d) \<Longrightarrow> ak_id k = j \<Longrightarrow> ak_status k \<noteq> KEY_ACTIVE"
  shows "key_count (acc_id a) d' = key_count (acc_id a) d + 1"
  using rotate_key_count [OF assms(2), of 0] assms(1,3) by (auto split: if_splits)

end
