(* ===== verification/Support.thy ===== *)
theory Support
  imports Keys
begin

text \<open>
  Support threads (\<^verbatim>\<open>src/src/chmabapay/services/support.py\<close>, the merchant routes of
  \<^verbatim>\<open>routers/support.py\<close> and the operator routes of \<^verbatim>\<open>routers/admin.py\<close>): opening, replying, closing,
  assigning, and the order of the operators' queue.  The alert to the operators' channel and the
  e-mail to the merchant are sent after the commit and cannot change the result; they are left out.
  Generated public ids are arguments.

  A call reads the clock once for the header (\<open>now\<close>); the row of a message takes its own time of creation
  when it is flushed, \<open>flushed\<close>, which is never before.  A new header has both its times from one reading.
\<close>

section \<open>Plans and targets\<close>

definition PRIORITY_RESPONSE_TARGET_HOURS :: int where
  "PRIORITY_RESPONSE_TARGET_HOURS = 24"

text \<open>The same query as the key limit makes.\<close>

definition active_plan :: "int \<Rightarrow> db \<Rightarrow> plan option result" where
  "active_plan account_id d = get_active_plan account_id d"

definition priority_for_account :: "account \<Rightarrow> db \<Rightarrow> support_priority result" where
  "priority_for_account a d =
     rbind (active_plan (acc_id a) d) (\<lambda>plan.
       Inr (case plan of
          Some p \<Rightarrow> if plan_priority_support p then SUPPORT_PRIORITY_HIGH else SUPPORT_PRIORITY_STANDARD
        | None \<Rightarrow> SUPPORT_PRIORITY_STANDARD))"

definition response_target_hours :: "plan option \<Rightarrow> int option" where
  "response_target_hours plan =
     (case plan of
        Some p \<Rightarrow> if plan_priority_support p then Some PRIORITY_RESPONSE_TARGET_HOURS else None
      | None \<Rightarrow> None)"

definition target_hours_by_account :: "int list \<Rightarrow> db \<Rightarrow> (int \<times> int option) list" where
  "target_hours_by_account ids d =
     (if ids = [] then []
      else rev [(sub_account_id s, response_target_hours (Some p)).
             s \<leftarrow> plan_subscriptions d, sub_account_id s \<in> set ids \<and> live_sub s,
             p \<leftarrow> plans d, plan_id p = sub_plan_id s])"

text \<open>\<open>dict.get\<close>: the last row of an account wins.\<close>

definition target_hours_for_account :: "int \<Rightarrow> db \<Rightarrow> int option" where
  "target_hours_for_account i d = Option.bind (map_of (target_hours_by_account [i] d) i) id"

definition hours :: "int \<Rightarrow> int" where
  "hours n = seconds (3600 * n)"

definition target_breached :: "support_request \<Rightarrow> int option \<Rightarrow> instant \<Rightarrow> bool" where
  "target_breached rq target now =
     (case target of
        None \<Rightarrow> False
      | Some h \<Rightarrow> sup_first_response_at rq = None \<and> now - sup_created_at rq > hours h)"

section \<open>The rules of a thread\<close>

definition mod_request :: "int \<Rightarrow> (support_request \<Rightarrow> support_request) \<Rightarrow> db \<Rightarrow> db" where
  "mod_request i f d = d\<lparr>support_requests := tupd sup_id i f (support_requests d)\<rparr>"

definition add_message :: "int \<Rightarrow> int \<Rightarrow> support_author \<Rightarrow> string \<Rightarrow> instant \<Rightarrow> db \<Rightarrow> db" where
  "add_message request_id author kind body flushed d =
     d\<lparr>support_messages := tadd \<lparr>msg_id = fresh_id msg_id (support_messages d), msg_request_id = request_id,
        msg_author_account_id = author, msg_author_kind = kind, msg_body = body, msg_created_at = flushed\<rparr>
        (support_messages d)\<rparr>"

definition request_row ::
  "account \<Rightarrow> string \<Rightarrow> string \<Rightarrow> support_category \<Rightarrow> support_priority \<Rightarrow> instant \<Rightarrow> db \<Rightarrow> support_request"
where
  "request_row a public_id subject category prio now d =
     \<lparr>sup_id = fresh_id sup_id (support_requests d), sup_public_id = public_id, sup_account_id = acc_id a,
      sup_subject = subject, sup_category = category, sup_status = SUPPORT_OPEN, sup_priority = prio,
      sup_assigned_admin_account_id = None, sup_first_response_at = None, sup_resolved_at = None,
      sup_created_at = now, sup_updated_at = now\<rparr>"

definition open_support_request ::
  "string \<Rightarrow> instant \<Rightarrow> instant \<Rightarrow> account \<Rightarrow> string \<Rightarrow> support_category \<Rightarrow> string \<Rightarrow> db \<Rightarrow> (support_request \<times> db) result"
where
  "open_support_request public_id now flushed a subject category body d =
     rbind (priority_for_account a d) (\<lambda>prio.
     rbind (guard (public_id \<notin> sup_public_id ` set (support_requests d)) (RuntimeError ''IntegrityError'')) (\<lambda>_.
       let rq = request_row a public_id subject category prio now d;
           d = d\<lparr>support_requests := tadd rq (support_requests d)\<rparr>
       in Inr (rq, add_message (sup_id rq) (acc_id a) SUPPORT_AUTHOR_MERCHANT body flushed d)))"

definition operator_answered :: "instant \<Rightarrow> support_request \<Rightarrow> support_request" where
  "operator_answered now rq =
     rq\<lparr>sup_first_response_at := (if sup_first_response_at rq = None then Some now else sup_first_response_at rq),
        sup_status := (if sup_status rq = SUPPORT_OPEN then SUPPORT_PENDING else sup_status rq),
        sup_updated_at := now\<rparr>"

definition record_operator_reply :: "instant \<Rightarrow> instant \<Rightarrow> support_request \<Rightarrow> account \<Rightarrow> string \<Rightarrow> db \<Rightarrow> db" where
  "record_operator_reply now flushed rq admin body d =
     mod_request (sup_id rq) (operator_answered now)
       (add_message (sup_id rq) (acc_id admin) SUPPORT_AUTHOR_OPERATOR body flushed d)"

definition merchant_answered :: "instant \<Rightarrow> support_request \<Rightarrow> support_request" where
  "merchant_answered now rq =
     rq\<lparr>sup_status := (if sup_status rq = SUPPORT_PENDING then SUPPORT_OPEN else sup_status rq), sup_updated_at := now\<rparr>"

definition record_merchant_reply :: "instant \<Rightarrow> instant \<Rightarrow> support_request \<Rightarrow> account \<Rightarrow> string \<Rightarrow> db \<Rightarrow> db" where
  "record_merchant_reply now flushed rq a body d =
     mod_request (sup_id rq) (merchant_answered now)
       (add_message (sup_id rq) (acc_id a) SUPPORT_AUTHOR_MERCHANT body flushed d)"

definition resolved :: "instant \<Rightarrow> support_request \<Rightarrow> support_request" where
  "resolved at rq = rq\<lparr>sup_status := SUPPORT_RESOLVED, sup_resolved_at := Some at, sup_updated_at := at\<rparr>"

definition resolve_request :: "instant \<Rightarrow> support_request \<Rightarrow> db \<Rightarrow> db" where
  "resolve_request at rq d = mod_request (sup_id rq) (resolved at) d"

text \<open>The queue: priority first, then the unanswered, then the oldest.\<close>

definition queue_rank :: "support_request \<Rightarrow> int \<times> int \<times> instant" where
  "queue_rank rq =
     (if sup_priority rq = SUPPORT_PRIORITY_HIGH then - 1 else 0,
      if sup_first_response_at rq = None then 0 else 1, sup_created_at rq)"

definition queue_before :: "support_request \<Rightarrow> support_request \<Rightarrow> bool" where
  "queue_before x y =
     (case (queue_rank x, queue_rank y) of
        ((a, b, c), (a', b', c')) \<Rightarrow> a < a' \<or> a = a' \<and> (b < b' \<or> b = b' \<and> c \<le> c'))"

fun queue_insert :: "support_request \<Rightarrow> support_request list \<Rightarrow> support_request list" where
  "queue_insert x [] = [x]"
| "queue_insert x (y # ys) = (if queue_before x y then x # y # ys else y # queue_insert x ys)"

definition queue_order :: "support_request list \<Rightarrow> support_request list" where
  "queue_order t = foldr queue_insert t []"

definition load_messages :: "int \<Rightarrow> db \<Rightarrow> support_message list" where
  "load_messages request_id d = sort_key msg_id (filter (\<lambda>m. msg_request_id m = request_id) (support_messages d))"

definition messages_by_request :: "int list \<Rightarrow> db \<Rightarrow> int \<Rightarrow> support_message list" where
  "messages_by_request ids d i =
     (if i \<in> set ids then filter (\<lambda>m. msg_request_id m = i) (sort_key msg_id (support_messages d)) else [])"

section \<open>The merchant's routes\<close>

definition support_text_ok :: "nat \<Rightarrow> string \<Rightarrow> bool" where
  "support_text_ok n t \<longleftrightarrow> 1 \<le> length t \<and> length t \<le> n"

definition load_request :: "account \<Rightarrow> string \<Rightarrow> db \<Rightarrow> support_request result" where
  "load_request a public_id d =
     rbind (scalar_one_or_none
       (filter (\<lambda>rq. sup_account_id rq = acc_id a \<and> sup_public_id rq = public_id) (support_requests d))) (\<lambda>found.
       case found of None \<Rightarrow> Inl (HTTPException 404 ''support_request_not_found'') | Some rq \<Rightarrow> Inr rq)"

definition open_request_route ::
  "string \<Rightarrow> instant \<Rightarrow> instant \<Rightarrow> account \<Rightarrow> string \<Rightarrow> support_category \<Rightarrow> string \<Rightarrow> db \<Rightarrow> db result"
where
  "open_request_route public_id now flushed a subject category body d =
     rbind (guard (support_text_ok 200 subject \<and> support_text_ok 8000 body) (HTTPException 422 ''validation_error'')) (\<lambda>_.
     rbind (open_support_request public_id now flushed a subject category body d) (\<lambda>(_, d). Inr d))"

definition reply_to_request :: "instant \<Rightarrow> instant \<Rightarrow> account \<Rightarrow> string \<Rightarrow> string \<Rightarrow> db \<Rightarrow> db result" where
  "reply_to_request now flushed a public_id body d =
     rbind (guard (support_text_ok 8000 body) (HTTPException 422 ''validation_error'')) (\<lambda>_.
     rbind (load_request a public_id d) (\<lambda>rq. Inr (record_merchant_reply now flushed rq a body d)))"

definition close_request :: "instant \<Rightarrow> account \<Rightarrow> string \<Rightarrow> db \<Rightarrow> db result" where
  "close_request now a public_id d =
     rbind (load_request a public_id d) (\<lambda>rq.
       Inr (if sup_status rq \<noteq> SUPPORT_RESOLVED then resolve_request now rq d else d))"

text \<open>Newest first, by id, one page.\<close>

definition list_requests :: "nat \<Rightarrow> nat \<Rightarrow> account \<Rightarrow> db \<Rightarrow> support_request list" where
  "list_requests n offset a d =
     take n (drop offset
       (sort_key (\<lambda>rq. - sup_id rq) (filter (\<lambda>rq. sup_account_id rq = acc_id a) (support_requests d))))"

section \<open>The operators' routes\<close>

definition load_support_ticket :: "string \<Rightarrow> db \<Rightarrow> support_request result" where
  "load_support_ticket public_id d =
     rbind (scalar_one_or_none (filter (\<lambda>rq. sup_public_id rq = public_id) (support_requests d))) (\<lambda>found.
       case found of None \<Rightarrow> Inl (HTTPException 404 ''support_request_not_found'') | Some rq \<Rightarrow> Inr rq)"

definition reply_to_support_request :: "instant \<Rightarrow> instant \<Rightarrow> account \<Rightarrow> string \<Rightarrow> string \<Rightarrow> db \<Rightarrow> db result" where
  "reply_to_support_request now flushed admin public_id body d =
     rbind (guard (support_text_ok 8000 body) (HTTPException 422 ''validation_error'')) (\<lambda>_.
     rbind (load_support_ticket public_id d) (\<lambda>rq.
       Inr (audit_record (Some admin) ''support.replied'' ''SupportRequest'' (sup_id rq)
              [(''account_id'', JInt (sup_account_id rq))] (record_operator_reply now flushed rq admin body d))))"

fun support_status_name :: "support_status \<Rightarrow> string" where
  "support_status_name SUPPORT_OPEN = ''open''"
| "support_status_name SUPPORT_PENDING = ''pending''"
| "support_status_name SUPPORT_RESOLVED = ''resolved''"

definition json_opt_int :: "int option \<Rightarrow> json" where
  "json_opt_int x = (case x of None \<Rightarrow> JNull | Some i \<Rightarrow> JInt i)"

text \<open>The assignee of a patch: \<open>None\<close> when the field was not sent, \<open>Some None\<close> to unassign.\<close>

definition reassign :: "instant \<Rightarrow> account \<Rightarrow> support_request \<Rightarrow> int option option \<Rightarrow> db \<Rightarrow> db result" where
  "reassign now admin rq assignee d =
     (case assignee of
        None \<Rightarrow> Inr d
      | Some who \<Rightarrow>
          if who = sup_assigned_admin_account_id rq then Inr d
          else rbind (guard (case who of None \<Rightarrow> True
                | Some i \<Rightarrow> (case tget acc_id i (accounts d) of None \<Rightarrow> False | Some a \<Rightarrow> acc_is_platform_admin a))
              (HTTPException 400 ''invalid_assignee'')) (\<lambda>_.
            Inr (audit_record (Some admin) ''support.assigned'' ''SupportRequest'' (sup_id rq)
              [(''from'', json_opt_int (sup_assigned_admin_account_id rq)), (''to'', json_opt_int who)]
              (mod_request (sup_id rq) (\<lambda>rq. rq\<lparr>sup_assigned_admin_account_id := who, sup_updated_at := now\<rparr>) d))))"

definition set_status :: "instant \<Rightarrow> support_status \<Rightarrow> support_request \<Rightarrow> support_request" where
  "set_status now st rq =
     (if st = SUPPORT_RESOLVED then resolved now rq
      else rq\<lparr>sup_status := st, sup_resolved_at := None, sup_updated_at := now\<rparr>)"

definition update_support_request ::
  "instant \<Rightarrow> account \<Rightarrow> string \<Rightarrow> support_status option \<Rightarrow> int option option \<Rightarrow> db \<Rightarrow> db result"
where
  "update_support_request now admin public_id status assignee d =
     rbind (load_support_ticket public_id d) (\<lambda>rq.
     rbind (reassign now admin rq assignee d) (\<lambda>d.
       Inr (case status of
          None \<Rightarrow> d
        | Some st \<Rightarrow>
            if st = sup_status rq then d
            else audit_record (Some admin) ''support.status_changed'' ''SupportRequest'' (sup_id rq)
              [(''from'', JStr (support_status_name (sup_status rq))), (''to'', JStr (support_status_name st))]
              (mod_request (sup_id rq) (set_status now st) d))))"

section \<open>Requests\<close>

datatype support_call =
    OpenTicket account string string support_category string
  | MerchantReply account string string
  | MerchantClose account string
  | OperatorReply account string string
  | OperatorUpdate account string "support_status option" "int option option"

text \<open>A call with the reading of the clock it makes and the microseconds until its message is flushed.\<close>

fun run_support_call :: "instant \<times> nat \<times> support_call \<Rightarrow> db \<Rightarrow> db result" where
  "run_support_call (now, lag, OpenTicket a pid subject category body) d =
     open_request_route pid now (now + int lag) a subject category body d"
| "run_support_call (now, lag, MerchantReply a pid body) d = reply_to_request now (now + int lag) a pid body d"
| "run_support_call (now, lag, MerchantClose a pid) d = close_request now a pid d"
| "run_support_call (now, lag, OperatorReply a pid body) d = reply_to_support_request now (now + int lag) a pid body d"
| "run_support_call (now, lag, OperatorUpdate a pid status assignee) d = update_support_request now a pid status assignee d"

definition handle_support_call :: "instant \<times> nat \<times> support_call \<Rightarrow> db \<Rightarrow> db" where
  "handle_support_call x d = (case run_support_call x d of Inl _ \<Rightarrow> d | Inr d \<Rightarrow> d)"

section \<open>The thread and its header\<close>

definition thread :: "int \<Rightarrow> support_message list \<Rightarrow> support_message list" where
  "thread i ms = filter (\<lambda>m. msg_request_id m = i) ms"

definition first_operator_message :: "support_message list \<Rightarrow> instant option" where
  "first_operator_message ms = map_option msg_created_at (find (\<lambda>m. msg_author_kind m = SUPPORT_AUTHOR_OPERATOR) ms)"

text \<open>A time of the header against the time of a message: absent together, and otherwise not later and not
  more than \<open>L\<close> microseconds earlier.\<close>

fun read_before :: "nat \<Rightarrow> instant option \<Rightarrow> instant option \<Rightarrow> bool" where
  "read_before L None None \<longleftrightarrow> True"
| "read_before L (Some t) (Some u) \<longleftrightarrow> t \<le> u \<and> u \<le> t + int L"
| "read_before L _ _ \<longleftrightarrow> False"

definition ticket_ok :: "nat \<Rightarrow> support_message list \<Rightarrow> support_request \<Rightarrow> bool" where
  "ticket_ok L ms rq \<longleftrightarrow>
     read_before L (sup_first_response_at rq) (first_operator_message ms) \<and>
     (sup_resolved_at rq \<noteq> None \<longleftrightarrow> sup_status rq = SUPPORT_RESOLVED) \<and>
     ms \<noteq> [] \<and> msg_author_kind (hd ms) = SUPPORT_AUTHOR_MERCHANT \<and> msg_author_account_id (hd ms) = sup_account_id rq"

definition support_inv :: "nat \<Rightarrow> db \<Rightarrow> bool" where
  "support_inv L d \<longleftrightarrow>
     distinct_keys sup_id (support_requests d) \<and> sorted_wrt (<) (map msg_id (support_messages d)) \<and>
     (\<forall>m \<in> set (support_messages d). msg_request_id m < fresh_id sup_id (support_requests d)) \<and>
     (\<forall>rq \<in> set (support_requests d). ticket_ok L (thread (sup_id rq) (support_messages d)) rq)"

lemma audit_support [simp]:
  "support_requests (audit_record a b c e f d) = support_requests d"
  "support_messages (audit_record a b c e f d) = support_messages d"
  by (simp_all add: audit_record_def)

lemma support_inv_audit [simp]: "support_inv L (audit_record a b c e f d) = support_inv L d"
  by (simp add: support_inv_def)

lemma fresh_id_map: "map key t = map key t' \<Longrightarrow> fresh_id key t = fresh_id key t'"
  by (simp add: fresh_id_def)

lemma tupd_mem: "x \<in> set (tupd key i f t) \<Longrightarrow> \<exists>y \<in> set t. x = (if key y = i then f y else y)"
  by (auto simp: tupd_def)

lemma support_inv_mod:
  assumes "support_inv L d" "\<And>rq. sup_id (f rq) = sup_id rq"
    and "\<And>rq. sup_id rq = i \<Longrightarrow> ticket_ok L (thread i (support_messages d)) rq \<Longrightarrow> ticket_ok L (thread i (support_messages d)) (f rq)"
  shows "support_inv L (mod_request i f d)"
proof -
  have "ticket_ok L (thread (sup_id x) (support_messages d)) x" if x: "x \<in> set (tupd sup_id i f (support_requests d))" for x
  proof -
    obtain y where y: "y \<in> set (support_requests d)" "x = (if sup_id y = i then f y else y)"
      using tupd_mem [OF x] by blast
    then have "ticket_ok L (thread (sup_id y) (support_messages d)) y"
      using assms(1) by (simp add: support_inv_def)
    then show ?thesis
      using y(2) assms(2,3) by (cases "sup_id y = i") auto
  qed
  moreover have keys: "map sup_id (tupd sup_id i f (support_requests d)) = map sup_id (support_requests d)"
    by (rule map_key_tupd) (rule assms(2))
  ultimately show ?thesis
    using assms(1) fresh_id_map [OF keys] by (simp add: support_inv_def mod_request_def distinct_keys_def)
qed

lemma thread_add_message:
  "thread j (support_messages (add_message i author kind body now d)) =
     thread j (support_messages d) @ (if j = i then
       [\<lparr>msg_id = fresh_id msg_id (support_messages d), msg_request_id = i, msg_author_account_id = author,
         msg_author_kind = kind, msg_body = body, msg_created_at = now\<rparr>] else [])"
  by (simp add: thread_def add_message_def tadd_def)

lemma sorted_add_message:
  "sorted_wrt (<) (map msg_id (support_messages d)) \<Longrightarrow>
   sorted_wrt (<) (map msg_id (support_messages (add_message i author kind body now d)))"
  using fresh_id_greater [of _ "support_messages d" msg_id]
  by (auto simp: add_message_def tadd_def sorted_wrt_append)

lemma first_operator_append:
  "first_operator_message (ms @ [m]) =
     (case first_operator_message ms of
        Some t \<Rightarrow> Some t
      | None \<Rightarrow> if msg_author_kind m = SUPPORT_AUTHOR_OPERATOR then Some (msg_created_at m) else None)"
  by (induction ms) (auto simp: first_operator_message_def)

text \<open>A reply to a ticket: the message goes to its thread, the header follows.\<close>

lemma support_inv_reply:
  assumes d: "support_inv L d" and rq: "rq \<in> set (support_requests d)"
    and f: "\<And>x. sup_id (f x) = sup_id x"
      "\<And>x ms m. ticket_ok L ms x \<Longrightarrow> msg_author_kind m = kind \<Longrightarrow> msg_created_at m = flushed \<Longrightarrow> ticket_ok L (ms @ [m]) (f x)"
  shows "support_inv L (mod_request (sup_id rq) f (add_message (sup_id rq) author kind body flushed d))"
proof -
  let ?d = "add_message (sup_id rq) author kind body flushed d"
  let ?t = "tupd sup_id (sup_id rq) f (support_requests d)"
  have "ticket_ok L (thread (sup_id x) (support_messages ?d)) x" if x: "x \<in> set ?t" for x
  proof -
    obtain y where y: "y \<in> set (support_requests d)" "x = (if sup_id y = sup_id rq then f y else y)"
      using tupd_mem [OF x] by blast
    then have "ticket_ok L (thread (sup_id y) (support_messages d)) y"
      using d by (simp add: support_inv_def)
    then show ?thesis
      using y(2) f by (cases "sup_id y = sup_id rq") (auto simp: thread_add_message)
  qed
  moreover have keys: "map sup_id ?t = map sup_id (support_requests d)"
    by (rule map_key_tupd) (rule f(1))
  moreover have "\<forall>m \<in> set (support_messages ?d). msg_request_id m < fresh_id sup_id ?t"
    using d fresh_id_greater [OF rq, of sup_id] fresh_id_map [OF keys]
    by (auto simp: support_inv_def add_message_def tadd_def)
  moreover have "sorted_wrt (<) (map msg_id (support_messages ?d))"
    using d by (intro sorted_add_message) (simp add: support_inv_def)
  moreover have "support_requests ?d = support_requests d"
    by (simp add: add_message_def)
  ultimately show ?thesis
    using d by (simp add: support_inv_def mod_request_def distinct_keys_def)
qed

lemma ticket_ok_operator:
  assumes "ticket_ok L ms x" "msg_author_kind m = SUPPORT_AUTHOR_OPERATOR" "msg_created_at m = flushed"
    and "now \<le> flushed" "flushed \<le> now + int L"
  shows "ticket_ok L (ms @ [m]) (operator_answered now x)"
  using assms by (cases "sup_first_response_at x"; cases "first_operator_message ms")
    (auto simp: ticket_ok_def operator_answered_def first_operator_append)

lemma ticket_ok_merchant:
  "ticket_ok L ms x \<Longrightarrow> msg_author_kind m = SUPPORT_AUTHOR_MERCHANT \<Longrightarrow> ticket_ok L (ms @ [m]) (merchant_answered now x)"
  by (auto simp: ticket_ok_def merchant_answered_def first_operator_append split: option.splits)

lemma load_request_mem: "load_request a pid d = Inr rq \<Longrightarrow> rq \<in> set (support_requests d) \<and> sup_account_id rq = acc_id a"
  by (auto simp: load_request_def split: option.splits dest: scalar_one_or_none_mem)

lemma load_ticket_mem: "load_support_ticket pid d = Inr rq \<Longrightarrow> rq \<in> set (support_requests d)"
  by (auto simp: load_support_ticket_def split: option.splits dest: scalar_one_or_none_mem)

lemma support_inv_open:
  assumes d: "support_inv L d" and opened: "open_support_request pid now flushed a subject category body d = Inr (rq, d')"
  shows "support_inv L d'"
proof -
  obtain prio where rq: "rq = request_row a pid subject category prio now d"
    and d': "d' = add_message (sup_id rq) (acc_id a) SUPPORT_AUTHOR_MERCHANT body flushed
      (d\<lparr>support_requests := tadd rq (support_requests d)\<rparr>)"
    using opened by (auto simp: open_support_request_def Let_def)
  have id: "sup_id rq = fresh_id sup_id (support_requests d)"
    by (simp add: rq request_row_def)
  have "sup_id rq < fresh_id sup_id (tadd rq (support_requests d))"
    by (rule fresh_id_greater) (simp add: tadd_def)
  then have bound: "\<forall>m \<in> set (support_messages d'). msg_request_id m < fresh_id sup_id (tadd rq (support_requests d))"
    using d id by (auto simp: d' support_inv_def add_message_def tadd_def)
  have "thread (sup_id rq) (support_messages d) = []"
    using d id by (auto simp: support_inv_def thread_def filter_empty_conv)
  then have new: "ticket_ok L (thread (sup_id rq) (support_messages d')) rq"
    by (simp add: d' add_message_def thread_def tadd_def ticket_ok_def first_operator_message_def rq request_row_def)
  have old: "ticket_ok L (thread (sup_id x) (support_messages d')) x" if "x \<in> set (support_requests d)" for x
  proof -
    have "sup_id x \<noteq> sup_id rq"
      using fresh_id_greater [OF that, of sup_id] id by simp
    then show ?thesis
      using d that by (simp add: support_inv_def d' add_message_def thread_def tadd_def)
  qed
  have "sorted_wrt (<) (map msg_id (support_messages d'))"
    using sorted_add_message [of "d\<lparr>support_requests := tadd rq (support_requests d)\<rparr>"] d
    by (simp add: d' support_inv_def)
  moreover have "distinct_keys sup_id (support_requests d')" "support_requests d' = tadd rq (support_requests d)"
    using d id by (auto simp: d' support_inv_def add_message_def intro: distinct_keys_tadd_fresh)
  ultimately show ?thesis
    using bound new old by (auto simp: support_inv_def tadd_def)
qed

lemma support_inv_update:
  assumes d: "support_inv L d" and upd: "update_support_request now admin pid status assignee d = Inr d'"
  shows "support_inv L d'"
proof -
  obtain rq d1 where rq: "load_support_ticket pid d = Inr rq" and re: "reassign now admin rq assignee d = Inr d1"
    using upd by (auto simp: update_support_request_def)
  then have d': "d' = d1 \<or> (\<exists>st det. d' = audit_record (Some admin) ''support.status_changed'' ''SupportRequest'' (sup_id rq) det
      (mod_request (sup_id rq) (set_status now st) d1))"
    using upd by (cases status) (auto simp: update_support_request_def split: if_splits)
  have d1: "support_inv L d1"
  proof -
    have "support_inv L (mod_request (sup_id rq) (\<lambda>rq. rq\<lparr>sup_assigned_admin_account_id := who, sup_updated_at := now\<rparr>) d)" for who
      by (rule support_inv_mod [OF d]) (auto simp: ticket_ok_def)
    then show ?thesis
      using re d by (auto simp: reassign_def split: option.splits if_splits)
  qed
  moreover have "support_inv L (mod_request (sup_id rq) (set_status now st) d1)" for st
    by (rule support_inv_mod [OF d1]) (auto simp: set_status_def resolved_def ticket_ok_def)
  ultimately show ?thesis
    using d' by auto
qed

lemma support_inv_call:
  "support_inv L d \<Longrightarrow> fst (snd x) \<le> L \<Longrightarrow> run_support_call x d = Inr d' \<Longrightarrow> support_inv L d'"
proof (induction x d rule: run_support_call.induct)
  case (1 now lag a pid subject category body d)
  then show ?case by (auto simp: open_request_route_def intro: support_inv_open)
next
  case (2 now lag a pid body d)
  then obtain rq where "rq \<in> set (support_requests d)" "d' = record_merchant_reply now (now + int lag) rq a body d"
    by (auto simp: reply_to_request_def dest!: load_request_mem)
  then show ?case
    unfolding record_merchant_reply_def using 2
    by (auto intro!: support_inv_reply ticket_ok_merchant simp: merchant_answered_def)
next
  case (3 now lag a pid d)
  have "support_inv L (mod_request i (resolved now) d)" for i
    by (rule support_inv_mod [OF 3(1)]) (auto simp: resolved_def ticket_ok_def)
  with 3 show ?case
    by (auto simp: close_request_def resolve_request_def split: if_splits)
next
  case (4 now lag a pid body d)
  then obtain rq det where "rq \<in> set (support_requests d)"
    "d' = audit_record (Some a) ''support.replied'' ''SupportRequest'' (sup_id rq) det (record_operator_reply now (now + int lag) rq a body d)"
    by (auto simp: reply_to_support_request_def dest!: load_ticket_mem)
  then show ?case
    unfolding record_operator_reply_def using 4
    by (auto intro!: support_inv_reply ticket_ok_operator simp: operator_answered_def)
next
  case (5 now lag a pid status assignee d)
  then show ?case by (auto intro: support_inv_update)
qed

lemma load_messages_thread:
  assumes "support_inv L d"
  shows "load_messages i d = thread i (support_messages d)"
proof -
  have "sorted (map msg_id (support_messages d))"
    using assms sorted_wrt_mono_rel [of "map msg_id (support_messages d)" "(<)" "(\<le>)"] by (simp add: support_inv_def)
  then have "sorted (map msg_id (thread i (support_messages d)))"
    unfolding thread_def by (rule sorted_filter)
  then show ?thesis
    by (simp add: load_messages_def thread_def sorted_sort_id sort_key_id_if_sorted)
qed

section \<open>Properties\<close>

text \<open>C38. Whatever merchants and operators do, and in whatever order, every ticket tells the truth about its
  thread: the thread opens with the owner's own message, the first response is recorded exactly when an
  operator has written, and the ticket has a time of resolution exactly while it is resolved.  The time
  of the first response is the reading of the clock made for the first operator's message: not later
  than the time that message carries, and not earlier by more than the longest time \<open>L\<close> a call took from
  its reading to the flush of its message.\<close>

theorem ticket_follows_thread:
  assumes "support_inv L d" and "\<And>x. x \<in> set xs \<Longrightarrow> fst (snd x) \<le> L"
    and "rq \<in> set (support_requests (fold handle_support_call xs d))"
  shows "ticket_ok L (load_messages (sup_id rq) (fold handle_support_call xs d)) rq"
proof -
  have "support_inv L (handle_support_call x d)" if "support_inv L d" "fst (snd x) \<le> L" for x d
    using support_inv_call [OF that] that by (auto simp: handle_support_call_def split: sum.split)
  then have "support_inv L (fold handle_support_call xs d)"
    using assms(1,2) by (induction xs arbitrary: d) simp_all
  then show ?thesis
    using assms(3) by (simp add: load_messages_thread) (simp add: support_inv_def)
qed

definition demo_ticket_calls :: "(instant \<times> nat \<times> support_call) list" where
  "demo_ticket_calls =
     [(10, 1, OpenTicket sample_account ''sup_1'' ''Payout'' SUPPORT_CATEGORY_PAYMENT ''Where is it?''),
      (20, 1, MerchantReply sample_account ''sup_1'' ''Hello?''),
      (30, 2, OperatorReply (sample_account\<lparr>acc_id := 1\<rparr>) ''sup_1'' ''Looking''),
      (40, 0, MerchantClose sample_account ''sup_1'')]"

theorem ticket_follows_thread_witness:
  "(let d = fold handle_support_call demo_ticket_calls empty_db; rq = hd (support_requests d)
    in ticket_ok 2 (load_messages (sup_id rq) d) rq \<and> sup_first_response_at rq = Some 30 \<and>
       first_operator_message (load_messages (sup_id rq) d) = Some 32)"
proof -
  let ?d = "fold handle_support_call demo_ticket_calls empty_db"
  have inv: "support_inv 2 empty_db"
    by (simp add: support_inv_def empty_db_def distinct_keys_def)
  have lag: "fst (snd x) \<le> 2" if "x \<in> set demo_ticket_calls" for x
    using that by (auto simp: demo_ticket_calls_def)
  have d: "support_requests ?d \<noteq> []" "sup_first_response_at (hd (support_requests ?d)) = Some 30"
    "first_operator_message (load_messages (sup_id (hd (support_requests ?d))) ?d) = Some 32"
    by code_simp+
  then have mem: "hd (support_requests ?d) \<in> set (support_requests ?d)"
    by simp
  show ?thesis
    using ticket_follows_thread [OF inv lag mem] d(2,3) by (simp add: Let_def)
qed

lemma queue_before_trans: "queue_before x y \<Longrightarrow> queue_before y z \<Longrightarrow> queue_before x z"
  by (auto simp: queue_before_def split: prod.splits)

lemma queue_before_total: "queue_before x y \<or> queue_before y x"
  by (auto simp: queue_before_def split: prod.splits)

lemma set_queue_insert: "set (queue_insert x ys) = insert x (set ys)"
  by (induction ys) auto

lemma mset_queue_insert: "count_list (queue_insert x ys) z = count_list (x # ys) z"
  by (induction ys) auto

lemma sorted_queue_insert: "sorted_wrt queue_before ys \<Longrightarrow> sorted_wrt queue_before (queue_insert x ys)"
proof (induction ys)
  case (Cons y ys)
  show ?case
  proof (cases "queue_before x y")
    case True
    then show ?thesis
      using Cons.prems queue_before_trans [OF True] by auto
  next
    case False
    then have "queue_before y x"
      using queue_before_total by blast
    then show ?thesis
      using Cons False by (auto simp: set_queue_insert)
  qed
qed simp

text \<open>The operators' queue is every request once, and of two requests the earlier one is never the lesser:
  a priority request comes before a standard one however long that has waited, within a class a request
  no operator has answered comes before an answered one, and among those the older comes first.\<close>

theorem queue_is_fair:
  "sorted_wrt queue_before (queue_order t) \<and> count_list (queue_order t) = count_list t"
proof -
  have "sorted_wrt queue_before (queue_order t)"
    by (induction t) (simp_all add: queue_order_def sorted_queue_insert)
  moreover have "count_list (queue_order t) z = count_list t z" for z
    by (induction t) (simp_all add: queue_order_def mset_queue_insert)
  ultimately show ?thesis
    by (simp add: fun_eq_iff)
qed

end
