(* ===== verification/Console.thy ===== *)
theory Console
  imports Support
begin

text \<open>
  The operator console (\<^verbatim>\<open>src/src/chmabapay/routers/admin.py\<close>): who may call it, and the handlers that write.
  Here are the account standing, the plan an operator grants, the plan catalogue, the closing of an
  invoice by hand, the keys and the stores of a merchant, and the platform's own collection link; the
  handlers that act on payments and deliveries are in \<open>Operators\<close>, the support queue in \<open>Support\<close>.

  A handler takes the calling operator \<open>ctx\<close>; \<open>console_call\<close> puts the two gates in front of it.  What a
  request body may hold is checked after the gates, as the framework does, and answers 422.  Instants in
  an audit row or a stored document stand for their ISO text.  Generated ids and tokens are arguments.

  Lemmas: only a password session of an operator reaches a handler; no console request leaves the
  platform with no operator who can sign in, and every request keeps the invariant of billing.
\<close>

section \<open>Who may call\<close>

definition get_hybrid_admin_context ::
  "mac_fun \<Rightarrow> auth_settings \<Rightarrow> bool \<Rightarrow> instant \<Rightarrow> request \<Rightarrow> db \<Rightarrow> account result"
where
  "get_hybrid_admin_context mac s enable_dev_gateway now r d =
     rbind (get_current_session_account mac s now r d) (\<lambda>a.
     let amr = session_auth_method mac s now r in
     rbind (guard (amr = ''password'' \<or> (amr = ''dev'' \<and> enable_dev_gateway))
       (HTTPException 403 ''password_session_required'')) (\<lambda>_.
     rbind (guard (acc_is_platform_admin a) (HTTPException 403 ''forbidden'')) (\<lambda>_.
     Inr a)))"

definition validation_error :: exc where
  "validation_error = HTTPException 422 ''validation_error''"

section \<open>Accounts\<close>

definition active_admin_count :: "db \<Rightarrow> nat" where
  "active_admin_count d =
     length (filter (\<lambda>a. acc_is_platform_admin a \<and> acc_status a = ACCOUNT_ACTIVE) (accounts d))"

record account_patch =
  ap_whitelabel_enabled :: "bool option"
  ap_status :: "account_status option"
  ap_reason :: "string option"

definition account_patch_ok :: "account_patch \<Rightarrow> bool" where
  "account_patch_ok p \<longleftrightarrow> (case ap_reason p of None \<Rightarrow> True | Some r \<Rightarrow> length r \<le> 500)"

fun account_status_name :: "account_status \<Rightarrow> string" where
  "account_status_name ACCOUNT_ACTIVE = ''active''"
| "account_status_name ACCOUNT_SUSPENDED = ''suspended''"
| "account_status_name ACCOUNT_RESTRICTED = ''restricted''"

fun status_action :: "account_status \<Rightarrow> string" where
  "status_action ACCOUNT_SUSPENDED = ''account.suspended''"
| "status_action ACCOUNT_RESTRICTED = ''account.restricted''"
| "status_action ACCOUNT_ACTIVE = ''account.activated''"

definition from_to :: "string \<Rightarrow> json \<Rightarrow> json \<Rightarrow> string \<times> json" where
  "from_to field old new = (field, JObj [(''from'', old), (''to'', new)])"

definition with_reason :: "string option \<Rightarrow> (string \<times> json) list \<Rightarrow> (string \<times> json) list" where
  "with_reason reason details =
     (if or_str reason [] = [] then details else details @ [(''reason'', json_opt_str reason)])"

definition new_standing :: "account_patch \<Rightarrow> account \<Rightarrow> account_status option" where
  "new_standing p a =
     (case ap_status p of None \<Rightarrow> None | Some st \<Rightarrow> if st = acc_status a then None else Some st)"

definition patched_account :: "instant \<Rightarrow> account_patch \<Rightarrow> account \<Rightarrow> account" where
  "patched_account now p a =
     a\<lparr>acc_whitelabel_enabled := (case ap_whitelabel_enabled p of None \<Rightarrow> acc_whitelabel_enabled a | Some w \<Rightarrow> w),
       acc_status := (case new_standing p a of None \<Rightarrow> acc_status a | Some st \<Rightarrow> st),
       acc_updated_at := now\<rparr>"

definition account_changes :: "account_patch \<Rightarrow> account \<Rightarrow> (string \<times> json) list" where
  "account_changes p a =
     (case ap_whitelabel_enabled p of None \<Rightarrow> []
      | Some w \<Rightarrow> [from_to ''whitelabel_enabled'' (JBool (acc_whitelabel_enabled a)) (JBool w)]) @
     (case new_standing p a of None \<Rightarrow> []
      | Some st \<Rightarrow> [from_to ''status'' (JStr (account_status_name (acc_status a))) (JStr (account_status_name st))])"

definition update_account :: "instant \<Rightarrow> account \<Rightarrow> int \<Rightarrow> account_patch \<Rightarrow> db \<Rightarrow> (account \<times> db) result" where
  "update_account now ctx account_id p d =
     rbind (guard (account_patch_ok p) validation_error) (\<lambda>_.
     case tget acc_id account_id (accounts d) of
       None \<Rightarrow> Inl (HTTPException 404 ''account_not_found'')
     | Some a \<Rightarrow>
         if new_standing p a = Some ACCOUNT_SUSPENDED \<and> acc_is_platform_admin a \<and> active_admin_count d \<le> 1
         then Inl (HTTPException 409 ''last_platform_admin'')
         else if account_changes p a = [] then Inr (a, d)
         else Inr (patched_account now p a,
           audit_record (Some ctx)
             (case new_standing p a of None \<Rightarrow> ''account.updated'' | Some st \<Rightarrow> status_action st) ''Account'' (acc_id a)
             (with_reason (ap_reason p) [(''changes'', JObj (account_changes p a))])
             (mod_account (acc_id a) (patched_account now p) d)))"

section \<open>A plan on an operator's authority\<close>

definition live_subs :: "int \<Rightarrow> db \<Rightarrow> plan_subscription list" where
  "live_subs account_id d = filter (\<lambda>sub. sub_account_id sub = account_id \<and> live_sub sub) (plan_subscriptions d)"

definition grant_plan :: "instant \<Rightarrow> account \<Rightarrow> int \<Rightarrow> plan \<Rightarrow> string \<Rightarrow> db \<Rightarrow> (plan_subscription \<times> db) result" where
  "grant_plan now ctx account_id pl reason d =
     (let current = live_subs account_id d;
          current_code = (case current of [] \<Rightarrow> None
            | c # _ \<Rightarrow> map_option plan_code (tget plan_id (sub_plan_id c) (plans d)));
          d1 = (case current of [] \<Rightarrow> d | c # _ \<Rightarrow> mod_sub (sub_id c) (cancel_sub now) d);
          sub = new_sub account_id (plan_id pl) SUB_ACTIVE (Some now) now d1
      in if (case current of [] \<Rightarrow> False | c # _ \<Rightarrow> sub_plan_id c = plan_id pl)
         then Inl (HTTPException 400 ''plan_unchanged'')
         else Inr (sub, audit_record (Some ctx) ''account.plan_assigned'' ''Account'' account_id
            [(''from_plan'', json_opt_str current_code), (''to_plan'', JStr (plan_code pl)),
             (''monthly_fee_cents'', JInt (plan_monthly_fee_cents pl)), (''reason'', JStr reason)] (add_sub sub d1)))"

definition assign_account_plan ::
  "instant \<Rightarrow> account \<Rightarrow> int \<Rightarrow> string \<Rightarrow> string \<Rightarrow> db \<Rightarrow> (plan_subscription \<times> db) result"
where
  "assign_account_plan now ctx account_id wanted reason d =
     rbind (guard (1 \<le> length wanted \<and> length wanted \<le> 40 \<and> 3 \<le> length reason \<and> length reason \<le> 500)
       validation_error) (\<lambda>_.
     rbind (guard (tget acc_id account_id (accounts d) \<noteq> None) (HTTPException 404 ''account_not_found'')) (\<lambda>_.
     rbind (scalar_one_or_none (filter (\<lambda>p. plan_code p = wanted) (plans d))) (\<lambda>found.
     case found of
       None \<Rightarrow> Inl (HTTPException 404 ''plan_not_found'')
     | Some pl \<Rightarrow> grant_plan now ctx account_id pl reason d)))"

section \<open>The plan catalogue\<close>

definition FEATURES_MAX :: nat where "FEATURES_MAX = 12"
definition FEATURE_MAX_LEN :: nat where "FEATURE_MAX_LEN = 80"

definition clean_features :: "string list option \<Rightarrow> string list option result" where
  "clean_features v =
     (case v of
        None \<Rightarrow> Inr None
      | Some items \<Rightarrow>
          let cleaned = filter (\<lambda>i. i \<noteq> []) (map py_strip items) in
          if length cleaned > FEATURES_MAX then Inl (ValueError ''too_many_features'')
          else if list_ex (\<lambda>i. length i > FEATURE_MAX_LEN) cleaned then Inl (ValueError ''feature_too_long'')
          else Inr (Some cleaned))"

record plan_create =
  pc_code :: string
  pc_name :: string
  pc_monthly_fee_cents :: int
  pc_base_payments_included :: int
  pc_max_stores :: "int option"
  pc_max_keys :: int
  pc_max_webhooks :: int
  pc_priority_support :: bool
  pc_is_public :: bool
  pc_is_active :: bool
  pc_tagline :: "string option"
  pc_features :: "string list option"
  pc_is_featured :: bool

definition code_char :: "char \<Rightarrow> bool" where
  "code_char c \<longleftrightarrow> is_dec c \<or> (97 \<le> code c \<and> code c \<le> 122)"

definition opt_all :: "('a \<Rightarrow> bool) \<Rightarrow> 'a option \<Rightarrow> bool" where
  "opt_all P x = (case x of None \<Rightarrow> True | Some v \<Rightarrow> P v)"

definition plan_create_ok :: "plan_create \<Rightarrow> bool" where
  "plan_create_ok b \<longleftrightarrow>
     2 \<le> length (pc_code b) \<and> length (pc_code b) \<le> 32 \<and> code_char (hd (pc_code b)) \<and>
     list_all (\<lambda>c. code_char c \<or> c = CHR ''_'' \<or> c = CHR ''-'') (tl (pc_code b)) \<and>
     1 \<le> length (pc_name b) \<and> length (pc_name b) \<le> 64 \<and>
     pc_monthly_fee_cents b \<ge> 0 \<and> pc_base_payments_included b \<ge> 0 \<and> opt_all (\<lambda>n. n \<ge> 0) (pc_max_stores b) \<and>
     pc_max_keys b \<ge> 0 \<and> pc_max_webhooks b \<ge> 0 \<and> opt_all (\<lambda>t. length t \<le> 160) (pc_tagline b)"

definition new_plan :: "plan_create \<Rightarrow> string list option \<Rightarrow> db \<Rightarrow> plan" where
  "new_plan b features d =
     \<lparr>plan_id = fresh_id plan_id (plans d), plan_name = pc_name b, plan_code = pc_code b,
      plan_monthly_fee_cents = pc_monthly_fee_cents b, plan_base_payments_included = pc_base_payments_included b,
      plan_currency = ''USD'', plan_max_stores = pc_max_stores b, plan_max_keys_per_account = pc_max_keys b,
      plan_max_webhooks_per_account = pc_max_webhooks b, plan_priority_support = pc_priority_support b,
      plan_is_public = pc_is_public b, plan_is_active = pc_is_active b, plan_tagline = pc_tagline b,
      plan_features = features, plan_is_featured = pc_is_featured b\<rparr>"

definition create_plan :: "account \<Rightarrow> plan_create \<Rightarrow> db \<Rightarrow> (plan \<times> db) result" where
  "create_plan ctx b d =
     (case clean_features (pc_features b) of
        Inl _ \<Rightarrow> Inl validation_error
      | Inr features \<Rightarrow>
     rbind (guard (plan_create_ok b) validation_error) (\<lambda>_.
     rbind (scalar_one_or_none (filter (\<lambda>p. plan_code p = pc_code b) (plans d))) (\<lambda>existing.
     rbind (guard (existing = None) (HTTPException 409 ''plan_code_exists'')) (\<lambda>_.
     let pl = new_plan b features d in
     Inr (pl, audit_record (Some ctx) ''plan.created'' ''Plan'' (plan_id pl)
       [(''plan_code'', JStr (plan_code pl)), (''name'', JStr (plan_name pl))] (d\<lparr>plans := tadd pl (plans d)\<rparr>))))))"

text \<open>In a patch an omitted field is \<open>None\<close> and an explicit \<^verbatim>\<open>null\<close> is \<open>Some None\<close>.\<close>

record plan_patch =
  pp_name :: "string option option"
  pp_monthly_fee_cents :: "int option option"
  pp_base_payments_included :: "int option option"
  pp_max_stores :: "int option option"
  pp_max_keys :: "int option option"
  pp_max_webhooks :: "int option option"
  pp_priority_support :: "bool option option"
  pp_is_public :: "bool option option"
  pp_is_active :: "bool option option"
  pp_tagline :: "string option option"
  pp_features :: "string list option option"
  pp_is_featured :: "bool option option"

definition plan_patch_ok :: "plan_patch \<Rightarrow> bool" where
  "plan_patch_ok p \<longleftrightarrow>
     opt_all (opt_all (\<lambda>n. 1 \<le> length n \<and> length n \<le> 64)) (pp_name p) \<and>
     list_all (opt_all (opt_all (\<lambda>n. n \<ge> 0)))
       [pp_monthly_fee_cents p, pp_base_payments_included p, pp_max_stores p, pp_max_keys p, pp_max_webhooks p] \<and>
     opt_all (opt_all (\<lambda>t. length t \<le> 160)) (pp_tagline p)"

text \<open>The columns that may not be \<^verbatim>\<open>NULL\<close>.\<close>

definition plan_patch_flush :: "plan_patch \<Rightarrow> bool" where
  "plan_patch_flush p \<longleftrightarrow>
     pp_name p \<noteq> Some None \<and>
     Some None \<notin> set [pp_monthly_fee_cents p, pp_base_payments_included p, pp_max_keys p, pp_max_webhooks p] \<and>
     Some None \<notin> set [pp_priority_support p, pp_is_public p, pp_is_active p, pp_is_featured p]"

definition put :: "'a option option \<Rightarrow> 'a \<Rightarrow> 'a" where
  "put v old = (case v of Some (Some new) \<Rightarrow> new | _ \<Rightarrow> old)"

definition put_opt :: "'a option option \<Rightarrow> 'a option \<Rightarrow> 'a option" where
  "put_opt v old = (case v of None \<Rightarrow> old | Some new \<Rightarrow> new)"

definition patched_plan :: "plan_patch \<Rightarrow> plan \<Rightarrow> plan" where
  "patched_plan p pl =
     pl\<lparr>plan_name := put (pp_name p) (plan_name pl),
        plan_monthly_fee_cents := put (pp_monthly_fee_cents p) (plan_monthly_fee_cents pl),
        plan_base_payments_included := put (pp_base_payments_included p) (plan_base_payments_included pl),
        plan_max_stores := put_opt (pp_max_stores p) (plan_max_stores pl),
        plan_max_keys_per_account := put (pp_max_keys p) (plan_max_keys_per_account pl),
        plan_max_webhooks_per_account := put (pp_max_webhooks p) (plan_max_webhooks_per_account pl),
        plan_priority_support := put (pp_priority_support p) (plan_priority_support pl),
        plan_is_public := put (pp_is_public p) (plan_is_public pl),
        plan_is_active := put (pp_is_active p) (plan_is_active pl),
        plan_tagline := put_opt (pp_tagline p) (plan_tagline pl),
        plan_features := put_opt (pp_features p) (plan_features pl),
        plan_is_featured := put (pp_is_featured p) (plan_is_featured pl)\<rparr>"

definition json_opt :: "('a \<Rightarrow> json) \<Rightarrow> 'a option \<Rightarrow> json" where
  "json_opt f x = (case x of None \<Rightarrow> JNull | Some v \<Rightarrow> f v)"

definition changed :: "string \<Rightarrow> ('a \<Rightarrow> json) \<Rightarrow> 'a option option \<Rightarrow> 'a option \<Rightarrow> (string \<times> json) list" where
  "changed field f v old =
     (case v of None \<Rightarrow> [] | Some new \<Rightarrow> if new = old then [] else [from_to field (json_opt f old) (json_opt f new)])"

definition plan_changes :: "plan_patch \<Rightarrow> plan \<Rightarrow> (string \<times> json) list" where
  "plan_changes p pl =
     changed ''name'' JStr (pp_name p) (Some (plan_name pl)) @
     changed ''monthly_fee_cents'' JInt (pp_monthly_fee_cents p) (Some (plan_monthly_fee_cents pl)) @
     changed ''base_payments_included'' JInt (pp_base_payments_included p) (Some (plan_base_payments_included pl)) @
     changed ''max_stores'' JInt (pp_max_stores p) (plan_max_stores pl) @
     changed ''max_keys_per_account'' JInt (pp_max_keys p) (Some (plan_max_keys_per_account pl)) @
     changed ''max_webhooks_per_account'' JInt (pp_max_webhooks p) (Some (plan_max_webhooks_per_account pl)) @
     changed ''priority_support'' JBool (pp_priority_support p) (Some (plan_priority_support pl)) @
     changed ''is_public'' JBool (pp_is_public p) (Some (plan_is_public pl)) @
     changed ''is_active'' JBool (pp_is_active p) (Some (plan_is_active pl)) @
     changed ''tagline'' JStr (pp_tagline p) (plan_tagline pl) @
     changed ''features'' (\<lambda>fs. JList (map JStr fs)) (pp_features p) (plan_features pl) @
     changed ''is_featured'' JBool (pp_is_featured p) (Some (plan_is_featured pl))"

definition cleaned_patch :: "plan_patch \<Rightarrow> plan_patch result" where
  "cleaned_patch p =
     (case pp_features p of
        None \<Rightarrow> Inr p
      | Some v \<Rightarrow> rbind (clean_features v) (\<lambda>fs. Inr (p\<lparr>pp_features := Some fs\<rparr>)))"

definition mod_plan :: "int \<Rightarrow> (plan \<Rightarrow> plan) \<Rightarrow> db \<Rightarrow> db" where
  "mod_plan i f d = d\<lparr>plans := tupd plan_id i f (plans d)\<rparr>"

definition update_plan :: "account \<Rightarrow> int \<Rightarrow> plan_patch \<Rightarrow> db \<Rightarrow> (plan \<times> db) result" where
  "update_plan ctx i body d =
     (case cleaned_patch body of
        Inl _ \<Rightarrow> Inl validation_error
      | Inr p \<Rightarrow>
     rbind (guard (plan_patch_ok p) validation_error) (\<lambda>_.
     case tget plan_id i (plans d) of
       None \<Rightarrow> Inl (HTTPException 404 ''plan_not_found'')
     | Some pl \<Rightarrow>
         if plan_changes p pl = [] then Inr (pl, d)
         else rbind (guard (plan_patch_flush p) (RuntimeError ''IntegrityError'')) (\<lambda>_.
           Inr (patched_plan p pl,
             audit_record (Some ctx) ''plan.updated'' ''Plan'' (plan_id pl)
               [(''plan_code'', JStr (plan_code pl)), (''changes'', JObj (plan_changes p pl))]
               (mod_plan (plan_id pl) (patched_plan p) d)))))"

definition plan_subscription_count :: "int \<Rightarrow> db \<Rightarrow> nat" where
  "plan_subscription_count i d = length (filter (\<lambda>sub. sub_plan_id sub = i) (plan_subscriptions d))"

definition retired_plan :: "plan \<Rightarrow> plan" where
  "retired_plan pl = pl\<lparr>plan_is_active := False, plan_is_public := False\<rparr>"

text \<open>The answer is the retired plan, or nothing when the row was deleted.\<close>

definition delete_plan :: "account \<Rightarrow> int \<Rightarrow> db \<Rightarrow> (plan option \<times> db) result" where
  "delete_plan ctx i d =
     (case tget plan_id i (plans d) of
        None \<Rightarrow> Inl (HTTPException 404 ''plan_not_found'')
      | Some pl \<Rightarrow>
          let n = plan_subscription_count (plan_id pl) d in
          if n > 0 then
            Inr (Some (retired_plan pl), audit_record (Some ctx) ''plan.retired'' ''Plan'' (plan_id pl)
              [(''plan_code'', JStr (plan_code pl)), (''subscriptions'', JInt (int n))]
              (mod_plan (plan_id pl) retired_plan d))
          else
            Inr (None, audit_record (Some ctx) ''plan.deleted'' ''Plan'' i
              [(''plan_code'', JStr (plan_code pl))] (d\<lparr>plans := filter (\<lambda>p. plan_id p \<noteq> plan_id pl) (plans d)\<rparr>)))"

section \<open>Invoices closed by hand\<close>

datatype resolution = MarkPaid | Waive | Credit | Void

fun resolution_name :: "resolution \<Rightarrow> string" where
  "resolution_name MarkPaid = ''mark-paid''"
| "resolution_name Waive = ''waive''"
| "resolution_name Credit = ''credit''"
| "resolution_name Void = ''void''"

definition RESOLVED_INVOICE_STATUS :: "invoice_status set" where
  "RESOLVED_INVOICE_STATUS = {INVOICE_PAID, INVOICE_WAIVED, INVOICE_CREDITED, INVOICE_VOID}"

fun invoice_status_name :: "invoice_status \<Rightarrow> string" where
  "invoice_status_name INVOICE_OPEN = ''open''"
| "invoice_status_name INVOICE_DRAFT = ''draft''"
| "invoice_status_name INVOICE_ISSUED = ''issued''"
| "invoice_status_name INVOICE_PAID = ''paid''"
| "invoice_status_name INVOICE_VOID = ''void''"
| "invoice_status_name INVOICE_WAIVED = ''waived''"
| "invoice_status_name INVOICE_CREDITED = ''credited''"

definition forgive_invoice :: "invoice_status \<Rightarrow> instant \<Rightarrow> plan_invoice \<Rightarrow> plan_invoice" where
  "forgive_invoice st now i = i\<lparr>inv_status := st, inv_updated_at := now\<rparr>"

definition forgive :: "invoice_status \<Rightarrow> instant \<Rightarrow> plan_invoice \<Rightarrow> db \<Rightarrow> db" where
  "forgive st now i d =
     (let d1 = mod_invoice (inv_id i) (forgive_invoice st now) d;
          d2 = (case inv_subscription_id i of
                  None \<Rightarrow> d1
                | Some sid \<Rightarrow> extend_coverage i now (activate_subscription sid now d1))
      in lift_billing_hold (inv_account_id i) now d2)"

definition apply_resolution :: "settings \<Rightarrow> instant \<Rightarrow> resolution \<Rightarrow> plan_invoice \<Rightarrow> db \<Rightarrow> db result" where
  "apply_resolution s now action i d =
     (case action of
        MarkPaid \<Rightarrow> rbind (settle_invoice s i None now now ''admin'' d) (\<lambda>r. Inr (snd r))
      | Void \<Rightarrow> Inr (lift_billing_hold (inv_account_id i) now (mod_invoice (inv_id i) (void_invoice VOID_OPERATOR now) d))
      | Waive \<Rightarrow> Inr (forgive INVOICE_WAIVED now i d)
      | Credit \<Rightarrow> Inr (forgive INVOICE_CREDITED now i d))"

definition resolution_details :: "resolution \<Rightarrow> string \<Rightarrow> int option \<Rightarrow> plan_invoice \<Rightarrow> (string \<times> json) list" where
  "resolution_details action reason amount_cents i =
     [(''resolution'', JStr (resolution_name action)), (''account_id'', JInt (inv_account_id i)),
      (''period_month'', JStr (inv_period_month i)), (''total_due_cents'', JInt (inv_total_due_cents i)),
      (''reason'', JStr reason)] @
     (if action = Credit
      then [(''credited_cents'', JInt (case amount_cents of None \<Rightarrow> inv_total_due_cents i | Some c \<Rightarrow> c))] else [])"

definition resolve_invoice ::
  "settings \<Rightarrow> instant \<Rightarrow> account \<Rightarrow> int \<Rightarrow> resolution \<Rightarrow> string \<Rightarrow> int option \<Rightarrow> db \<Rightarrow> db result"
where
  "resolve_invoice s now ctx invoice_id action reason amount_cents d =
     rbind (guard (3 \<le> length reason \<and> length reason \<le> 500 \<and> opt_all (\<lambda>c. c \<ge> 0) amount_cents) validation_error) (\<lambda>_.
     case tget inv_id invoice_id (plan_invoices d) of
       None \<Rightarrow> Inl (HTTPException 404 ''invoice_not_found'')
     | Some i \<Rightarrow>
         if inv_status i \<in> RESOLVED_INVOICE_STATUS
         then Inl (HTTPException 409 (''invoice_already_'' @ invoice_status_name (inv_status i)))
         else rbind (apply_resolution s now action i d) (\<lambda>d1.
           Inr (audit_record (Some ctx) ''invoice.resolved'' ''PlanInvoice'' (inv_id i)
             (resolution_details action reason amount_cents i) d1)))"

section \<open>A merchant's keys\<close>

definition key_by_id :: "int \<Rightarrow> db \<Rightarrow> api_key result" where
  "key_by_id i d =
     (case tget ak_id i (api_keys d) of None \<Rightarrow> Inl (HTTPException 404 ''key_not_found'') | Some k \<Rightarrow> Inr k)"

definition revoke_account_key :: "instant \<Rightarrow> account \<Rightarrow> int \<Rightarrow> db \<Rightarrow> (bool \<times> db) result" where
  "revoke_account_key now ctx key_id d =
     rbind (key_by_id key_id d) (\<lambda>k.
       if ak_status k \<noteq> KEY_ACTIVE then Inr (False, d)
       else Inr (True, audit_record (Some ctx) ''key.revoked'' ''ApiKey'' (ak_id k)
         [(''account_id'', JInt (ak_account_id k)), (''name'', json_opt_str (ak_name k)), (''key_prefix'', JStr (ak_prefix k))]
         (mod_key (ak_id k) (\<lambda>k. k\<lparr>ak_status := KEY_REVOKED, ak_revoked_at := Some now\<rparr>) d)))"

definition mint_account_key ::
  "(string \<Rightarrow> string) \<Rightarrow> instant \<Rightarrow> string \<Rightarrow> account \<Rightarrow> int \<Rightarrow> string \<Rightarrow> db \<Rightarrow> ((api_key \<times> string) \<times> db) result"
where
  "mint_account_key hash_key now token ctx account_id name d =
     rbind (guard (1 \<le> length name \<and> length name \<le> 64) validation_error) (\<lambda>_.
     case tget acc_id account_id (accounts d) of
       None \<Rightarrow> Inl (HTTPException 404 ''account_not_found'')
     | Some a \<Rightarrow> mint_key hash_key now token a name ctx d)"

definition rotate_account_key ::
  "(string \<Rightarrow> string) \<Rightarrow> instant \<Rightarrow> string \<Rightarrow> account \<Rightarrow> int \<Rightarrow> db \<Rightarrow> ((api_key \<times> string) \<times> db) result"
where
  "rotate_account_key hash_key now token ctx key_id d =
     rbind (key_by_id key_id d) (\<lambda>k. rotate_key_instance hash_key now token k ctx d)"

section \<open>A merchant's stores\<close>

definition any_store :: "string \<Rightarrow> db \<Rightarrow> store result" where
  "any_store public_id d =
     rbind (scalar_one_or_none (filter (\<lambda>st. st_public_id st = public_id) (stores d))) (\<lambda>found.
       case found of None \<Rightarrow> Inl (HTTPException 404 ''store_not_found'') | Some st \<Rightarrow> Inr st)"

definition disable_account_store :: "account \<Rightarrow> string \<Rightarrow> db \<Rightarrow> (bool \<times> db) result" where
  "disable_account_store ctx public_id d =
     rbind (any_store public_id d) (\<lambda>st.
       if st_status st = STORE_DISABLED then Inr (False, d)
       else Inr (True, audit_record (Some ctx) ''store.disabled'' ''Store'' (st_id st)
         [(''account_id'', JInt (st_account_id st)), (''name'', JStr (st_name st))]
         (set_store (st\<lparr>st_status := STORE_DISABLED\<rparr>) d)))"

definition enable_account_store :: "account \<Rightarrow> string \<Rightarrow> db \<Rightarrow> (bool \<times> db) result" where
  "enable_account_store ctx public_id d =
     rbind (any_store public_id d) (\<lambda>st.
       if st_status st \<noteq> STORE_DISABLED then Inr (False, d)
       else rbind (scalar_one_or_none
           (map lk_id (filter (\<lambda>l. lk_store_id l = st_id st) (payment_links d)))) (\<lambda>has_link.
         let restored = (if has_link \<noteq> None then STORE_ACTIVE else STORE_DRAFT) in
         Inr (True, audit_record (Some ctx) ''store.enabled'' ''Store'' (st_id st)
           [(''account_id'', JInt (st_account_id st)), (''name'', JStr (st_name st)),
            (''status'', JStr (store_status_name restored))]
           (set_store (st\<lparr>st_status := restored\<rparr>) d))))"

definition set_account_store_internal :: "account \<Rightarrow> string \<Rightarrow> bool \<Rightarrow> string option \<Rightarrow> db \<Rightarrow> (bool \<times> db) result" where
  "set_account_store_internal ctx public_id flag reason d =
     rbind (guard (opt_all (\<lambda>r. length r \<le> 500) reason) validation_error) (\<lambda>_.
     rbind (any_store public_id d) (\<lambda>st.
       if st_is_internal st = flag then Inr (False, d)
       else Inr (True, audit_record (Some ctx) ''store.internal_changed'' ''Store'' (st_id st)
         (with_reason reason [(''account_id'', JInt (st_account_id st)), (''name'', JStr (st_name st)),
           (''from'', JBool (st_is_internal st)), (''to'', JBool flag)])
         (set_store (st\<lparr>st_is_internal := flag\<rparr>) d))))"

section \<open>Where plan fees are collected\<close>

definition looks_like_payway_link :: "string \<Rightarrow> bool" where
  "looks_like_payway_link raw =
     (let s = py_strip raw in
      s \<noteq> [] \<and> (if CHR ''/'' \<in> set s then py_contains PAYWAY_LINK_HOST (py_lower s) else bare_slug s))"

record hq_link =
  hl_raw_link :: string
  hl_merchant_account_id :: "string option"
  hl_merchant_name :: "string option"
  hl_reason :: "string option"

definition hq_link_ok :: "hq_link \<Rightarrow> bool" where
  "hq_link_ok b \<longleftrightarrow>
     6 \<le> length (hl_raw_link b) \<and> length (hl_raw_link b) \<le> 500 \<and>
     opt_all (\<lambda>x. length x \<le> 120) (hl_merchant_account_id b) \<and>
     opt_all (\<lambda>x. length x \<le> 120) (hl_merchant_name b) \<and> opt_all (\<lambda>x. length x \<le> 500) (hl_reason b)"

definition console_hq_store :: "account \<Rightarrow> string \<Rightarrow> instant \<Rightarrow> db \<Rightarrow> store" where
  "console_hq_store ctx fresh_public_id now d =
     \<lparr>st_id = fresh_id st_id (stores d), st_public_id = fresh_public_id, st_account_id = acc_id ctx,
      st_created_via = ''admin'', st_name = HQ_STORE_NAME, st_external_id = None, st_city = ''Phnom Penh'',
      st_support_email = None, st_redirect_success_url = None, st_redirect_failure_url = None,
      st_telegram_chat_id = None, st_brand_color = None, st_logo_image_url = None, st_whitelabel_css = None,
      st_is_internal = False, st_billing_suspended_at = None, st_status = STORE_DRAFT, st_created_at = now,
      st_updated_at = now\<rparr>"

definition hq_store_for_write ::
  "settings \<Rightarrow> account \<Rightarrow> string \<Rightarrow> instant \<Rightarrow> db \<Rightarrow> (store \<times> db) result"
where
  "hq_store_for_write s ctx fresh_public_id now d =
     rbind (resolve_hq_store s d) (\<lambda>(found, _).
       case found of
         Some st \<Rightarrow> Inr (st, d)
       | None \<Rightarrow>
           let st = console_hq_store ctx fresh_public_id now d in
           rbind (guard (fresh_public_id \<notin> st_public_id ` set (stores d)) (RuntimeError ''IntegrityError'')) (\<lambda>_.
             Inr (st, audit_record (Some ctx) ''hq_store.created'' ''Store'' (st_id st)
               [(''name'', JStr (st_name st))] (d\<lparr>stores := tadd st (stores d)\<rparr>))))"

definition hq_destination :: "hq_link \<Rightarrow> string" where
  "hq_destination b =
     (let given = py_strip (or_str (hl_merchant_account_id b) []) in
      if given = [] then extract_slug (py_strip (hl_raw_link b)) else given)"

definition hq_link_payload :: "hq_link \<Rightarrow> link_payload" where
  "hq_link_payload b =
     \<lparr>lp_raw_link = py_strip (hl_raw_link b), lp_merchant_account_id = hq_destination b,
      lp_merchant_name = Some (py_strip (or_str (hl_merchant_name b) HQ_STORE_NAME)), lp_currency = ''USD'',
      lp_currency_set = False\<rparr>"

text \<open>\<open>LinkIn\<close> is built inside the handler, so a value it refuses is an unhandled error there.\<close>

definition link_in_ok :: "link_payload \<Rightarrow> bool" where
  "link_in_ok p \<longleftrightarrow>
     3 \<le> length (lp_raw_link p) \<and> length (lp_raw_link p) \<le> 512 \<and>
     3 \<le> length (lp_merchant_account_id p) \<and> length (lp_merchant_account_id p) \<le> 120 \<and>
     opt_all (\<lambda>x. length x \<le> 120) (lp_merchant_name p)"

definition set_hq_store_link ::
  "settings \<Rightarrow> account \<Rightarrow> string \<Rightarrow> instant \<Rightarrow> hq_link \<Rightarrow> db \<Rightarrow> (store \<times> db) result"
where
  "set_hq_store_link s ctx fresh_public_id now b d =
     rbind (guard (hq_link_ok b) validation_error) (\<lambda>_.
     rbind (guard (looks_like_payway_link (py_strip (hl_raw_link b))) (HTTPException 400 ''invalid_payway_link'')) (\<lambda>_.
     rbind (guard (hq_destination b \<noteq> []) (HTTPException 400 ''invalid_payway_link'')) (\<lambda>_.
     rbind (hq_store_for_write s ctx fresh_public_id now d) (\<lambda>(st, d1).
     rbind (guard (link_in_ok (hq_link_payload b)) (RuntimeError ''ValidationError'')) (\<lambda>_.
     let st1 = st\<lparr>st_is_internal := True, st_status := STORE_ACTIVE\<rparr> in
     rbind (attach_link_to_store (st_id st) (hq_link_payload b) LINK_VERIFIED (set_store st1 d1)) (\<lambda>d2.
     Inr (st1, audit_record (Some ctx) ''hq_store.link_set'' ''Store'' (st_id st)
       (with_reason (hl_reason b) [(''merchant_account_id'', JStr (hq_destination b)),
         (''raw_link'', JStr (py_strip (hl_raw_link b))), (''is_internal'', JBool True)]) d2)))))))"

section \<open>Requests\<close>

datatype console_request =
    PatchAccount int account_patch
  | AssignPlan int string string
  | CreatePlan plan_create
  | PatchPlan int plan_patch
  | DeletePlan int
  | ResolveInvoice int resolution string "int option"
  | RevokeAccountKey int
  | MintAccountKey int string string
  | RotateAccountKey int string
  | DisableAccountStore string
  | EnableAccountStore string
  | SetStoreInternal string bool "string option"
  | SetHqLink string hq_link

definition dropping :: "('a \<times> db) result \<Rightarrow> db result" where
  "dropping m = rbind m (\<lambda>r. Inr (snd r))"

fun handle_console ::
  "settings \<Rightarrow> (string \<Rightarrow> string) \<Rightarrow> instant \<Rightarrow> account \<Rightarrow> console_request \<Rightarrow> db \<Rightarrow> db result"
where
  "handle_console s h now ctx (PatchAccount i p) d = dropping (update_account now ctx i p d)"
| "handle_console s h now ctx (AssignPlan i wanted reason) d = dropping (assign_account_plan now ctx i wanted reason d)"
| "handle_console s h now ctx (CreatePlan b) d = dropping (create_plan ctx b d)"
| "handle_console s h now ctx (PatchPlan i p) d = dropping (update_plan ctx i p d)"
| "handle_console s h now ctx (DeletePlan i) d = dropping (delete_plan ctx i d)"
| "handle_console s h now ctx (ResolveInvoice i action reason amount) d = resolve_invoice s now ctx i action reason amount d"
| "handle_console s h now ctx (RevokeAccountKey i) d = dropping (revoke_account_key now ctx i d)"
| "handle_console s h now ctx (MintAccountKey i name token) d = dropping (mint_account_key h now token ctx i name d)"
| "handle_console s h now ctx (RotateAccountKey i token) d = dropping (rotate_account_key h now token ctx i d)"
| "handle_console s h now ctx (DisableAccountStore pid) d = dropping (disable_account_store ctx pid d)"
| "handle_console s h now ctx (EnableAccountStore pid) d = dropping (enable_account_store ctx pid d)"
| "handle_console s h now ctx (SetStoreInternal pid flag reason) d = dropping (set_account_store_internal ctx pid flag reason d)"
| "handle_console s h now ctx (SetHqLink fresh b) d = dropping (set_hq_store_link s ctx fresh now b d)"

record console_env =
  ce_mac :: mac_fun
  ce_auth :: auth_settings
  ce_dev_gateway :: bool
  ce_settings :: settings
  ce_hash_key :: "string \<Rightarrow> string"

definition console_call :: "console_env \<Rightarrow> instant \<times> request \<times> console_request \<Rightarrow> db \<Rightarrow> db result" where
  "console_call E = (\<lambda>(now, r, rq) d.
     rbind (get_hybrid_admin_context (ce_mac E) (ce_auth E) (ce_dev_gateway E) now r d) (\<lambda>ctx.
     handle_console (ce_settings E) (ce_hash_key E) now ctx rq d))"

definition console_step :: "console_env \<Rightarrow> instant \<times> request \<times> console_request \<Rightarrow> db \<Rightarrow> db" where
  "console_step E x d = (case console_call E x d of Inl _ \<Rightarrow> d | Inr d' \<Rightarrow> d')"

section \<open>Billing under the console\<close>

text \<open>A contract on a request handler: whatever it returns satisfies what held before.  Every sequence of
  requests then keeps it, refused ones included.\<close>

locale kept =
  fixes handle :: "'r \<Rightarrow> 'd \<Rightarrow> 'd result" and ok :: "'d \<Rightarrow> bool"
  assumes handle_ok: "ok d \<Longrightarrow> returns (handle r d) ok"
begin

lemma step_ok: "ok d \<Longrightarrow> ok (case handle r d of Inl _ \<Rightarrow> d | Inr d' \<Rightarrow> d')"
  using returnsD [OF handle_ok] by (cases "handle r d") auto

lemma run_ok: "ok d \<Longrightarrow> ok (fold (\<lambda>r d. case handle r d of Inl _ \<Rightarrow> d | Inr d' \<Rightarrow> d') rs d)"
  by (induction rs arbitrary: d) (simp_all add: step_ok)

end

lemma dropping_returns: "returns m (\<lambda>r. P (snd r)) \<Longrightarrow> returns (dropping m) P"
  unfolding dropping_def by (erule returns_rbind_pre) simp

lemma dropping_Inr [simp]: "dropping (Inr x) = Inr (snd x)"
  by (simp add: dropping_def)

lemma dropping_Inl [simp]: "dropping (Inl e) = Inl e"
  by (simp add: dropping_def)

lemma grant_plan_inv:
  assumes "billing_inv d" "pl \<in> set (plans d)"
  shows "returns (grant_plan now ctx a pl reason d) (\<lambda>r. billing_inv (snd r))"
proof -
  let ?d1 = "case live_subs a d of [] \<Rightarrow> d | c # _ \<Rightarrow> mod_sub (sub_id c) (cancel_sub now) d"
  have inv: "billing_inv ?d1"
    using assms(1) billing_inv_cancel [OF assms(1)] by (auto simp: mod_sub_tmodify split: list.split)
  have free: "unclaimed live_account (Some a) (plan_subscriptions ?d1)"
  proof (cases "live_subs a d")
    case Nil
    then show ?thesis
      by (auto simp: unclaimed_def live_subs_def filter_empty_conv live_account_def)
  next
    case (Cons c cs)
    have "c \<in> set (live_subs a d)"
      by (simp add: Cons)
    then have c: "c \<in> set (plan_subscriptions d)" "live_account c = Some a"
      by (auto simp: live_subs_def live_account_def)
    have "sub_id x = sub_id c" if "x \<in> set (plan_subscriptions d)" "live_account x = Some a" for x
      using unique_byD [OF billing_invD(4) [OF assms(1)] that(1) c(1)] that(2) c(2) by simp
    then show ?thesis
      using live.retire_frees [of "plan_subscriptions d" "Some a" "\<lambda>x. sub_id x = sub_id c" now] Cons
      by (simp add: mod_sub_tmodify)
  qed
  have plans: "plans ?d1 = plans d"
    by (simp split: list.split)
  have "billing_inv (add_sub (new_sub a (plan_id pl) SUB_ACTIVE (Some now) now ?d1) ?d1)"
    by (rule billing_inv_add_sub [OF inv]) (use free assms(2) plans in simp_all)
  then show ?thesis
    by (simp add: grant_plan_def Let_def)
qed

lemma assign_plan_inv:
  assumes "billing_inv d"
  shows "returns (assign_account_plan now ctx a wanted reason d) (\<lambda>r. billing_inv (snd r))"
  unfolding assign_account_plan_def
proof (intro returns_rbind)
  fix found
  assume "scalar_one_or_none (filter (\<lambda>p. plan_code p = wanted) (plans d)) = Inr found"
  then show "returns (case found of None \<Rightarrow> Inl (HTTPException 404 ''plan_not_found'')
      | Some pl \<Rightarrow> grant_plan now ctx a pl reason d) (\<lambda>r. billing_inv (snd r))"
    using scalar_one_or_none_mem [of _ "plans d"] grant_plan_inv [OF assms] by (auto split: option.split)
qed

lemma billing_inv_plans:
  assumes "billing_inv d" "distinct_keys plan_id t" "sub_plan_id ` set (plan_subscriptions d) \<subseteq> plan_id ` set t"
  shows "billing_inv (d\<lparr>plans := t\<rparr>)"
  using assms by (auto simp: billing_inv_def)

lemma mod_plan_inv:
  assumes "billing_inv d" "\<And>p. plan_id (f p) = plan_id p"
  shows "billing_inv (mod_plan k f d)"
proof -
  have keys: "map plan_id (tupd plan_id k f (plans d)) = map plan_id (plans d)"
    by (rule map_key_tupd) (rule assms(2))
  then have "plan_id ` set (tupd plan_id k f (plans d)) = plan_id ` set (plans d)"
    by (metis list.set_map)
  then show ?thesis
    unfolding mod_plan_def using billing_invD(1,6) [OF assms(1)] keys
    by (intro billing_inv_plans assms(1)) (auto simp: distinct_keys_def)
qed

lemma create_plan_inv:
  assumes "billing_inv d"
  shows "returns (create_plan ctx b d) (\<lambda>r. billing_inv (snd r))"
proof -
  have "billing_inv (d\<lparr>plans := tadd (new_plan b fs d) (plans d)\<rparr>)" for fs
    using billing_invD(1,6) [OF assms]
    by (intro billing_inv_plans assms distinct_keys_tadd_fresh) (auto simp: new_plan_def tadd_def)
  then show ?thesis
    by (auto simp: create_plan_def Let_def split: sum.split intro!: returns_rbind)
qed

lemma delete_plan_inv:
  assumes "billing_inv d"
  shows "returns (delete_plan ctx i d) (\<lambda>r. billing_inv (snd r))"
proof -
  have "billing_inv (d\<lparr>plans := filter (\<lambda>p. plan_id p \<noteq> k) (plans d)\<rparr>)" if "plan_subscription_count k d = 0" for k
  proof (rule billing_inv_plans [OF assms])
    show "distinct_keys plan_id (filter (\<lambda>p. plan_id p \<noteq> k) (plans d))"
      using billing_invD(1) [OF assms] by (simp add: distinct_keys_def distinct_map_filter)
    have "sub_plan_id sub \<noteq> k" if "sub \<in> set (plan_subscriptions d)" for sub
      using \<open>plan_subscription_count k d = 0\<close> that by (auto simp: plan_subscription_count_def filter_empty_conv)
    then show "sub_plan_id ` set (plan_subscriptions d) \<subseteq> plan_id ` set (filter (\<lambda>p. plan_id p \<noteq> k) (plans d))"
      using billing_invD(6) [OF assms] by fastforce
  qed
  moreover have "billing_inv (mod_plan k retired_plan d)" for k
    by (rule mod_plan_inv [OF assms]) (simp add: retired_plan_def)
  ultimately show ?thesis
    by (auto simp: delete_plan_def Let_def split: option.split)
qed

lemma update_plan_inv:
  assumes "billing_inv d"
  shows "returns (update_plan ctx i p d) (\<lambda>r. billing_inv (snd r))"
proof -
  have "billing_inv (mod_plan k (patched_plan q) d)" for k q
    by (rule mod_plan_inv [OF assms]) (simp add: patched_plan_def)
  then show ?thesis
    using assms by (auto simp: update_plan_def split: sum.split option.split intro!: returns_rbind returns_if)
qed

lemma forgive_inv:
  assumes "billing_inv d" "i \<in> set (plan_invoices d)" "inv_status i \<noteq> INVOICE_VOID" "st \<noteq> INVOICE_VOID"
  shows "billing_inv (forgive st now i d)"
proof -
  have same: "x = i" if "x \<in> set (plan_invoices d)" "inv_id x = inv_id i" for x
    using rows.rows_eq [OF billing_invD(3) [OF assms(1)] that(1) assms(2) that(2)] .
  have "billing_inv (mod_invoice (inv_id i) (forgive_invoice st now) d)"
    by (rule mod_invoice_inv [OF assms(1)])
      (auto simp: forgive_invoice_def invoice_window_def assms(3,4)
        intro!: unique_by_tupd billing_invD(5) [OF assms(1)] dest: same)
  then show ?thesis
    by (auto simp: forgive_def Let_def intro: extend_coverage_inv activate_subscription_inv split: option.split)
qed

lemma resolve_invoice_inv:
  assumes "billing_inv d"
  shows "returns (resolve_invoice s now ctx i action reason amount d) billing_inv"
proof -
  have each: "returns (apply_resolution s now action j d) billing_inv"
    if "j \<in> set (plan_invoices d)" "inv_status j \<notin> RESOLVED_INVOICE_STATUS" for j
  proof (cases action)
    case MarkPaid
    then show ?thesis
      using settle_invoice_inv [OF assms that(1)]
      by (auto simp: apply_resolution_def intro!: returns_rbind_pre [where Q = "\<lambda>r. billing_inv (snd r)"])
  next
    case Void
    have "billing_inv (mod_invoice k (void_invoice VOID_OPERATOR now) d)" for k
      unfolding mod_invoice_def tupd_tmodify by (rule billing_inv_void [OF assms])
    then show ?thesis
      by (simp add: apply_resolution_def Void)
  qed (use that forgive_inv [OF assms that(1)] in \<open>auto simp: apply_resolution_def RESOLVED_INVOICE_STATUS_def\<close>)
  show ?thesis
    unfolding resolve_invoice_def
    using tget_Some [OF billing_invD(3) [OF assms]]
    by (auto split: option.split intro!: returns_rbind returns_if dest: each [THEN returnsD, rotated 2])
qed

text \<open>Keys and stores are no part of it.\<close>

lemma billing_inv_others [simp]:
  "billing_inv (mod_key k f d) = billing_inv d"
  "billing_inv (d\<lparr>api_keys := t\<rparr>) = billing_inv d"
  "billing_inv (set_store st d) = billing_inv d"
  "billing_inv (d\<lparr>stores := t'\<rparr>) = billing_inv d"
  "billing_inv (d\<lparr>payment_links := t''\<rparr>) = billing_inv d"
  by (rule billing_inv_frame; simp add: mod_key_def set_store_def)+

lemma key_requests_inv:
  assumes "billing_inv d"
  shows "returns (revoke_account_key now ctx i d) (\<lambda>r. billing_inv (snd r))"
    "returns (mint_account_key h now token ctx a name d) (\<lambda>r. billing_inv (snd r))"
    "returns (rotate_account_key h now token ctx i d) (\<lambda>r. billing_inv (snd r))"
  using assms
  by (auto simp: revoke_account_key_def mint_account_key_def rotate_account_key_def mint_key_def
      rotate_key_instance_def add_key_def Let_def guard_def split: option.split intro!: returns_rbind returns_if)

lemma attach_link_inv:
  "billing_inv d \<Longrightarrow> returns (attach_link_to_store i p v d) billing_inv"
  by (auto simp: attach_link_to_store_def Let_def split: option.split intro!: returns_rbind)

lemma hq_store_for_write_inv:
  "billing_inv d \<Longrightarrow> returns (hq_store_for_write s ctx fresh now d) (\<lambda>r. billing_inv (snd r))"
  by (auto simp: hq_store_for_write_def Let_def guard_def split: option.split prod.split intro!: returns_rbind)

lemma store_requests_inv:
  assumes "billing_inv d"
  shows "returns (disable_account_store ctx pid d) (\<lambda>r. billing_inv (snd r))"
    "returns (enable_account_store ctx pid d) (\<lambda>r. billing_inv (snd r))"
    "returns (set_account_store_internal ctx pid flag reason d) (\<lambda>r. billing_inv (snd r))"
    "returns (set_hq_store_link s ctx fresh now b d) (\<lambda>r. billing_inv (snd r))"
proof -
  show "returns (disable_account_store ctx pid d) (\<lambda>r. billing_inv (snd r))"
    "returns (enable_account_store ctx pid d) (\<lambda>r. billing_inv (snd r))"
    "returns (set_account_store_internal ctx pid flag reason d) (\<lambda>r. billing_inv (snd r))"
    using assms by (auto simp: disable_account_store_def enable_account_store_def set_account_store_internal_def
        Let_def intro!: returns_rbind returns_if)
  have "returns (case r of (st, d1) \<Rightarrow> rbind (guard b' e) (\<lambda>_. rbind (attach_link_to_store (i st) p v (set_store (g st) d1))
      (\<lambda>d2. Inr (g st, audit_record (Some ctx) x y (i st) z d2)))) (\<lambda>r. billing_inv (snd r))"
    if "billing_inv (snd r)" for r b' e i p v g x y z
    using that by (cases r) (auto intro!: returns_rbind dest!: attach_link_inv [THEN returnsD, rotated])
  then show "returns (set_hq_store_link s ctx fresh now b d) (\<lambda>r. billing_inv (snd r))"
    unfolding set_hq_store_link_def Let_def
    by (intro returns_rbind returns_rbind_pre [OF hq_store_for_write_inv [OF assms]])
qed

lemma update_account_inv:
  "billing_inv d \<Longrightarrow> returns (update_account now ctx i p d) (\<lambda>r. billing_inv (snd r))"
  by (auto simp: update_account_def split: option.split intro!: returns_rbind returns_if)

lemma handle_console_inv:
  assumes "billing_inv d"
  shows "returns (handle_console s h now ctx rq d) billing_inv"
  by (cases rq)
    (auto intro!: dropping_returns update_account_inv assign_plan_inv create_plan_inv update_plan_inv delete_plan_inv
      resolve_invoice_inv key_requests_inv store_requests_inv assms)

interpretation console: kept "console_call E" billing_inv for E
  by unfold_locales (auto simp: console_call_def intro!: returns_rbind handle_console_inv)

section \<open>Somebody can sign in\<close>

definition operator_can_sign_in :: "db \<Rightarrow> bool" where
  "operator_can_sign_in d \<longleftrightarrow> (\<exists>a \<in> set (accounts d). acc_is_platform_admin a \<and> acc_status a \<noteq> ACCOUNT_SUSPENDED)"

definition operators_ok :: "db \<Rightarrow> bool" where
  "operators_ok d \<longleftrightarrow> distinct_keys acc_id (accounts d) \<and> operator_can_sign_in d"

lemma operators_ok_cong: "accounts d' = accounts d \<Longrightarrow> operators_ok d' = operators_ok d"
  by (simp add: operators_ok_def operator_can_sign_in_def)

lemma operators_ok_mod:
  assumes "operators_ok d" "\<And>a. acc_id (f a) = acc_id a" "\<And>a. acc_is_platform_admin (f a) = acc_is_platform_admin a"
    and "\<And>a. acc_status a \<noteq> ACCOUNT_SUSPENDED \<Longrightarrow> acc_status (f a) \<noteq> ACCOUNT_SUSPENDED"
  shows "operators_ok (mod_account k f d)"
proof -
  obtain a where a: "a \<in> set (accounts d)" "acc_is_platform_admin a" "acc_status a \<noteq> ACCOUNT_SUSPENDED"
    using assms(1) by (auto simp: operators_ok_def operator_can_sign_in_def)
  let ?a = "if acc_id a = k then f a else a"
  have "?a \<in> set (accounts (mod_account k f d))" "acc_is_platform_admin ?a" "acc_status ?a \<noteq> ACCOUNT_SUSPENDED"
    using a assms(3,4) by (auto simp: mod_account_def tupd_def)
  moreover have "map acc_id (accounts (mod_account k f d)) = map acc_id (accounts d)"
    unfolding mod_account_def by simp (rule map_key_tupd, rule assms(2))
  ultimately show ?thesis
    using assms(1) unfolding operators_ok_def operator_can_sign_in_def distinct_keys_def by metis
qed

text \<open>When two operators are active, one of them is left whoever is suspended.\<close>

lemma second_admin:
  assumes "distinct_keys acc_id (accounts d)" "1 < active_admin_count d"
  shows "\<exists>b \<in> set (accounts d). acc_is_platform_admin b \<and> acc_status b = ACCOUNT_ACTIVE \<and> acc_id b \<noteq> k"
proof (rule ccontr)
  let ?admins = "filter (\<lambda>a. acc_is_platform_admin a \<and> acc_status a = ACCOUNT_ACTIVE) (accounts d)"
  assume none: "\<not> ?thesis"
  have "distinct (map acc_id ?admins)"
    using assms(1) by (simp add: distinct_keys_def distinct_map_filter)
  moreover have "set (map acc_id ?admins) \<subseteq> {k}"
    using none by auto
  ultimately have "length (map acc_id ?admins) \<le> card {k}"
    by (metis card_mono distinct_card finite.emptyI finite.insertI)
  then show False
    using assms(2) by (simp add: active_admin_count_def)
qed

lemma update_account_operators:
  assumes "operators_ok d"
  shows "returns (update_account now ctx i p d) (\<lambda>r. operators_ok (snd r))"
proof -
  have keys: "distinct_keys acc_id (accounts d)"
    using assms by (simp add: operators_ok_def)
  have patched: "operators_ok (mod_account (acc_id a) (patched_account now p) d)"
    if a: "a \<in> set (accounts d)" and
      guard: "\<not> (new_standing p a = Some ACCOUNT_SUSPENDED \<and> acc_is_platform_admin a \<and> active_admin_count d \<le> 1)" for a
  proof -
    let ?d = "mod_account (acc_id a) (patched_account now p) d"
    have "\<exists>b \<in> set (accounts d). acc_is_platform_admin b \<and> acc_status b \<noteq> ACCOUNT_SUSPENDED \<and>
        (acc_id b \<noteq> acc_id a \<or> new_standing p a \<noteq> Some ACCOUNT_SUSPENDED)"
    proof (cases "new_standing p a = Some ACCOUNT_SUSPENDED \<and> acc_is_platform_admin a")
      case True
      then show ?thesis
        using second_admin [OF keys, of "acc_id a"] guard by fastforce
    next
      case False
      obtain b where b: "b \<in> set (accounts d)" "acc_is_platform_admin b" "acc_status b \<noteq> ACCOUNT_SUSPENDED"
        using assms by (auto simp: operators_ok_def operator_can_sign_in_def)
      then have "acc_id b \<noteq> acc_id a \<or> new_standing p a \<noteq> Some ACCOUNT_SUSPENDED"
        using False rows.rows_eq [OF keys b(1) a] by auto
      then show ?thesis
        using b by blast
    qed
    then obtain b where b: "b \<in> set (accounts d)" "acc_is_platform_admin b" "acc_status b \<noteq> ACCOUNT_SUSPENDED"
      and free: "acc_id b \<noteq> acc_id a \<or> new_standing p a \<noteq> Some ACCOUNT_SUSPENDED"
      by blast
    let ?b = "if acc_id b = acc_id a then patched_account now p b else b"
    have "?b \<in> set (accounts ?d)"
      using b(1) by (auto simp: mod_account_def tupd_def)
    moreover have "acc_is_platform_admin ?b"
      using b(2) by (simp add: patched_account_def)
    moreover have "acc_status ?b \<noteq> ACCOUNT_SUSPENDED"
      using b(3) free rows.rows_eq [OF keys b(1) a] by (auto simp: patched_account_def split: option.split)
    moreover have "map acc_id (accounts ?d) = map acc_id (accounts d)"
      unfolding mod_account_def by simp (rule map_key_tupd, simp add: patched_account_def)
    ultimately show ?thesis
      using keys unfolding operators_ok_def operator_can_sign_in_def distinct_keys_def by metis
  qed
  have audit: "operators_ok (audit_record x y z w v d') = operators_ok d'" for x y z w v d'
    by (rule operators_ok_cong) simp
  show ?thesis
    unfolding update_account_def using tget_Some [OF keys] patched assms
    by (auto simp: audit split: option.split intro!: returns_rbind)
qed

definition accounts_lifted :: "instant \<Rightarrow> db \<Rightarrow> db \<Rightarrow> bool" where
  "accounts_lifted now d d' \<longleftrightarrow>
     accounts d' = accounts d \<or> (\<exists>k. accounts d' = tupd acc_id k (lift_hold now) (accounts d))"

lemma accounts_lifted_refl: "accounts d' = accounts d \<Longrightarrow> accounts_lifted now d d'"
  by (simp add: accounts_lifted_def)

lemma accounts_lifted_hold: "accounts d' = accounts d \<Longrightarrow> accounts_lifted now d (lift_billing_hold k now d')"
  by (auto simp: accounts_lifted_def lift_billing_hold_def mod_account_def)

lemma accounts_lifted_cong: "accounts_lifted now d d1 \<Longrightarrow> accounts d2 = accounts d1 \<Longrightarrow> accounts_lifted now d d2"
  by (simp add: accounts_lifted_def)

lemma accounts_lifted_audit [simp]: "accounts_lifted now d (audit_record x y z w v d') = accounts_lifted now d d'"
  by (simp add: accounts_lifted_def)

lemma lifted_operators: "operators_ok d \<Longrightarrow> accounts_lifted now d d' \<Longrightarrow> operators_ok d'"
  using operators_ok_mod [of d "lift_hold now"] operators_ok_cong [of d' d]
  by (auto simp: accounts_lifted_def lift_hold_def mod_account_def
      operators_ok_cong [of d' "d\<lparr>accounts := tupd acc_id k (lift_hold now) (accounts d)\<rparr>" for k])

lemma accounts_frame [simp]:
  "accounts (extend_coverage i now d) = accounts d"
  "accounts (activate_subscription sid now d) = accounts d"
  "accounts (reinstate i sub pid paid_at now source d) = accounts d"
  "accounts (add_sub sub d) = accounts d" "accounts (mod_plan k f d) = accounts d"
  "accounts (mod_key k g d) = accounts d" "accounts (set_store st d) = accounts d"
  by (simp_all add: extend_coverage_def activate_subscription_def reinstate_def Let_def add_sub_def add_invoice_def
      retire_live_subscriptions_def mod_plan_def mod_key_def set_store_def split: option.split)

lemma settle_invoice_accounts:
  "returns (settle_invoice s i pid paid_at now source d) (\<lambda>r. accounts_lifted now d (snd r))"
proof -
  have cap: "accounts_lifted now d (snd (apply_store_cap a m now (lift_billing_hold k now d')))"
    if "accounts d' = accounts d" for a m k d'
    by (rule accounts_lifted_cong [OF accounts_lifted_hold [OF that, of now k]]) simp
  show ?thesis
    unfolding settle_invoice_def Let_def
    by (auto split: option.split simp: guard_def intro!: returns_rbind returns_if accounts_lifted_refl
        accounts_lifted_hold cap)
qed

lemma resolve_invoice_accounts:
  "returns (resolve_invoice s now ctx i action reason amount d) (accounts_lifted now d)"
proof -
  have each: "returns (apply_resolution s now action j d) (accounts_lifted now d)" for j
    using settle_invoice_accounts [of s j None now now "''admin''" d]
    by (cases action)
      (auto simp: apply_resolution_def forgive_def Let_def split: option.split
        intro!: accounts_lifted_hold returns_rbind_pre [where Q = "\<lambda>r. accounts_lifted now d (snd r)"])
  show ?thesis
    unfolding resolve_invoice_def
    by (auto split: option.split intro!: returns_rbind returns_if dest: each [THEN returnsD])
qed

lemma attach_link_accounts: "attach_link_to_store i p v d = Inr d' \<Longrightarrow> accounts d' = accounts d"
  by (auto simp: attach_link_to_store_def Let_def split: option.splits)

lemma hq_store_for_write_accounts: "hq_store_for_write s ctx fresh now d = Inr (st, d') \<Longrightarrow> accounts d' = accounts d"
  by (auto simp: hq_store_for_write_def Let_def split: option.splits)

lemma other_requests_accounts:
  "returns (dropping (assign_account_plan now ctx i wanted reason d)) (\<lambda>d'. accounts d' = accounts d)"
  "returns (dropping (create_plan ctx b d)) (\<lambda>d'. accounts d' = accounts d)"
  "returns (dropping (update_plan ctx i pp d)) (\<lambda>d'. accounts d' = accounts d)"
  "returns (dropping (delete_plan ctx i d)) (\<lambda>d'. accounts d' = accounts d)"
  "returns (dropping (revoke_account_key now ctx i d)) (\<lambda>d'. accounts d' = accounts d)"
  "returns (dropping (mint_account_key h now token ctx i name d)) (\<lambda>d'. accounts d' = accounts d)"
  "returns (dropping (rotate_account_key h now token ctx i d)) (\<lambda>d'. accounts d' = accounts d)"
  "returns (dropping (disable_account_store ctx pid d)) (\<lambda>d'. accounts d' = accounts d)"
  "returns (dropping (enable_account_store ctx pid d)) (\<lambda>d'. accounts d' = accounts d)"
  "returns (dropping (set_account_store_internal ctx pid flag r d)) (\<lambda>d'. accounts d' = accounts d)"
  "returns (dropping (set_hq_store_link s ctx fresh now hb d)) (\<lambda>d'. accounts d' = accounts d)"
  by (auto simp: assign_account_plan_def grant_plan_def create_plan_def update_plan_def delete_plan_def
      revoke_account_key_def mint_account_key_def rotate_account_key_def mint_key_def rotate_key_instance_def add_key_def
      disable_account_store_def enable_account_store_def set_account_store_internal_def set_hq_store_link_def
      Let_def guard_def split: option.split sum.split list.split if_split
      dest!: attach_link_accounts hq_store_for_write_accounts
      intro!: dropping_returns returns_rbind returns_if)

lemma handle_console_operators:
  assumes "operators_ok d"
  shows "returns (handle_console s h now ctx rq d) operators_ok"
proof -
  have frame: "returns m operators_ok" if "returns m (\<lambda>d'. accounts d' = accounts d)" for m
    unfolding returns_def using returnsD [OF that] operators_ok_cong assms by blast
  have "returns (resolve_invoice s now ctx i action reason amount d) operators_ok" for i action reason amount
    unfolding returns_def using returnsD [OF resolve_invoice_accounts] lifted_operators [OF assms] by blast
  then show ?thesis
    by (cases rq) (simp_all add: dropping_returns [OF update_account_operators [OF assms]]
        other_requests_accounts [THEN frame])
qed

interpretation operators: kept "console_call E" operators_ok for E
  by unfold_locales (auto simp: console_call_def intro!: returns_rbind handle_console_operators)

section \<open>Closing an invoice\<close>

lemma lifted_not_restricted:
  assumes "a \<in> set (accounts (lift_billing_hold k now d))" "acc_id a = k"
  shows "acc_status a \<noteq> ACCOUNT_RESTRICTED"
proof -
  obtain b where b: "a = (if acc_id b = k then lift_hold now b else b)"
    using assms(1) by (auto simp: lift_billing_hold_def mod_account_def tupd_def simp del: set_map if_image_distrib
        dest!: in_set_conv_nth [THEN iffD1])
  show ?thesis
    using assms(2) unfolding b by (cases "acc_id b = k") (simp_all add: lift_hold_def)
qed

definition hold_lifted :: "int \<Rightarrow> db \<Rightarrow> bool" where
  "hold_lifted k d \<longleftrightarrow> (\<forall>a \<in> set (accounts d). acc_id a = k \<longrightarrow> acc_status a \<noteq> ACCOUNT_RESTRICTED)"

lemma hold_lifted_simps [simp]:
  "hold_lifted k (lift_billing_hold k now d)"
  "hold_lifted k (audit_record a b c i e d) = hold_lifted k d"
  "hold_lifted k (snd (apply_store_cap acct m now d)) = hold_lifted k d"
  using lifted_not_restricted [of _ k now d] by (simp_all add: hold_lifted_def)

lemma invoices_frame [simp]:
  "plan_invoices (extend_coverage i now d) = plan_invoices d"
  "plan_invoices (activate_subscription sid now d) = plan_invoices d"
  by (simp_all add: extend_coverage_def activate_subscription_def mod_sub_def split: option.split)

text \<open>What becomes of the row, by the action.\<close>

definition closed_as :: "settings \<Rightarrow> instant \<Rightarrow> resolution \<Rightarrow> plan_invoice \<Rightarrow> plan_invoice" where
  "closed_as s now action i =
     (case action of
        MarkPaid \<Rightarrow> if lapsed s i now then retire_claim None now i else mark_invoice_paid now now i
      | Void \<Rightarrow> void_invoice VOID_OPERATOR now i
      | Waive \<Rightarrow> forgive_invoice INVOICE_WAIVED now i
      | Credit \<Rightarrow> forgive_invoice INVOICE_CREDITED now i)"

lemma tget_mod_invoice:
  assumes "billing_inv d" "i \<in> set (plan_invoices d)" "\<And>x. inv_id (f x) = inv_id x"
  shows "tget inv_id (inv_id i) (tupd inv_id (inv_id i) f (plan_invoices d)) = Some (f i)"
  using tget_tupd [OF billing_invD(3) [OF assms(1)] assms(3), of "inv_id i" i "inv_id i"]
    rows.get_unique [OF billing_invD(3) [OF assms(1)] assms(2)] by simp

lemma closed_row_void:
  assumes "billing_inv d" "i \<in> set (plan_invoices d)" "action \<noteq> MarkPaid"
  shows "\<exists>d'. apply_resolution s now action i d = Inr d' \<and> hold_lifted (inv_account_id i) d' \<and>
    tget inv_id (inv_id i) (plan_invoices d') = Some (closed_as s now action i) \<and>
    (action = Void \<longrightarrow> plan_subscriptions d' = plan_subscriptions d)"
proof -
  have "tget inv_id (inv_id i) (tupd inv_id (inv_id i) (forgive_invoice st now) (plan_invoices d)) = Some (forgive_invoice st now i)"
    "tget inv_id (inv_id i) (tupd inv_id (inv_id i) (void_invoice VOID_OPERATOR now) (plan_invoices d)) =
      Some (void_invoice VOID_OPERATOR now i)" for st
    by (rule tget_mod_invoice [OF assms(1,2)]; simp add: forgive_invoice_def void_invoice_def)+
  then show ?thesis
    using assms(3) by (cases action)
      (simp_all add: apply_resolution_def forgive_def Let_def closed_as_def mod_invoice_def split: option.split)
qed

lemma settle_lifts_hold:
  assumes "inv_status i \<noteq> INVOICE_PAID" "inv_subscription_id i = Some sid" "tget sub_id sid (plan_subscriptions d) = Some sub"
    and "tget acc_id (inv_account_id i) (accounts d) = Some a"
  shows "returns (settle_invoice s i pid paid_at now source d) (\<lambda>r. hold_lifted (inv_account_id i) (snd r))"
proof -
  have "acc_id a = inv_account_id i"
    using assms(4) by (auto simp: tget_def find_Some_iff)
  then show ?thesis
    using assms by (auto simp: settle_invoice_def Let_def split: option.split intro!: returns_rbind)
qed

lemma closed_row_paid:
  assumes "billing_inv d" "i \<in> set (plan_invoices d)" "unpaid (inv_status i)" "inv_subscription_id i \<noteq> None"
    and "tget acc_id (inv_account_id i) (accounts d) \<noteq> None"
  shows "\<exists>d'. apply_resolution s now MarkPaid i d = Inr d' \<and> hold_lifted (inv_account_id i) d' \<and>
    tget inv_id (inv_id i) (plan_invoices d') = Some (closed_as s now MarkPaid i)"
proof -
  have open_i: "inv_status i \<noteq> INVOICE_PAID"
    using assms(3) by auto
  obtain sid where sid: "inv_subscription_id i = Some sid"
    using assms(4) by blast
  then obtain sub where sub: "tget sub_id sid (plan_subscriptions d) = Some sub"
    using billing_invD(7) [OF assms(1,2)] tget_Some [OF billing_invD(2) [OF assms(1)]] by auto
  obtain a where a: "tget acc_id (inv_account_id i) (accounts d) = Some a"
    using assms(5) by blast
  note hold = settle_lifts_hold [OF open_i sid sub a, of s None now now "''admin''"]
  have "\<exists>d'. settle_invoice s i None now now ''admin'' d = Inr (True, d') \<and>
      tget inv_id (inv_id i) (plan_invoices d') = Some (closed_as s now MarkPaid i)"
  proof (cases "lapsed s i now")
    case True
    obtain d' where d': "settle_invoice s i None now now ''admin'' d = Inr (True, d')"
      "plan_invoices d' = plan_invoices (reinstate i sub None now now ''admin'' d)"
      using settle_lapsed [OF open_i sid sub True] by blast
    obtain g where "plan_invoices d' = tupd inv_id (inv_id i) (retire_claim None now) (plan_invoices d @ [g])"
      and g: "inv_id g = fresh_id inv_id (plan_invoices d)"
      using reinstate_tables [of i sub None now now "''admin''" d] d'(2) by force
    moreover have "distinct_keys inv_id (plan_invoices d @ [g])"
      using distinct_keys_tadd_fresh [OF billing_invD(3) [OF assms(1)] g] by (simp add: tadd_def)
    ultimately have "tget inv_id (inv_id i) (plan_invoices d') = Some (retire_claim None now i)"
      using tget_tupd [of inv_id "plan_invoices d @ [g]" "retire_claim None now" "inv_id i" i "inv_id i"]
        rows.get_unique [of inv_id "plan_invoices d @ [g]" i] assms(2) by simp
    then show ?thesis
      using d'(1) True by (simp add: closed_as_def)
  next
    case False
    then show ?thesis
      using settle_invoice_subs [OF open_i sid sub False window_free_own [OF assms(1-3), of now now], where source = "''admin''" and pid = None]
        tget_mod_invoice [OF assms(1,2), of "mark_invoice_paid now now"]
      by (auto simp: closed_as_def mod_invoice_def)
  qed
  then show ?thesis
    using returnsD [OF hold] by (auto simp: apply_resolution_def)
qed

section \<open>Properties\<close>

text \<open>The console is reached only by a platform operator whose session was opened with a password, or
  through the development gateway where it is enabled: a call that returns was made on a session that
  resolves to an operator's row, neither suspended nor, for a write, restricted; an API key is no
  credential here, the answer does not depend on it.\<close>

lemma console_needs_password_operator:
  assumes "console_call E (now, r, rq) d = Inr d'"
  shows "\<exists>a \<in> set (accounts d). get_current_session_account (ce_mac E) (ce_auth E) now r d = Inr a \<and>
    acc_is_platform_admin a \<and> acc_status a \<noteq> ACCOUNT_SUSPENDED \<and>
    (acc_status a = ACCOUNT_RESTRICTED \<longrightarrow> restricted_may_reach r) \<and>
    (session_auth_method (ce_mac E) (ce_auth E) now r = ''password'' \<or>
     session_auth_method (ce_mac E) (ce_auth E) now r = ''dev'' \<and> ce_dev_gateway E)"
proof -
  obtain a where a: "get_current_session_account (ce_mac E) (ce_auth E) now r d = Inr a" "acc_is_platform_admin a"
    "session_auth_method (ce_mac E) (ce_auth E) now r = ''password'' \<or>
     session_auth_method (ce_mac E) (ce_auth E) now r = ''dev'' \<and> ce_dev_gateway E"
    using assms by (auto simp: console_call_def get_hybrid_admin_context_def Let_def)
  have "a \<in> set (accounts d)" "acc_status a \<noteq> ACCOUNT_SUSPENDED"
    "acc_status a = ACCOUNT_RESTRICTED \<longrightarrow> restricted_may_reach r"
    using a(1) by (auto simp: get_current_session_account_def tget_def find_Some_iff split: option.splits if_splits)
  then show ?thesis
    using a by blast
qed

definition operator_account :: account where
  "operator_account = sample_account\<lparr>acc_is_platform_admin := True\<rparr>"

definition console_request_demo :: request where
  "console_request_demo = demo_request\<lparr>req_method := ''PATCH'', req_path := ''/api/v1/admin/accounts/3''\<rparr>"

definition demo_console :: console_env where
  "demo_console = \<lparr>ce_mac = demo_mac, ce_auth = demo_auth_settings, ce_dev_gateway = False,
     ce_settings = default_settings, ce_hash_key = id\<rparr>"

definition console_db :: db where
  "console_db = billed_db\<lparr>accounts := [operator_account]\<rparr>"

lemma demo_operator_session:
  "get_current_session_account demo_mac demo_auth_settings (seconds 2000) console_request_demo console_db = Inr operator_account"
  "session_auth_method demo_mac demo_auth_settings (seconds 2000) console_request_demo = ''password''"
proof -
  have "\<not> seconds 2000 > seconds (epoch_seconds (seconds 1000) + jwt_ttl_seconds demo_auth_settings)"
    by code_simp
  moreover have "tget acc_id (acc_id sample_account) (accounts console_db) = Some operator_account"
    "acc_status operator_account = ACCOUNT_ACTIVE"
    by code_simp+
  ultimately show "get_current_session_account demo_mac demo_auth_settings (seconds 2000) console_request_demo console_db =
      Inr operator_account"
    by (simp add: get_current_session_account_def session_token_def console_request_demo_def demo_request_def
        session_jwt_nonempty verify_session_jwt claimed_session_account)
  have "json_get (session_claims demo_auth_settings (seconds 1000) sample_account ''password'') ''amr'' = Some (JStr ''password'')"
    by (simp add: session_claims_def Let_def)
  then show "session_auth_method demo_mac demo_auth_settings (seconds 2000) console_request_demo = ''password''"
    using \<open>\<not> seconds 2000 > _\<close>
    by (simp add: session_auth_method_def session_token_def console_request_demo_def demo_request_def
        session_jwt_nonempty verify_session_jwt)
qed

lemma demo_console_call:
  "console_call demo_console (seconds 2000, console_request_demo, rq) console_db =
    handle_console default_settings id (seconds 2000) operator_account rq console_db"
  by (simp add: console_call_def get_hybrid_admin_context_def demo_console_def demo_operator_session Let_def
      operator_account_def)

text \<open>C4. Whatever operators do, some operator can still sign in and the books of billing stay consistent:
  after any sequence of console requests, refused ones included, there is a platform operator who is
  not suspended, keys are unique, an account has at most one live subscription, a subscription at most
  one live invoice per period, and no subscription names a plan that was deleted.\<close>

theorem console_keeps_operator_and_books:
  assumes "distinct_keys acc_id (accounts d)" "operator_can_sign_in d" "billing_inv d"
  shows "operator_can_sign_in (fold (console_step E) history d) \<and> billing_inv (fold (console_step E) history d)"
proof -
  have step: "console_step E = (\<lambda>r d. case console_call E r d of Inl _ \<Rightarrow> d | Inr d' \<Rightarrow> d')"
    by (intro ext) (simp add: console_step_def)
  show ?thesis
    unfolding step using operators.run_ok [of d E history] console.run_ok [of d E history] assms
    by (simp add: operators_ok_def)
qed

theorem console_keeps_operator_and_books_witness:
  "operator_can_sign_in (fold (console_step demo_console)
     [(seconds 2000, console_request_demo, PatchAccount 3 \<lparr>ap_whitelabel_enabled = None, ap_status = Some ACCOUNT_SUSPENDED, ap_reason = None\<rparr>),
      (seconds 2000, console_request_demo, DeletePlan 1), (seconds 2000, console_request_demo, ResolveInvoice 31 Void ''mistake'' None)]
     console_db)"
proof -
  have "distinct_keys acc_id (accounts console_db)" "operator_can_sign_in console_db" "billing_inv console_db"
    by code_simp+
  then show ?thesis
    using console_keeps_operator_and_books by blast
qed

text \<open>C28. Closing an open invoice by hand always succeeds, leaves the row closed for good and lifts the
  billing hold of its account.  Only a settlement writes a payment date, and only within grace, after
  which the claim is retired in favour of a fresh period; a waiver and a credit leave the date empty;
  a withdrawal leaves every subscription as it was.\<close>

theorem resolving_invoice_closes_and_unfreezes:
  assumes "billing_inv d" "i \<in> set (plan_invoices d)" "unpaid (inv_status i)" "inv_subscription_id i \<noteq> None"
    and "tget acc_id (inv_account_id i) (accounts d) \<noteq> None"
    and "3 \<le> length reason" "length reason \<le> 500" "opt_all (\<lambda>c. c \<ge> 0) amount"
  shows "\<exists>d'. resolve_invoice s now ctx (inv_id i) action reason amount d = Inr d' \<and>
    hold_lifted (inv_account_id i) d' \<and>
    tget inv_id (inv_id i) (plan_invoices d') = Some (closed_as s now action i) \<and>
    inv_status (closed_as s now action i) \<in> RESOLVED_INVOICE_STATUS \<and>
    (inv_paid_at (closed_as s now action i) =
       (if action = MarkPaid \<and> \<not> lapsed s i now then Some now else inv_paid_at i)) \<and>
    (action = Void \<longrightarrow> plan_subscriptions d' = plan_subscriptions d)"
proof -
  obtain d' where d': "apply_resolution s now action i d = Inr d'" "hold_lifted (inv_account_id i) d'"
    "tget inv_id (inv_id i) (plan_invoices d') = Some (closed_as s now action i)"
    "action = Void \<longrightarrow> plan_subscriptions d' = plan_subscriptions d"
  proof (cases "action = MarkPaid")
    case True
    then show ?thesis
      using that closed_row_paid [OF assms(1-5), of s now] by auto
  next
    case False
    then show ?thesis
      using that closed_row_void [OF assms(1,2) False, of s now] by blast
  qed
  have "inv_status i \<notin> RESOLVED_INVOICE_STATUS"
    using assms(3) by (auto simp: RESOLVED_INVOICE_STATUS_def)
  moreover have "tget inv_id (inv_id i) (plan_invoices d) = Some i"
    using rows.get_unique [OF billing_invD(3) [OF assms(1)] assms(2)] .
  moreover have "inv_status (closed_as s now action i) \<in> RESOLVED_INVOICE_STATUS"
    "inv_paid_at (closed_as s now action i) =
       (if action = MarkPaid \<and> \<not> lapsed s i now then Some now else inv_paid_at i)"
    by (cases action; simp add: closed_as_def RESOLVED_INVOICE_STATUS_def retire_claim_def void_invoice_def
        mark_invoice_paid_def forgive_invoice_def)+
  ultimately show ?thesis
    using d' assms(6-8) by (simp add: resolve_invoice_def)
qed

theorem resolving_invoice_closes_and_unfreezes_witness:
  "\<exists>d'. resolve_invoice default_settings (days 50) operator_account (inv_id demo_invoice) Waive ''goodwill'' None
      (console_db\<lparr>accounts := [operator_account\<lparr>acc_status := ACCOUNT_RESTRICTED\<rparr>]\<rparr>) = Inr d' \<and>
    hold_lifted (inv_account_id demo_invoice) d'"
proof -
  let ?d = "console_db\<lparr>accounts := [operator_account\<lparr>acc_status := ACCOUNT_RESTRICTED\<rparr>]\<rparr>"
  have "billing_inv ?d" "demo_invoice \<in> set (plan_invoices ?d)" "unpaid (inv_status demo_invoice)"
    "inv_subscription_id demo_invoice \<noteq> None" "tget acc_id (inv_account_id demo_invoice) (accounts ?d) \<noteq> None"
    "3 \<le> length ''goodwill''" "length ''goodwill'' \<le> 500" "opt_all (\<lambda>c. c \<ge> 0) (None :: int option)"
    by code_simp+
  from resolving_invoice_closes_and_unfreezes [OF this] show ?thesis
    by blast
qed

text \<open>Suspending the last active operator is refused, restricting it is not: the request succeeds, and
  from then on no write reaches the console, not even the one that would undo it.\<close>

lemma restricted_console_locked:
  assumes "\<And>a. a \<in> set (accounts d) \<Longrightarrow> acc_is_platform_admin a \<Longrightarrow> acc_status a \<noteq> ACCOUNT_ACTIVE"
    and "\<not> restricted_may_reach r"
  shows "\<exists>e. console_call E (now, r, rq) d = Inl e"
proof (rule ccontr)
  assume "\<not> ?thesis"
  then obtain d' where "console_call E (now, r, rq) d = Inr d'"
    by (metis sumE)
  then obtain a where a: "get_current_session_account (ce_mac E) (ce_auth E) now r d = Inr a" "acc_is_platform_admin a"
    by (auto simp: console_call_def get_hybrid_admin_context_def Let_def)
  then have "a \<in> set (accounts d)" "acc_status a = ACCOUNT_ACTIVE"
    using assms(2) by (auto simp: get_current_session_account_def tget_def find_Some_iff split: option.splits if_splits
        intro: account_status.exhaust)
  then show False
    using assms(1) a(2) by blast
qed

lemma restricting_last_operator_locks_console:
  assumes "accounts d = [a]" "acc_is_platform_admin a" "acc_status a = ACCOUNT_ACTIVE"
  shows "\<exists>a' d'. update_account now ctx (acc_id a)
      \<lparr>ap_whitelabel_enabled = None, ap_status = Some ACCOUNT_RESTRICTED, ap_reason = None\<rparr> d = Inr (a', d') \<and>
    (\<forall>E t r rq. \<not> restricted_may_reach r \<longrightarrow> (\<exists>e. console_call E (t, r, rq) d' = Inl e))"
proof -
  let ?p = "\<lparr>ap_whitelabel_enabled = None, ap_status = Some ACCOUNT_RESTRICTED, ap_reason = None\<rparr>"
  obtain a' d' where d': "update_account now ctx (acc_id a) ?p d = Inr (a', d')"
    and acc: "accounts d' = [patched_account now ?p a]"
    using assms by (simp add: update_account_def account_patch_ok_def tget_def new_standing_def account_changes_def
        mod_account_def tupd_def)
  have "acc_status (patched_account now ?p a) = ACCOUNT_RESTRICTED"
    using assms(3) by (simp add: patched_account_def new_standing_def)
  then have "\<exists>e. console_call E (t, r, rq) d' = Inl e" if "\<not> restricted_may_reach r" for E t r rq
    using restricted_console_locked [of d' r E t rq] that acc by simp
  then show ?thesis
    using d' by blast
qed

text \<open>The link check looks for the host name anywhere in the text, so a link to another host passes when
  its path names PayWay; and a merchant account of two characters passes the request body and then
  fails inside the handler.\<close>

lemma foreign_hq_link_accepted:
  "looks_like_payway_link ''https://evil.example/payway.com.kh/x''"
  by code_simp

lemma short_hq_account_crashes:
  "set_hq_store_link default_settings operator_account ''st_hq'' 0
     \<lparr>hl_raw_link = ''https://link.payway.com.kh/ABAPAYx'', hl_merchant_account_id = Some ''ab'', hl_merchant_name = None,
      hl_reason = None\<rparr> console_db = Inl (RuntimeError ''ValidationError'')"
  by code_simp

end
