(* ===== verification/Operators.thy ===== *)
theory Operators
  imports Console Lifecycle
begin

text \<open>
  What an operator does to a payment and its deliveries (\<^verbatim>\<open>src/src/chmabapay/routers/admin.py\<close>): settling and
  refunding by hand, sending the webhook deliveries of a payment, or one delivery, again.

  Lemmas: a settlement or a refund by an operator is the same request a merchant or the rail makes, with
  an audit row beside it; rows of the payments table stay well formed under every request, theirs
  included; a redelivery reopens exactly the deliveries it names.
\<close>

section \<open>Payments\<close>

definition load_admin_payment :: "string \<Rightarrow> db \<Rightarrow> (payment \<times> store \<times> account) result" where
  "load_admin_payment public_id d =
     rbind (scalar_one_or_none
       [(p, st, a). p \<leftarrow> payments d, pay_public_id p = public_id, st \<leftarrow> stores d, st_id st = pay_store_id p,
          a \<leftarrow> accounts d, acc_id a = st_account_id st]) (\<lambda>found.
     case found of None \<Rightarrow> Inl (HTTPException 404 ''payment_not_found'') | Some row \<Rightarrow> Inr row)"

definition reason_ok :: "string \<Rightarrow> bool" where
  "reason_ok reason \<longleftrightarrow> 3 \<le> length reason \<and> length reason \<le> 255"

definition manual_raw :: "instant \<Rightarrow> account \<Rightarrow> string \<Rightarrow> payment \<Rightarrow> json" where
  "manual_raw now ctx reason p =
     JObj (dict_set (case pay_gateway_status_raw p of Some (JObj kvs) \<Rightarrow> kvs | _ \<Rightarrow> []) ''manual_mark_paid''
       (JObj [(''by'', JStr (acc_email ctx)), (''reason'', JStr reason), (''at'', JInt now)]))"

definition operator_details :: "string \<Rightarrow> payment \<Rightarrow> store \<Rightarrow> account \<Rightarrow> (string \<times> json) list" where
  "operator_details reason p st a =
     [(''reason'', JStr reason), (''amount_cents'', JInt (pay_amount_cents p)), (''account_id'', JInt (acc_id a)),
      (''store_id'', JInt (st_id st))]"

definition mark_admin_payment_paid ::
  "settings \<Rightarrow> (int \<Rightarrow> string) \<Rightarrow> instant \<Rightarrow> instant \<Rightarrow> account \<Rightarrow> string \<Rightarrow> string \<Rightarrow> db \<Rightarrow> (payment \<times> db) result"
where
  "mark_admin_payment_paid s eid now approved ctx public_id body_reason d =
     rbind (guard (reason_ok body_reason) validation_error) (\<lambda>_.
     rbind (load_admin_payment public_id d) (\<lambda>(p, st, a).
     rbind (guard (pay_status p \<noteq> PAYMENT_PAID) (HTTPException 409 ''payment_already_paid'')) (\<lambda>_.
     rbind (guard (pay_status p \<notin> {PAYMENT_FAILED, PAYMENT_REVERSED})
       (HTTPException 409 (''payment_is_'' @ status_value (pay_status p)))) (\<lambda>_.
     let reason = py_strip body_reason in
     rbind (mark_paid s (pay_public_id p) (pay_bakong_ref p) (Some (manual_raw now ctx reason p)) eid now approved d) (\<lambda>(settled, d1).
     case settled of
       None \<Rightarrow> Inl (HTTPException 409 ''payment_not_markable'')
     | Some (p', _) \<Rightarrow> Inr (p', audit_record (Some ctx) ''admin.payment_mark_paid'' ''Payment'' (pay_id p)
         (operator_details reason p st a) d1))))))"

definition reverse_admin_payment ::
  "(int \<Rightarrow> string) \<Rightarrow> instant \<Rightarrow> account \<Rightarrow> string \<Rightarrow> string \<Rightarrow> db \<Rightarrow> (payment \<times> db) result"
where
  "reverse_admin_payment eid now ctx public_id reason d =
     rbind (guard (reason_ok reason) validation_error) (\<lambda>_.
     rbind (load_admin_payment public_id d) (\<lambda>(p, st, a).
     reverse_payment p (Some reason) eid now
       (audit_record (Some ctx) ''admin.payment_reversed'' ''Payment'' (pay_id p)
         (operator_details (py_strip reason) p st a) d)))"

section \<open>Deliveries\<close>

definition payment_delivery_rows :: "int \<Rightarrow> db \<Rightarrow> event_delivery list" where
  "payment_delivery_rows payment_id d =
     rev (sort_key dl_id (filter (\<lambda>r. list_ex (\<lambda>e. ev_id e = dl_event_id r \<and> ev_payment_id e = payment_id) (events d))
       (event_deliveries d)))"

definition reset_delivery :: "instant \<Rightarrow> event_delivery \<Rightarrow> event_delivery" where
  "reset_delivery now r =
     r\<lparr>dl_status := DELIVERY_RETRYING, dl_attempts := 0, dl_next_attempt_at := Some now, dl_last_error := None\<rparr>"

definition redeliver_targets :: "int \<Rightarrow> bool \<Rightarrow> db \<Rightarrow> event_delivery list" where
  "redeliver_targets payment_id include_successes d =
     filter (\<lambda>r. include_successes \<or> dl_status r \<noteq> DELIVERY_SUCCESS) (payment_delivery_rows payment_id d)"

definition redeliver_admin_payment_events ::
  "instant \<Rightarrow> account \<Rightarrow> string \<Rightarrow> bool \<Rightarrow> db \<Rightarrow> (int list \<times> db) result"
where
  "redeliver_admin_payment_events now ctx public_id include_successes d =
     rbind (load_admin_payment public_id d) (\<lambda>(p, st, a).
     rbind (guard (payment_delivery_rows (pay_id p) d \<noteq> []) (HTTPException 404 ''no_deliveries_for_payment'')) (\<lambda>_.
     let ids = map dl_id (redeliver_targets (pay_id p) include_successes d) in
     if ids = [] then Inr ([], d)
     else Inr (ids, audit_record (Some ctx) ''admin.payment_redelivered'' ''Payment'' (pay_id p)
       [(''deliveries'', JInt (int (length ids))), (''delivery_ids'', JList (map JInt ids)),
        (''include_successes'', JBool include_successes), (''account_id'', JInt (acc_id a))]
       (d\<lparr>event_deliveries := tmodify (\<lambda>r. dl_id r \<in> set ids) (reset_delivery now) (event_deliveries d)\<rparr>))))"

fun delivery_status_name :: "delivery_status \<Rightarrow> string" where
  "delivery_status_name DELIVERY_PENDING = ''pending''"
| "delivery_status_name DELIVERY_RETRYING = ''retrying''"
| "delivery_status_name DELIVERY_SUCCESS = ''success''"
| "delivery_status_name DELIVERY_FAILED = ''failed''"

definition already_due :: "instant \<Rightarrow> event_delivery \<Rightarrow> bool" where
  "already_due now r \<longleftrightarrow> dl_status r = DELIVERY_RETRYING \<and> dl_attempts r = 0 \<and>
     (case dl_next_attempt_at r of None \<Rightarrow> False | Some t \<Rightarrow> t \<le> now)"

text \<open>The answer says whether the delivery was reset.\<close>

definition retry_delivery :: "instant \<Rightarrow> account \<Rightarrow> int \<Rightarrow> bool \<Rightarrow> db \<Rightarrow> (bool \<times> db) result" where
  "retry_delivery now ctx delivery_id include_successes d =
     (case tget dl_id delivery_id (event_deliveries d) of
        None \<Rightarrow> Inl (HTTPException 404 ''delivery_not_found'')
      | Some r \<Rightarrow>
          if dl_status r = DELIVERY_SUCCESS \<and> \<not> include_successes then Inr (False, d)
          else if already_due now r then Inr (False, d)
          else Inr (True, audit_record (Some ctx) ''admin.delivery_retried'' ''EventDelivery'' (dl_id r)
            [(''event_id'', JStr (dl_event_id r)), (''endpoint_id'', JInt (dl_endpoint_id r)),
             (''from_status'', JStr (delivery_status_name (dl_status r)))]
            (d\<lparr>event_deliveries := tupd dl_id (dl_id r) (reset_delivery now) (event_deliveries d)\<rparr>)))"

section \<open>Well-formed rows\<close>

text \<open>What the columns of a payment promise together: money is dated when it was taken, a refund when it was
  given back, a scan when it was seen, and nothing carries a date it did not earn.\<close>

definition payment_typed :: "payment \<Rightarrow> bool" where
  "payment_typed p \<longleftrightarrow>
     0 < pay_amount_cents p \<and> pay_bill_number p = pay_public_id p \<and>
     (pay_paid_at p \<noteq> None \<longleftrightarrow> pay_status p = PAYMENT_PAID \<or> pay_status p = PAYMENT_REVERSED) \<and>
     (pay_approved_at p \<noteq> None \<longleftrightarrow> pay_paid_at p \<noteq> None) \<and>
     (pay_reversed_at p \<noteq> None \<longleftrightarrow> pay_status p = PAYMENT_REVERSED) \<and>
     (pay_reversal_reason p \<noteq> None \<longrightarrow> pay_status p = PAYMENT_REVERSED) \<and>
     (pay_status p = PAYMENT_SCANNED \<longrightarrow> pay_scanned_at p \<noteq> None)"

definition rows_typed :: "db \<Rightarrow> bool" where
  "rows_typed d \<longleftrightarrow> payment_keys_ok d \<and> list_all payment_typed (payments d)"

lemma typed_map:
  assumes "list_all payment_typed t" "\<And>p. p \<in> set t \<Longrightarrow> payment_typed p \<Longrightarrow> payment_typed (g p)"
  shows "list_all payment_typed (map g t)"
  using assms by (auto simp: list_all_iff)

lemma typed_rows:
  "payment_typed p \<Longrightarrow> settleable (pay_status p) \<Longrightarrow> payment_typed (paid_row ref raw now approved p)"
  "payment_typed p \<Longrightarrow> pay_status p = PAYMENT_PAID \<Longrightarrow> payment_typed (reversed_row reason now p)"
  "payment_typed p \<Longrightarrow> pay_status p = PAYMENT_PENDING \<Longrightarrow>
     payment_typed (p\<lparr>pay_status := PAYMENT_SCANNED, pay_scanned_at := Some now\<rparr>)"
  "payment_typed p \<Longrightarrow> pay_status p \<in> {PAYMENT_PENDING, PAYMENT_SCANNED, PAYMENT_EXPIRED} \<Longrightarrow>
     st \<in> {PAYMENT_EXPIRED, PAYMENT_SUPERSEDED} \<Longrightarrow> payment_typed (Payments.set_status st p)"
  "payment_typed p \<Longrightarrow> payment_typed (add_attempt e p)"
  by (auto simp: payment_typed_def paid_row_def settleable_def reversed_row_def Let_def Payments.set_status_def add_attempt_def)

lemma typed_new: "0 < a \<Longrightarrow> payment_typed (new_payment sid lid a cur ref meta key pid m parent now d)"
  by (simp add: payment_typed_def new_payment_def)

lemma check_amount_positive: "check_amount link a = Inr () \<Longrightarrow> 0 < a"
  by (auto simp: check_amount_def split: if_splits)

lemma create_typed:
  assumes "list_all payment_typed (payments d)" "create_payment s rl st a ref meta key cur h pid now d = Inr ((p, c), d')"
  shows "list_all payment_typed (payments d')"
proof -
  obtain link m where "\<not> c \<longrightarrow> d' = d"
    "c \<longrightarrow> check_amount link a = Inr () \<and> pid \<notin> pay_public_id ` set (payments d) \<and>
        unclaimed idem_key (idem_key p) (payments d) \<and> d' = d\<lparr>payments := payments d @ [p]\<rparr>"
    "c \<longrightarrow> p = new_payment (st_id st) (lk_id link) a (normalize_currency (Some (lk_currency link)))
        ref meta key pid m None now d"
    by (rule create_payment_Inr [OF assms(2)])
  then show ?thesis
    using assms(1) check_amount_positive [of link a] typed_new by (cases c) simp_all
qed

lemma reissue_typed:
  assumes "list_all payment_typed (payments d)" "parent \<in> set (payments d)"
    and "reissue_payment s rl parent pid now d = Inr ((q, c), d')"
  shows "list_all payment_typed (payments d')"
proof (cases c)
  case True
  obtain m e where "q = new_payment (pay_store_id parent) (pay_link_id parent) (pay_amount_cents parent) (pay_currency parent)
        (pay_reference_id parent) (pay_metadata parent) None pid m (Some (pay_id parent)) now d"
    and "payments d' = tupd pay_id (pay_id parent) (add_attempt e) (payments d) @ [q]"
    using reissue_payment_Inr(3) [OF assms(3) True] by auto
  moreover have "0 < pay_amount_cents parent"
    using assms(1,2) by (auto simp: list_all_iff payment_typed_def)
  ultimately show ?thesis
    using assms(1) by (auto simp: tupd_def typed_new typed_rows(5) intro!: typed_map)
next
  case False
  then show ?thesis
    using reissue_payment_Inr(2) [OF assms(3)] assms(1) by simp
qed

lemma scan_typed:
  assumes "list_all payment_typed (payments d)" "distinct_keys pay_id (payments d)" "mark_scanned i eid now d = Inr d'"
  shows "list_all payment_typed (payments d')"
proof (cases "\<exists>p. tget pay_id i (payments d) = Some p \<and> pay_status p = PAYMENT_PENDING")
  case True
  then obtain p where get: "tget pay_id i (payments d) = Some p" "pay_status p = PAYMENT_PENDING"
    by blast
  then have p: "p \<in> set (payments d)" "pay_id p = i" "pay_status p = PAYMENT_PENDING"
    using tget_Some [OF assms(2)] by simp_all
  have rows: "payments d' = tupd pay_id i (\<lambda>p. p\<lparr>pay_status := PAYMENT_SCANNED, pay_scanned_at := Some now\<rparr>) (payments d)"
    using assms(3) get by (auto simp: mark_scanned_def Let_def)
  have "pay_status q = PAYMENT_PENDING" if "q \<in> set (payments d)" "pay_id q = i" for q
    using rows.rows_eq [OF assms(2) that(1) p(1)] that(2) p(2,3) by simp
  then show ?thesis
    unfolding rows tupd_def using assms(1) by (auto intro!: typed_map typed_rows(3))
next
  case False
  then have "d' = d"
    using assms(3) by (auto simp: mark_scanned_def split: option.splits if_splits)
  then show ?thesis
    using assms(1) by simp
qed

lemma settle_typed:
  assumes "list_all payment_typed (payments d)" "distinct_keys pay_id (payments d)"
    and "mark_paid s pid ref raw eid now approved d = Inr (r, d')"
  shows "list_all payment_typed (payments d')"
proof (cases r)
  case None
  then show ?thesis
    using assms mark_paid_None by metis
next
  case (Some pa)
  then obtain p' alert where "mark_paid s pid ref raw eid now approved d = Inr (Some (p', alert), d')"
    using assms(3) by (metis prod.exhaust)
  then obtain p where p: "p \<in> set (payments d)" "settleable (pay_status p)"
    and rows: "payments d' = settled_table (pay_id p) (paid_row ref raw now approved) (payments d)"
    by (rule mark_paid_Some [OF assms(2)])
  have "settleable (pay_status q)" if "q \<in> set (payments d)" "pay_id q = pay_id p" for q
    using rows.rows_eq [OF assms(2) that(1) p(1) that(2)] p(2) by simp
  then show ?thesis
    unfolding rows settled_table_def
    by (intro typed_map [OF assms(1)]) (simp add: retirable_successor_def typed_rows(1,4))
qed

lemma refund_typed:
  assumes "list_all payment_typed (payments d)" "distinct_keys pay_id (payments d)" "p \<in> set (payments d)"
    and "reverse_payment p reason eid now d = Inr (q, d')"
  shows "list_all payment_typed (payments d')"
proof -
  have paid: "pay_status p = PAYMENT_PAID"
    and rows: "payments d' = tupd pay_id (pay_id p) (reversed_row reason now) (payments d)"
    using reverse_payment_Inr [OF assms(4)] by metis+
  have "pay_status x = PAYMENT_PAID" if "x \<in> set (payments d)" "pay_id x = pay_id p" for x
    using rows.rows_eq [OF assms(2) that(1) assms(3) that(2)] paid by simp
  then show ?thesis
    unfolding rows tupd_def using assms(1) by (auto intro!: typed_map typed_rows(2))
qed

lemma expire_typed:
  assumes "list_all payment_typed (payments d)" "distinct_keys pay_id (payments d)"
    and "expire_due_payments eid now d = Inr (ps, d')"
  shows "list_all payment_typed (payments d')"
  unfolding expire_due_rows(1) [OF assms(2,3)] using assms(1) due_payments_sub
  by (force simp: expiry_due_def open_payment_def intro!: typed_map typed_rows(4))

lemma request_typed:
  assumes "rows_typed d"
  shows "returns (handle_payment_request r d) rows_typed"
proof -
  have keys: "payment_keys_ok d" "distinct_keys pay_id (payments d)" and typed: "list_all payment_typed (payments d)"
    using assms keys_okD(1) by (auto simp: rows_typed_def)
  obtain am req where r: "r = (am, req)"
    by force
  have "list_all payment_typed (payments d')" if "handle_payment_request r d = Inr d'" for d'
    using that typed keys(2) tget_Some [OF keys(2)] unfolding r
    by (cases req)
      (auto split: option.splits dest: create_typed [OF typed] reissue_typed [OF typed] scan_typed [OF typed keys(2)]
        settle_typed [OF typed keys(2)] refund_typed [OF typed keys(2)] expire_typed [OF typed keys(2)])
  then show ?thesis
    using shop.handle_ok [OF keys(1)] by (auto simp: returns_def rows_typed_def)
qed

interpretation typed: kept handle_payment_request rows_typed
  by unfold_locales (rule request_typed)

section \<open>Operators and requests\<close>

datatype operator_request =
    OperatorSettles string string
  | OperatorRefunds string string

fun handle_operator :: "ambient \<times> account \<times> operator_request \<Rightarrow> db \<Rightarrow> db result" where
  "handle_operator (am, ctx, OperatorSettles public_id reason) d =
     dropping (mark_admin_payment_paid (am_settings am) (am_eid am) (am_now am) (am_approved am) ctx public_id reason d)"
| "handle_operator (am, ctx, OperatorRefunds public_id reason) d =
     dropping (reverse_admin_payment (am_eid am) (am_now am) ctx public_id reason d)"

lemma load_admin_payment_Inr:
  assumes "load_admin_payment public_id d = Inr (p, st, a)"
  shows "p \<in> set (payments d)" "pay_public_id p = public_id" "st \<in> set (stores d)" "a \<in> set (accounts d)"
    "st_id st = pay_store_id p" "acc_id a = st_account_id st"
proof -
  let ?rows = "[(p, st, a). p \<leftarrow> payments d, pay_public_id p = public_id, st \<leftarrow> stores d, st_id st = pay_store_id p,
          a \<leftarrow> accounts d, acc_id a = st_account_id st]"
  obtain found where found: "scalar_one_or_none ?rows = Inr found"
    "(case found of None \<Rightarrow> Inl (HTTPException 404 ''payment_not_found'') | Some row \<Rightarrow> Inr row) = Inr (p, st, a)"
    using assms unfolding load_admin_payment_def rbind_eq_Inr by blast
  then have "found = Some (p, st, a)"
    by (cases found) simp_all
  then have "?rows = [(p, st, a)]"
    using found(1) unfolding scalar_one_or_none_Inr by (simp only: option.case)
  then have "(p, st, a) \<in> set ?rows"
    by (simp only: list.set_intros)
  then show "p \<in> set (payments d)" "pay_public_id p = public_id" "st \<in> set (stores d)" "a \<in> set (accounts d)"
    "st_id st = pay_store_id p" "acc_id a = st_account_id st"
    by auto
qed

lemma audit_keys_ok [simp]: "payment_keys_ok (audit_record a b c i e d) = payment_keys_ok d"
  by (simp add: payment_keys_ok_def audit_record_def)

lemma audit_typed [simp]: "rows_typed (audit_record a b c i e d) = rows_typed d"
  by (simp add: rows_typed_def)

text \<open>The keys of a stored gateway answer survive the operator's note.\<close>

lemma dict_set_get: "map_of (dict_set kvs k v) k' = (if k' = k then Some v else map_of kvs k')"
  by (induction kvs) auto

lemma manual_raw_keeps:
  "\<exists>kvs. manual_raw now ctx reason p = JObj kvs \<and>
     (\<forall>k. k \<noteq> ''manual_mark_paid'' \<longrightarrow>
        map_of kvs k = (case pay_gateway_status_raw p of Some (JObj old) \<Rightarrow> map_of old k | _ \<Rightarrow> None))"
  by (auto simp: manual_raw_def dict_set_get split: option.split json.split)

lemma mark_paid_settles:
  assumes "scalar_one_or_none (filter (\<lambda>p. pay_public_id p = pid) (payments d)) = Inr (Some p)" "settleable (pay_status p)"
  shows "returns (mark_paid s pid ref raw eid now approved d) (\<lambda>r. fst r \<noteq> None)"
  using assms by (auto simp: returns_def mark_paid_def Let_def)

lemma filter_own_key: "distinct (map key t) \<Longrightarrow> r \<in> set t \<Longrightarrow> filter (\<lambda>x. key x = key r) t = [r]"
  by (induction t) (auto simp: filter_empty_conv image_iff)

lemma operator_settles:
  assumes "load_admin_payment public_id d = Inr (p, st, a)" "reason_ok reason"
    and "filter (\<lambda>q. pay_public_id q = public_id) (payments d) = [p]" "pay_public_id p = public_id"
  shows "dropping (mark_admin_payment_paid s eid now approved ctx public_id reason d) =
      (if settleable (pay_status p)
       then rbind (dropping (mark_paid s public_id (pay_bakong_ref p) (Some (manual_raw now ctx (py_strip reason) p)) eid now approved d)) (\<lambda>d1.
         Inr (audit_record (Some ctx) ''admin.payment_mark_paid'' ''Payment'' (pay_id p)
           (operator_details (py_strip reason) p st a) d1))
       else Inl (HTTPException 409
         (if pay_status p = PAYMENT_PAID then ''payment_already_paid'' else ''payment_is_'' @ status_value (pay_status p))))"
proof (cases "settleable (pay_status p)")
  case True
  then have guards: "pay_status p \<noteq> PAYMENT_PAID" "pay_status p \<notin> {PAYMENT_FAILED, PAYMENT_REVERSED}"
    by (auto simp: settleable_def)
  let ?m = "mark_paid s public_id (pay_bakong_ref p) (Some (manual_raw now ctx (py_strip reason) p)) eid now approved d"
  have some: "returns ?m (\<lambda>r. fst r \<noteq> None)"
    using assms(3) True by (intro mark_paid_settles [where p = p]) simp_all
  show ?thesis
  proof (cases ?m)
    case (Inl e)
    then show ?thesis
      using True guards assms(1,2,4) by (simp add: mark_admin_payment_paid_def dropping_def)
  next
    case (Inr r)
    then obtain p' al d1 where "?m = Inr (Some (p', al), d1)"
      using returnsD [OF some] by (metis option.exhaust prod.exhaust fst_conv)
    then show ?thesis
      using True guards assms(1,2,4) by (simp add: mark_admin_payment_paid_def dropping_def)
  qed
next
  case False
  then show ?thesis
    using assms(1,2) by (auto simp: mark_admin_payment_paid_def settleable_def)
qed

text \<open>C10. An operator's settlement and refund are the requests everybody else makes, with an audit row beside
  them and nothing skipped: settling a payment that is not terminal is the settlement of the rail, under
  the same reference, with the operator's note merged into the gateway's answer, whose other entries are
  kept; refunding is the merchant's refund, its refusals included.\<close>

theorem operator_settles_and_refunds_by_the_same_path:
  assumes "payment_keys_ok d" "load_admin_payment public_id d = Inr (p, st, a)" "reason_ok reason"
  shows "dropping (mark_admin_payment_paid (am_settings am) (am_eid am) (am_now am) (am_approved am) ctx public_id reason d) =
      (if settleable (pay_status p)
       then rbind (handle_payment_request
           (am, Settle public_id (pay_bakong_ref p) (Some (manual_raw (am_now am) ctx (py_strip reason) p))) d) (\<lambda>d1.
         Inr (audit_record (Some ctx) ''admin.payment_mark_paid'' ''Payment'' (pay_id p)
           (operator_details (py_strip reason) p st a) d1))
       else Inl (HTTPException 409
         (if pay_status p = PAYMENT_PAID then ''payment_already_paid'' else ''payment_is_'' @ status_value (pay_status p)))) \<and>
    dropping (reverse_admin_payment (am_eid am) (am_now am) ctx public_id reason d) =
      handle_payment_request (am, Refund (pay_id p) (Some reason))
        (audit_record (Some ctx) ''admin.payment_reversed'' ''Payment'' (pay_id p)
          (operator_details (py_strip reason) p st a) d) \<and>
    (\<exists>kvs. manual_raw now ctx reason p = JObj kvs \<and>
       (\<forall>k. k \<noteq> ''manual_mark_paid'' \<longrightarrow>
          map_of kvs k = (case pay_gateway_status_raw p of Some (JObj old) \<Rightarrow> map_of old k | _ \<Rightarrow> None)))"
proof -
  have p: "p \<in> set (payments d)" "pay_public_id p = public_id"
    using load_admin_payment_Inr [OF assms(2)] by simp_all
  have "filter (\<lambda>q. pay_public_id q = public_id) (payments d) = [p]"
    using filter_own_key [OF keys_okD(2) [OF assms(1)] p(1)] p(2) by simp
  then have settle: "dropping (mark_admin_payment_paid (am_settings am) (am_eid am) (am_now am) (am_approved am) ctx public_id reason d) =
      (if settleable (pay_status p)
       then rbind (handle_payment_request
           (am, Settle public_id (pay_bakong_ref p) (Some (manual_raw (am_now am) ctx (py_strip reason) p))) d) (\<lambda>d1.
         Inr (audit_record (Some ctx) ''admin.payment_mark_paid'' ''Payment'' (pay_id p)
           (operator_details (py_strip reason) p st a) d1))
       else Inl (HTTPException 409
         (if pay_status p = PAYMENT_PAID then ''payment_already_paid'' else ''payment_is_'' @ status_value (pay_status p))))"
    unfolding handle_payment_request.simps dropping_def [symmetric] by (rule operator_settles [OF assms(2,3) _ p(2)])
  have "tget pay_id (pay_id p) (payments d) = Some p"
    using tget_Some [OF keys_okD(1) [OF assms(1)]] p(1) by simp
  then have "dropping (reverse_admin_payment (am_eid am) (am_now am) ctx public_id reason d) =
      handle_payment_request (am, Refund (pay_id p) (Some reason))
        (audit_record (Some ctx) ''admin.payment_reversed'' ''Payment'' (pay_id p)
          (operator_details (py_strip reason) p st a) d)"
    using assms(2,3) by (simp add: reverse_admin_payment_def dropping_def)
  then show ?thesis
    using settle manual_raw_keeps by blast
qed

lemma demo_operator_request:
  "payment_keys_ok till_db"
  "load_admin_payment ''abcdefghijklmnopqrstuvwx'' till_db = Inr (demo_payment, sample_store, sample_account)"
  "reason_ok ''bank receipt''"
  by code_simp+

theorem operator_settles_and_refunds_by_the_same_path_witness:
  "settleable (pay_status demo_payment) \<and>
    dropping (mark_admin_payment_paid default_settings (am_eid (at_time 900)) 900 901 operator_account
        ''abcdefghijklmnopqrstuvwx'' ''bank receipt'' till_db) =
      rbind (handle_payment_request (at_time 900, Settle ''abcdefghijklmnopqrstuvwx'' (pay_bakong_ref demo_payment)
         (Some (manual_raw 900 operator_account (py_strip ''bank receipt'') demo_payment))) till_db) (\<lambda>d1.
        Inr (audit_record (Some operator_account) ''admin.payment_mark_paid'' ''Payment'' 21
          (operator_details (py_strip ''bank receipt'') demo_payment sample_store sample_account) d1))"
proof -
  have "settleable (pay_status demo_payment)" "pay_id demo_payment = 21"
    by code_simp+
  moreover have "am_settings (at_time 900) = default_settings" "am_now (at_time 900) = 900" "am_approved (at_time 900) = 901"
    by (simp_all add: at_time_def)
  ultimately show ?thesis
    using operator_settles_and_refunds_by_the_same_path [OF demo_operator_request, of "at_time 900" operator_account]
    by simp
qed

lemma operator_typed:
  assumes "rows_typed d"
  shows "returns (handle_operator r d) rows_typed"
proof -
  obtain am ctx req where r: "r = (am, ctx, req)"
    by (metis prod.exhaust)
  have keys: "distinct_keys pay_id (payments d)" and typed: "list_all payment_typed (payments d)"
    using assms keys_okD(1) by (auto simp: rows_typed_def)
  have kept: "rows_typed d'" if "handle_payment_request q d0 = Inr d'" "rows_typed d0" for q d0 d'
    using request_typed [OF that(2)] that(1) by (rule returnsD)
  show ?thesis
    unfolding r
  proof (cases req)
    case (OperatorSettles pid reason)
    have "rows_typed d1" if "mark_paid (am_settings am) q ref raw (am_eid am) (am_now am) (am_approved am) d = Inr (x, d1)" for q ref raw x d1
      using kept [of "(am, Settle q ref raw)" d d1] that assms by simp
    then show "returns (handle_operator (am, ctx, req) d) rows_typed"
      unfolding OperatorSettles handle_operator.simps mark_admin_payment_paid_def dropping_def Let_def
      by (auto simp: returns_def split: option.splits)
  next
    case (OperatorRefunds pid reason)
    have "rows_typed d1"
      if "reverse_payment p (Some reason) (am_eid am) (am_now am) (audit_record x y z i e d) = Inr (q, d1)" "p \<in> set (payments d)"
      for p x y z i e q d1
    proof -
      have "tget pay_id (pay_id p) (payments d) = Some p"
        using tget_Some [OF keys] that(2) by simp
      then show ?thesis
        using kept [of "(am, Refund (pay_id p) (Some reason))" "audit_record x y z i e d" d1] that(1) assms by simp
    qed
    then show "returns (handle_operator (am, ctx, req) d) rows_typed"
      unfolding OperatorRefunds handle_operator.simps reverse_admin_payment_def dropping_def
      by (auto simp: returns_def dest: load_admin_payment_Inr(1))
  qed
qed

interpretation till: kept "case_sum handle_payment_request handle_operator" rows_typed
  using request_typed operator_typed by unfold_locales (auto split: sum.split)

text \<open>C3. The columns of every payment agree with one another at all times: over any sequence of requests of
  merchants, of the rail, of the sweep and of operators, refused ones included, every row has a positive
  amount, a payment date and an approval date exactly when money was taken, a refund date exactly when it was given back, a
  refund reason on refunds only, and a scan date when it stands as scanned.\<close>

theorem payment_rows_stay_typed:
  assumes "rows_typed d"
  shows "rows_typed (fold (transact (case_sum handle_payment_request handle_operator)) history d)"
proof -
  have "transact (case_sum handle_payment_request handle_operator) =
      (\<lambda>r d. case case_sum handle_payment_request handle_operator r d of Inl _ \<Rightarrow> d | Inr d' \<Rightarrow> d')"
    by (intro ext) (simp add: transact_def)
  then show ?thesis
    using till.run_ok [OF assms] by simp
qed

theorem payment_rows_stay_typed_witness:
  "rows_typed (fold (transact (case_sum handle_payment_request handle_operator))
     [Inl (at_time 5, Scan 21), Inr (at_time 900, operator_account, OperatorSettles ''abcdefghijklmnopqrstuvwx'' ''bank receipt''),
      Inr (at_time 950, operator_account, OperatorRefunds ''abcdefghijklmnopqrstuvwx'' ''sent back'')] till_db)"
proof -
  have "rows_typed till_db" by code_simp
  then show ?thesis
    by (rule payment_rows_stay_typed)
qed

section \<open>Redelivery\<close>

definition delivers_for :: "int \<Rightarrow> db \<Rightarrow> event_delivery \<Rightarrow> bool" where
  "delivers_for payment_id d r \<longleftrightarrow>
     list_ex (\<lambda>e. ev_id e = dl_event_id r \<and> ev_payment_id e = payment_id) (events d)"

lemma redeliver_targets_set:
  "set (redeliver_targets i incl d) =
     {r \<in> set (event_deliveries d). delivers_for i d r \<and> (incl \<or> dl_status r \<noteq> DELIVERY_SUCCESS)}"
  by (auto simp: redeliver_targets_def payment_delivery_rows_def delivers_for_def)

lemma map_if_ids:
  assumes "distinct_keys key t" "set ids = key ` {r \<in> set t. P r}"
  shows "tmodify (\<lambda>r. key r \<in> set ids) f t = map (\<lambda>r. if P r then f r else r) t"
proof -
  have "key r \<in> set ids \<longleftrightarrow> P r" if "r \<in> set t" for r
    using that rows.rows_eq [OF assms(1)] by (auto simp: assms(2))
  then show ?thesis
    by (simp add: tmodify_def)
qed

text \<open>C39. Asking for the deliveries of a payment again reopens exactly the deliveries of that payment that did
  not succeed, or all of them when successes are asked for: they are due at once with a full budget of
  attempts; every other delivery keeps its state, and only the trail is written besides.\<close>

theorem redelivery_reopens_exactly_the_targets:
  assumes "distinct_keys dl_id (event_deliveries d)"
    and "redeliver_admin_payment_events now ctx public_id include_successes d = Inr (ids, d')"
  shows "\<exists>p \<in> set (payments d). pay_public_id p = public_id \<and>
    set ids = dl_id ` {r \<in> set (event_deliveries d). delivers_for (pay_id p) d r \<and>
      (include_successes \<or> dl_status r \<noteq> DELIVERY_SUCCESS)} \<and>
    event_deliveries d' = map (\<lambda>r.
      if delivers_for (pay_id p) d r \<and> (include_successes \<or> dl_status r \<noteq> DELIVERY_SUCCESS)
      then reset_delivery now r else r) (event_deliveries d) \<and>
    (\<forall>r. delivery_due now (reset_delivery now r) \<and> dl_attempts (reset_delivery now r) = 0) \<and>
    d' = d\<lparr>event_deliveries := event_deliveries d', audit_logs := audit_logs d'\<rparr>"
proof -
  obtain p st a where load: "load_admin_payment public_id d = Inr (p, st, a)"
    and ids: "ids = map dl_id (redeliver_targets (pay_id p) include_successes d)"
    and d': "ids = [] \<and> d' = d \<or> (\<exists>kvs. d' = audit_record (Some ctx) ''admin.payment_redelivered'' ''Payment'' (pay_id p) kvs
        (d\<lparr>event_deliveries := tmodify (\<lambda>r. dl_id r \<in> set ids) (reset_delivery now) (event_deliveries d)\<rparr>))"
    using assms(2) by (auto simp: redeliver_admin_payment_events_def Let_def split: if_splits)
  let ?P = "\<lambda>r. delivers_for (pay_id p) d r \<and> (include_successes \<or> dl_status r \<noteq> DELIVERY_SUCCESS)"
  have set_ids: "set ids = dl_id ` {r \<in> set (event_deliveries d). ?P r}"
    by (simp add: ids redeliver_targets_set)
  have upd: "tmodify (\<lambda>r. dl_id r \<in> set ids) (reset_delivery now) (event_deliveries d) =
      map (\<lambda>r. if ?P r then reset_delivery now r else r) (event_deliveries d)"
    by (rule map_if_ids [OF assms(1) set_ids])
  have rows: "event_deliveries d' = tmodify (\<lambda>r. dl_id r \<in> set ids) (reset_delivery now) (event_deliveries d)"
    and frame: "d' = d\<lparr>event_deliveries := event_deliveries d', audit_logs := audit_logs d'\<rparr>"
    using d' by (auto simp: tmodify_def audit_record_def)
  have "delivery_due now (reset_delivery now r) \<and> dl_attempts (reset_delivery now r) = 0" for r
    by (simp add: reset_delivery_def delivery_due_def delivery_open_def)
  then show ?thesis
    using load_admin_payment_Inr(1,2) [OF load] set_ids frame unfolding rows upd by blast
qed

definition undelivered_db :: db where
  "undelivered_db = demo_db\<lparr>accounts := [sample_account],
     event_deliveries := [demo_delivery\<lparr>dl_status := DELIVERY_FAILED, dl_attempts := 8\<rparr>,
       demo_delivery\<lparr>dl_id := 2, dl_status := DELIVERY_SUCCESS\<rparr>]\<rparr>"

theorem redelivery_reopens_exactly_the_targets_witness:
  "\<exists>ids d'. redeliver_admin_payment_events 900 operator_account ''abcdefghijklmnopqrstuvwx'' False undelivered_db = Inr (ids, d') \<and>
     event_deliveries d' = [reset_delivery 900 (demo_delivery\<lparr>dl_status := DELIVERY_FAILED, dl_attempts := 8\<rparr>),
       demo_delivery\<lparr>dl_id := 2, dl_status := DELIVERY_SUCCESS\<rparr>]"
proof -
  let ?r = "redeliver_admin_payment_events 900 operator_account ''abcdefghijklmnopqrstuvwx'' False undelivered_db"
  have keys: "distinct_keys dl_id (event_deliveries undelivered_db)" by code_simp
  have "\<not> isl ?r" by code_simp
  then obtain ids d' where res: "?r = Inr (ids, d')"
    by (metis sumE isl_def prod.exhaust)
  have "\<forall>p \<in> set (payments undelivered_db). map (delivers_for (pay_id p) undelivered_db) (event_deliveries undelivered_db) = [True, True]"
    by code_simp
  moreover have "event_deliveries undelivered_db = [demo_delivery\<lparr>dl_status := DELIVERY_FAILED, dl_attempts := 8\<rparr>,
       demo_delivery\<lparr>dl_id := 2, dl_status := DELIVERY_SUCCESS\<rparr>]"
    by (simp add: undelivered_db_def)
  ultimately show ?thesis
    using redelivery_reopens_exactly_the_targets [OF keys res] res by auto
qed

end
