(* ===== verification/Bakong.thy ===== *)
theory Bakong
  imports Json Complex_Main
begin

text \<open>
  The client of the Bakong Open API (\<^verbatim>\<open>src/src/chmabapay/services/bakong.py\<close>): the retry loop of one call with
  its token renewal, the five lookups, and the cascade over the identifiers of a receipt.

  The network is an argument: the answer to the \<open>n\<close>-th call of a client, given the bearer token, the path
  and the body.  Everything that can stop a call is a value of \<open>bakong_exc\<close>.  A renewal is a call of the
  same loop, so the loop may call itself; \<open>depth\<close> is how many nested renewals the interpreter's stack
  holds before it raises.  Pauses between attempts are not modelled.  A number in an answer keeps its
  text and is read as an exact decimal.

  Lemmas: the cascade asks the identifiers of a receipt in the documented order, reports what the ledger
  returned for the first one that was no miss, and never turns a refused credential into "not found";
  without a renewal a call makes at most \<open>max_retries\<close> requests.
\<close>

section \<open>Reading an answer\<close>

definition jfield :: "json \<Rightarrow> string \<Rightarrow> json" where
  "jfield v k = (case json_get v k of None \<Rightarrow> JNull | Some x \<Rightarrow> x)"

definition json_or :: "json \<Rightarrow> json \<Rightarrow> json" where
  "json_or a b = (if json_truthy a then a else b)"

definition scaled :: "int \<Rightarrow> int \<Rightarrow> rat" where
  "scaled m e = (if e \<ge> 0 then of_int m * 10 ^ nat e else of_int m / 10 ^ nat (- e))"

definition decimal :: "string \<Rightarrow> rat option" where
  "decimal text = map_option (\<lambda>(m, e). scaled m e) (decimal_parts text)"

fun json_number :: "json \<Rightarrow> rat option" where
  "json_number (JInt n) = Some (of_int n)"
| "json_number (JBool b) = Some (if b then 1 else 0)"
| "json_number (JFloat s) = decimal s"
| "json_number _ = None"

definition json_is :: "int \<Rightarrow> json \<Rightarrow> bool" where
  "json_is n v \<longleftrightarrow> json_number v = Some (of_int n)"

section \<open>The client\<close>

definition BAKONG_SUCCESS_CODE :: int where "BAKONG_SUCCESS_CODE = 0"
definition BAKONG_ERROR_UNAUTHORIZED :: int where "BAKONG_ERROR_UNAUTHORIZED = 6"

text \<open>\<open>BakongApiError\<close> carries the message, the error code and the response code of the answer.\<close>

datatype bakong_exc = BakongApiError json json json | TransportError string | OtherError string

datatype net_answer = Answer json | Not_json | Unreachable string

type_synonym bakong_net = "nat \<Rightarrow> json \<Rightarrow> string \<Rightarrow> json \<Rightarrow> net_answer"

record bakong_config =
  bk_developer_email :: "string option"
  bk_max_retries :: nat

record bakong_client =
  bc_token :: json
  bc_calls :: nat

type_synonym 'a bakong = "bakong_client \<Rightarrow> (bakong_exc + 'a) \<times> bakong_client"

text \<open>The credential of the \<^verbatim>\<open>Authorization\<close> header.\<close>

definition bakong_header :: "bakong_client \<Rightarrow> json" where
  "bakong_header c = json_or (bc_token c) JNull"

definition refused_credential :: "bakong_exc \<Rightarrow> bool" where
  "refused_credential e = (case e of BakongApiError _ ec _ \<Rightarrow> json_is BAKONG_ERROR_UNAUTHORIZED ec | _ \<Rightarrow> False)"

definition renew_body :: "string \<Rightarrow> json" where
  "renew_body email = JObj [(''email'', JStr email)]"

text \<open>The token of a renewal answer is stored when there is one; \<open>data\<close> must be a dictionary.\<close>

definition store_token :: "json \<Rightarrow> unit bakong" where
  "store_token payload c =
     (let data = json_or (jfield payload ''data'') (JObj []) in
      case data of
        JObj _ \<Rightarrow> (Inr (), c\<lparr>bc_token := json_or (jfield data ''token'') (bc_token c)\<rparr>)
      | _ \<Rightarrow> (Inl (OtherError ''AttributeError''), c))"

text \<open>The loop of one call, from attempt \<open>attempt\<close> on with \<open>left\<close> attempts to go.  After a renewal the loop
  goes on to the next attempt; a renewal that cannot reach the network counts as a failed attempt.\<close>

function post_from ::
  "bakong_config \<Rightarrow> bakong_net \<Rightarrow> string \<Rightarrow> json \<Rightarrow> nat \<Rightarrow> nat \<Rightarrow> nat \<Rightarrow> string option \<Rightarrow> json bakong"
where
  "post_from k net path body depth 0 attempt prev c =
     (Inl (case prev of Some e \<Rightarrow> TransportError e
        | None \<Rightarrow> BakongApiError (JStr ''Unknown error'') JNull JNull), c)"
| "post_from k net path body depth (Suc left) attempt prev c =
     (let c1 = c\<lparr>bc_calls := Suc (bc_calls c)\<rparr>;
          on_transport = (\<lambda>e c'. if attempt + 1 < bk_max_retries k
             then post_from k net path body depth left (Suc attempt) (Some e) c'
             else (Inl (TransportError e), c'))
      in case net (bc_calls c) (bakong_header c) path body of
           Unreachable e \<Rightarrow> on_transport e c1
         | Not_json \<Rightarrow> (Inl (OtherError ''JSONDecodeError''), c1)
         | Answer payload \<Rightarrow>
             (case payload of
                JObj _ \<Rightarrow>
                  if json_is BAKONG_SUCCESS_CODE (jfield payload ''responseCode'') then (Inr payload, c1)
                  else if json_is BAKONG_ERROR_UNAUTHORIZED (jfield payload ''errorCode'') \<and> attempt = 0 \<and>
                          or_str (bk_developer_email k) [] \<noteq> []
                  then (case depth of
                          0 \<Rightarrow> (Inl (OtherError ''RecursionError''), c1)
                        | Suc below \<Rightarrow>
                            (case post_from k net ''/v1/renew_token'' (renew_body (or_str (bk_developer_email k) []))
                                     below (bk_max_retries k) 0 None c1 of
                               (Inl (TransportError e), c2) \<Rightarrow> on_transport e c2
                             | (Inl e, c2) \<Rightarrow> (Inl e, c2)
                             | (Inr answer, c2) \<Rightarrow>
                                 (case store_token answer c2 of
                                    (Inl e, c3) \<Rightarrow> (Inl e, c3)
                                  | (Inr _, c3) \<Rightarrow> post_from k net path body depth left (Suc attempt) prev c3)))
                  else (Inl (BakongApiError
                         (json_or (jfield payload ''responseMessage'') (JStr (''Bakong API error on '' @ path)))
                         (jfield payload ''errorCode'') (jfield payload ''responseCode'')), c1)
              | _ \<Rightarrow> (Inl (OtherError ''AttributeError''), c1)))"
  by pat_completeness auto
termination
  by (relation "measures [\<lambda>(k, net, path, body, depth, left, attempt, prev, c). depth,
        \<lambda>(k, net, path, body, depth, left, attempt, prev, c). left]") auto

definition post :: "bakong_config \<Rightarrow> bakong_net \<Rightarrow> nat \<Rightarrow> string \<Rightarrow> json \<Rightarrow> json bakong" where
  "post k net depth path body c = post_from k net path body depth (bk_max_retries k) 0 None c"

definition renew_token :: "bakong_config \<Rightarrow> bakong_net \<Rightarrow> nat \<Rightarrow> string option \<Rightarrow> unit bakong" where
  "renew_token k net depth email c =
     (let use_email = or_str email (or_str (bk_developer_email k) []) in
      if use_email = [] then (Inl (BakongApiError (JStr ''developer_email required to renew Bakong API token'') JNull JNull), c)
      else case post k net depth ''/v1/renew_token'' (renew_body use_email) c of
             (Inl e, c1) \<Rightarrow> (Inl e, c1)
           | (Inr answer, c1) \<Rightarrow> store_token answer c1)"

section \<open>Lookups\<close>

record bakong_transaction =
  bt_hash :: json
  bt_short_hash :: json
  bt_md5 :: json
  bt_from_account_id :: json
  bt_to_account_id :: json
  bt_from_account_name :: json
  bt_to_account_name :: json
  bt_currency :: json
  bt_amount :: json
  bt_description :: json
  bt_created_date_ms :: json
  bt_acknowledged_date_ms :: json
  bt_instruction_ref :: json
  bt_external_ref :: json
  bt_status :: json
  bt_raw :: json

definition from_raw :: "json \<Rightarrow> bakong_transaction" where
  "from_raw v =
     \<lparr>bt_hash = jfield v ''hash'',
      bt_short_hash = json_or (jfield v ''shortHash'') (jfield v ''short_hash''),
      bt_md5 = jfield v ''md5'',
      bt_from_account_id = json_or (jfield v ''fromAccountId'') (jfield v ''from_account_id''),
      bt_to_account_id = json_or (jfield v ''toAccountId'') (jfield v ''to_account_id''),
      bt_from_account_name = json_or (jfield v ''fromAccountName'') (jfield v ''from_account_name''),
      bt_to_account_name = json_or (jfield v ''toAccountName'') (jfield v ''to_account_name''),
      bt_currency = jfield v ''currency'', bt_amount = jfield v ''amount'', bt_description = jfield v ''description'',
      bt_created_date_ms = json_or (jfield v ''createdDateMs'') (jfield v ''created_date_ms''),
      bt_acknowledged_date_ms = json_or (jfield v ''acknowledgedDateMs'') (jfield v ''acknowledged_date_ms''),
      bt_instruction_ref = json_or (jfield v ''instructionRef'') (jfield v ''instruction_ref''),
      bt_external_ref = json_or (jfield v ''externalRef'') (jfield v ''external_ref''),
      bt_status = jfield v ''status'', bt_raw = v\<rparr>"

definition check_body :: "(string \<times> json) list \<Rightarrow> json option \<Rightarrow> string option \<Rightarrow> json" where
  "check_body keys amount currency =
     JObj (keys @ (case amount of None \<Rightarrow> [] | Some a \<Rightarrow> [(''amount'', a)]) @
       (if or_str currency [] = [] then [] else [(''currency'', json_opt_str currency)]))"

definition check_by ::
  "string \<Rightarrow> (string \<times> json) list \<Rightarrow> bakong_config \<Rightarrow> bakong_net \<Rightarrow> nat \<Rightarrow> json option \<Rightarrow> string option \<Rightarrow>
     bakong_transaction option bakong"
where
  "check_by path keys k net depth amount currency c =
     (case post k net depth path (check_body keys amount currency) c of
        (Inl e, c1) \<Rightarrow> (Inl e, c1)
      | (Inr payload, c1) \<Rightarrow>
          (let data = jfield payload ''data'' in
           if \<not> json_truthy data then (Inr None, c1)
           else case data of JObj _ \<Rightarrow> (Inr (Some (from_raw data)), c1)
                | _ \<Rightarrow> (Inl (OtherError ''AttributeError''), c1)))"

definition check_by_hash :: "string \<Rightarrow> bakong_config \<Rightarrow> bakong_net \<Rightarrow> nat \<Rightarrow> json option \<Rightarrow> string option \<Rightarrow>
    bakong_transaction option bakong" where
  "check_by_hash v = check_by ''/v1/check_transaction_by_hash'' [(''hash'', JStr v)]"

definition check_by_md5 :: "string \<Rightarrow> bakong_config \<Rightarrow> bakong_net \<Rightarrow> nat \<Rightarrow> json option \<Rightarrow> string option \<Rightarrow>
    bakong_transaction option bakong" where
  "check_by_md5 v = check_by ''/v1/check_transaction_by_md5'' [(''md5'', JStr v)]"

definition check_by_short_hash :: "string \<Rightarrow> bakong_config \<Rightarrow> bakong_net \<Rightarrow> nat \<Rightarrow> json option \<Rightarrow> string option \<Rightarrow>
    bakong_transaction option bakong" where
  "check_by_short_hash v =
     check_by ''/v1/check_transaction_by_short_hash'' [(''short_hash'', JStr v), (''shortHash'', JStr v)]"

definition check_by_instruction_ref :: "string \<Rightarrow> bakong_config \<Rightarrow> bakong_net \<Rightarrow> nat \<Rightarrow> json option \<Rightarrow> string option \<Rightarrow>
    bakong_transaction option bakong" where
  "check_by_instruction_ref v =
     check_by ''/v1/check_transaction_by_instruction_ref'' [(''instruction_ref'', JStr v), (''instructionRef'', JStr v)]"

definition check_by_external_ref :: "string \<Rightarrow> bakong_config \<Rightarrow> bakong_net \<Rightarrow> nat \<Rightarrow> json option \<Rightarrow> string option \<Rightarrow>
    bakong_transaction option bakong" where
  "check_by_external_ref v =
     check_by ''/v1/check_transaction_by_external_ref'' [(''external_ref'', JStr v), (''externalRef'', JStr v)]"

datatype search_type = By_hash | By_md5 | By_short_hash | By_instruction_ref | By_external_ref

fun search_name :: "search_type \<Rightarrow> string" where
  "search_name By_hash = ''hash''"
| "search_name By_md5 = ''md5''"
| "search_name By_short_hash = ''short_hash''"
| "search_name By_instruction_ref = ''instruction_ref''"
| "search_name By_external_ref = ''external_ref''"

fun search :: "search_type \<Rightarrow> string \<Rightarrow> bakong_config \<Rightarrow> bakong_net \<Rightarrow> nat \<Rightarrow> json option \<Rightarrow> string option \<Rightarrow>
    bakong_transaction option bakong" where
  "search By_hash v = check_by_hash v"
| "search By_md5 v = check_by_md5 v"
| "search By_short_hash v = check_by_short_hash v"
| "search By_instruction_ref v = check_by_instruction_ref v"
| "search By_external_ref v = check_by_external_ref v"

definition status_wanted :: "string option \<Rightarrow> bakong_transaction \<Rightarrow> bool" where
  "status_wanted wanted tx = (case wanted of None \<Rightarrow> True | Some st \<Rightarrow> bt_status tx = JStr st)"

text \<open>\<open>poll_until_found\<close>, given the attempts left.\<close>

fun poll_until_found :: "search_type \<Rightarrow> string \<Rightarrow> bakong_config \<Rightarrow> bakong_net \<Rightarrow> nat \<Rightarrow> json option \<Rightarrow> string option \<Rightarrow>
    string option \<Rightarrow> nat \<Rightarrow> bakong_transaction option bakong" where
  "poll_until_found t v k net depth amount currency wanted 0 c = (Inr None, c)"
| "poll_until_found t v k net depth amount currency wanted (Suc n) c =
     (case search t v k net depth amount currency c of
        (Inl e, c1) \<Rightarrow> (Inl e, c1)
      | (Inr found, c1) \<Rightarrow>
          if found \<noteq> None \<and> status_wanted wanted (the found) then (Inr found, c1)
          else poll_until_found t v k net depth amount currency wanted n c1)"

section \<open>The receipt\<close>

record receipt =
  rc_short_hash :: "string option"
  rc_amount :: "json option"
  rc_currency :: "string option"
  rc_purchase_number :: "string option"
  rc_reference_number :: "string option"
  rc_transaction_id :: "string option"
  rc_apv_number :: "string option"
  rc_remark :: "string option"
  rc_md5 :: "string option"
  rc_full_hash :: "string option"
  rc_require_status :: "string option"

record receipt_verify_result =
  rv_via :: "string option"
  rv_attempts :: "json list"
  rv_transaction :: "bakong_transaction option"

text \<open>One question of the cascade: the index and the value, the filters, and the name it is reported under.\<close>

record lookup =
  lu_kind :: search_type
  lu_value :: string
  lu_amount :: "json option"
  lu_currency :: "string option"
  lu_via :: string

definition given :: "string option \<Rightarrow> (string \<Rightarrow> lookup list) \<Rightarrow> lookup list" where
  "given x f = (let v = or_str x [] in if v = [] then [] else f v)"

definition filtered :: "receipt \<Rightarrow> search_type \<Rightarrow> string \<Rightarrow> string \<Rightarrow> lookup" where
  "filtered r kind via v =
     \<lparr>lu_kind = kind, lu_value = v, lu_amount = rc_amount r, lu_currency = rc_currency r, lu_via = via\<rparr>"

definition bare :: "search_type \<Rightarrow> string \<Rightarrow> string \<Rightarrow> lookup" where
  "bare kind via v = \<lparr>lu_kind = kind, lu_value = v, lu_amount = None, lu_currency = None, lu_via = via\<rparr>"

text \<open>The questions in the order the code asks them.\<close>

definition receipt_lookups :: "receipt \<Rightarrow> lookup list" where
  "receipt_lookups r =
     given (rc_md5 r) (\<lambda>v. [bare By_md5 ''md5'' v]) @
     (if rc_amount r = None then [] else given (rc_short_hash r) (\<lambda>v.
        [(filtered r By_short_hash ''short_hash'' v)\<lparr>lu_currency := Some (or_str (rc_currency r) ''USD'')\<rparr>])) @
     given (rc_full_hash r) (\<lambda>v. [filtered r By_hash ''full_hash'' v]) @
     given (rc_purchase_number r) (\<lambda>v. [filtered r By_instruction_ref ''purchase_as_instruction_ref'' v]) @
     given (rc_reference_number r) (\<lambda>v. [filtered r By_external_ref ''reference_as_external_ref'' v]) @
     given (rc_transaction_id r) (\<lambda>v. [filtered r By_instruction_ref ''trxid_as_instruction_ref'' v,
       filtered r By_external_ref ''trxid_as_external_ref'' v]) @
     given (rc_apv_number r) (\<lambda>v. [filtered r By_instruction_ref ''apv_as_instruction_ref'' v,
       filtered r By_external_ref ''apv_as_external_ref'' v]) @
     given (rc_short_hash r) (\<lambda>v. [bare By_short_hash ''short_hash_no_amount'' v])"

definition attempt_entry :: "lookup \<Rightarrow> json" where
  "attempt_entry l = JObj [(''type'', JStr (search_name (lu_kind l))), (''value'', JStr (lu_value l))]"

text \<open>\<open>_try\<close>: an API error other than a refused credential is a miss.\<close>

definition try_lookup :: "string option \<Rightarrow> bakong_config \<Rightarrow> bakong_net \<Rightarrow> nat \<Rightarrow> lookup \<Rightarrow> bakong_transaction option bakong" where
  "try_lookup wanted k net depth l c =
     (case search (lu_kind l) (lu_value l) k net depth (lu_amount l) (lu_currency l) c of
        (Inr found, c1) \<Rightarrow> (Inr (if found \<noteq> None \<and> status_wanted wanted (the found) then found else None), c1)
      | (Inl e, c1) \<Rightarrow>
          (case e of
             BakongApiError _ _ _ \<Rightarrow> (if refused_credential e then Inl e else Inr None, c1)
           | _ \<Rightarrow> (Inl e, c1)))"

fun cascade :: "string option \<Rightarrow> bakong_config \<Rightarrow> bakong_net \<Rightarrow> nat \<Rightarrow> lookup list \<Rightarrow> json list \<Rightarrow>
    receipt_verify_result bakong" where
  "cascade wanted k net depth [] attempts c = (Inr \<lparr>rv_via = None, rv_attempts = attempts, rv_transaction = None\<rparr>, c)"
| "cascade wanted k net depth (l # ls) attempts c =
     (let attempts1 = attempts @ [attempt_entry l] in
      case try_lookup wanted k net depth l c of
        (Inl e, c1) \<Rightarrow> (Inl e, c1)
      | (Inr (Some tx), c1) \<Rightarrow> (Inr \<lparr>rv_via = Some (lu_via l), rv_attempts = attempts1, rv_transaction = Some tx\<rparr>, c1)
      | (Inr None, c1) \<Rightarrow> cascade wanted k net depth ls attempts1 c1)"

definition remark_entry :: "string \<Rightarrow> json" where
  "remark_entry remark = JObj [(''type'', JStr ''remark''), (''value'', JStr remark),
     (''note'', JStr ''remark_is_not_index_key_only_description_field'')]"

definition verify_receipt :: "bakong_config \<Rightarrow> bakong_net \<Rightarrow> nat \<Rightarrow> receipt \<Rightarrow> receipt_verify_result bakong" where
  "verify_receipt k net depth r c =
     (case cascade (rc_require_status r) k net depth (receipt_lookups r) [] c of
        (Inr res, c1) \<Rightarrow>
          (Inr (if rv_transaction res = None \<and> or_str (rc_remark r) [] \<noteq> []
                then res\<lparr>rv_attempts := rv_attempts res @ [remark_entry (or_str (rc_remark r) [])]\<rparr> else res), c1)
      | (Inl e, c1) \<Rightarrow> (Inl e, c1))"

section \<open>What the cascade answers\<close>

text \<open>An answer that says nothing about this identifier: no transaction, one in another status, or an API error
  other than error 6, the refused credential.  A list of questions all of which got such an answer, the
  client threaded through them.\<close>

definition no_verdict :: "string option \<Rightarrow> bakong_exc + bakong_transaction option \<Rightarrow> bool" where
  "no_verdict wanted x =
     (case x of
        Inr None \<Rightarrow> True
      | Inr (Some tx) \<Rightarrow> \<not> status_wanted wanted tx
      | Inl (BakongApiError _ ec _) \<Rightarrow> \<not> json_is 6 ec
      | Inl _ \<Rightarrow> False)"

definition ask :: "bakong_config \<Rightarrow> bakong_net \<Rightarrow> nat \<Rightarrow> lookup \<Rightarrow> bakong_transaction option bakong" where
  "ask k net depth l = search (lu_kind l) (lu_value l) k net depth (lu_amount l) (lu_currency l)"

fun all_missed :: "string option \<Rightarrow> bakong_config \<Rightarrow> bakong_net \<Rightarrow> nat \<Rightarrow> lookup list \<Rightarrow> bakong_client \<Rightarrow> bakong_client \<Rightarrow> bool" where
  "all_missed wanted k net depth [] c c' \<longleftrightarrow> c' = c"
| "all_missed wanted k net depth (l # ls) c c' \<longleftrightarrow>
     no_verdict wanted (fst (ask k net depth l c)) \<and> all_missed wanted k net depth ls (snd (ask k net depth l c)) c'"

text \<open>The priority of the identifiers: how a hit is reported, the index asked, and the field that is asked for.\<close>

definition documented_order :: "(string \<times> search_type \<times> (receipt \<Rightarrow> string option)) list" where
  "documented_order =
     [(''md5'', By_md5, rc_md5),
      (''short_hash'', By_short_hash, \<lambda>r. if rc_amount r = None then None else rc_short_hash r),
      (''full_hash'', By_hash, rc_full_hash),
      (''purchase_as_instruction_ref'', By_instruction_ref, rc_purchase_number),
      (''reference_as_external_ref'', By_external_ref, rc_reference_number),
      (''trxid_as_instruction_ref'', By_instruction_ref, rc_transaction_id),
      (''trxid_as_external_ref'', By_external_ref, rc_transaction_id),
      (''apv_as_instruction_ref'', By_instruction_ref, rc_apv_number),
      (''apv_as_external_ref'', By_external_ref, rc_apv_number),
      (''short_hash_no_amount'', By_short_hash, rc_short_hash)]"

lemma try_lookup_cases:
  "try_lookup wanted k net depth l c =
     (if no_verdict wanted (fst (ask k net depth l c)) then Inr None else fst (ask k net depth l c), snd (ask k net depth l c))"
  by (auto simp: try_lookup_def ask_def no_verdict_def refused_credential_def BAKONG_ERROR_UNAUTHORIZED_def
    split: prod.splits sum.splits option.splits bakong_exc.splits)

text \<open>How a cascade ends: every question missed, or one of them settled it after all before it missed.\<close>

definition settled_at ::
  "string option \<Rightarrow> bakong_config \<Rightarrow> bakong_net \<Rightarrow> nat \<Rightarrow> lookup list \<Rightarrow> bakong_client \<Rightarrow>
     bakong_exc + bakong_transaction option \<Rightarrow> string \<Rightarrow> bakong_client \<Rightarrow> bool"
where
  "settled_at wanted k net depth ls c x via c' \<longleftrightarrow>
     (\<exists>before l after c1. ls = before @ l # after \<and> all_missed wanted k net depth before c c1 \<and>
        ask k net depth l c1 = (x, c') \<and> \<not> no_verdict wanted x \<and> via = lu_via l)"

lemma settled_at_first: "ask k net depth l c = (x, c') \<Longrightarrow> \<not> no_verdict wanted x \<Longrightarrow> settled_at wanted k net depth (l # ls) c x (lu_via l) c'"
  unfolding settled_at_def by (intro exI [of _ "[]"]) auto

lemma settled_at_later:
  assumes "settled_at wanted k net depth ls (snd (ask k net depth l c)) x via c'" "no_verdict wanted (fst (ask k net depth l c))"
  shows "settled_at wanted k net depth (l # ls) c x via c'"
proof -
  obtain before l' after c1 where "ls = before @ l' # after" "all_missed wanted k net depth before (snd (ask k net depth l c)) c1"
    "ask k net depth l' c1 = (x, c')" "\<not> no_verdict wanted x" "via = lu_via l'"
    using assms(1) unfolding settled_at_def by blast
  then show ?thesis
    unfolding settled_at_def using assms(2) by (intro exI [of _ "l # before"]) auto
qed

lemma cascade_ends:
  assumes "cascade wanted k net depth ls atts c = (y, c')"
  shows "(case y of
      Inr res \<Rightarrow> (case rv_transaction res of
          None \<Rightarrow> all_missed wanted k net depth ls c c'
        | Some tx \<Rightarrow> \<exists>via. rv_via res = Some via \<and> settled_at wanted k net depth ls c (Inr (Some tx)) via c')
    | Inl e \<Rightarrow> \<exists>via. settled_at wanted k net depth ls c (Inl e) via c')"
  using assms
proof (induction ls arbitrary: atts c)
  case (Cons l ls)
  obtain x c1 where l: "ask k net depth l c = (x, c1)"
    by force
  show ?case
  proof (cases "no_verdict wanted x")
    case True
    then have "cascade wanted k net depth ls (atts @ [attempt_entry l]) c1 = (y, c')"
      using Cons.prems l by (simp add: try_lookup_cases)
    from Cons.IH [OF this] show ?thesis
      using True l settled_at_later [of wanted k net depth ls l c _ _ c']
      by (fastforce split: sum.splits option.splits)
  next
    case False
    then consider e where "x = Inl e" | tx where "x = Inr (Some tx)"
      by (auto simp: no_verdict_def split: sum.splits option.splits)
    then show ?thesis
      using False Cons.prems l settled_at_first [OF l False, of ls]
      by cases (auto simp: try_lookup_cases Let_def)
  qed
qed auto

lemma verify_ends:
  assumes "verify_receipt k net depth r c = (y, c')"
  shows "\<exists>y'. cascade (rc_require_status r) k net depth (receipt_lookups r) [] c = (y', c') \<and>
    (case y of Inl e \<Rightarrow> y' = Inl e | Inr res \<Rightarrow> \<exists>res'. y' = Inr res' \<and> rv_transaction res' = rv_transaction res \<and> rv_via res' = rv_via res)"
  using assms by (auto simp: verify_receipt_def split: prod.splits sum.splits if_splits)

text \<open>C23. The ledger's answer about a receipt is never invented.  The identifiers the receipt carries are asked in
  the documented order, the digest of the code first and without a filter on the amount; "not found" is
  said only after every one of them was asked and answered with nothing, with a transaction in another
  status or with an API error that is not a refused credential; a transaction that is reported is one
  the ledger returned for the first identifier that did better; and an exception that reaches the caller
  is one a question raised, a refused credential among them and no other API error.\<close>

theorem receipt_verdict_is_the_ledgers:
  "map (\<lambda>l. (lu_via l, lu_kind l, lu_value l)) (receipt_lookups r) =
     concat (map (\<lambda>(via, kind, field). if or_str (field r) [] = [] then [] else [(via, kind, or_str (field r) [])]) documented_order) \<and>
   (\<forall>l \<in> set (receipt_lookups r). lu_kind l = By_md5 \<longrightarrow> lu_amount l = None \<and> lu_currency l = None) \<and>
   (case verify_receipt k net depth r c of
      (Inr res, c') \<Rightarrow>
        (case rv_transaction res of
           None \<Rightarrow> all_missed (rc_require_status r) k net depth (receipt_lookups r) c c'
         | Some tx \<Rightarrow> \<exists>before l after c1. receipt_lookups r = before @ l # after \<and>
             all_missed (rc_require_status r) k net depth before c c1 \<and>
             ask k net depth l c1 = (Inr (Some tx), c') \<and> status_wanted (rc_require_status r) tx \<and> rv_via res = Some (lu_via l))
    | (Inl e, c') \<Rightarrow> \<exists>before l after c1. receipt_lookups r = before @ l # after \<and>
        all_missed (rc_require_status r) k net depth before c c1 \<and> ask k net depth l c1 = (Inl e, c') \<and>
        (\<forall>m ec d. e = BakongApiError m ec d \<longrightarrow> json_is 6 ec))"
proof (intro conjI)
  show "map (\<lambda>l. (lu_via l, lu_kind l, lu_value l)) (receipt_lookups r) =
     concat (map (\<lambda>(via, kind, field). if or_str (field r) [] = [] then [] else [(via, kind, or_str (field r) [])]) documented_order)"
    by (simp add: receipt_lookups_def documented_order_def given_def bare_def filtered_def Let_def or_str_def)
  show "\<forall>l \<in> set (receipt_lookups r). lu_kind l = By_md5 \<longrightarrow> lu_amount l = None \<and> lu_currency l = None"
    by (auto simp: receipt_lookups_def given_def bare_def filtered_def Let_def split: if_splits)
  obtain y c' where v: "verify_receipt k net depth r c = (y, c')"
    by force
  obtain y' where y': "cascade (rc_require_status r) k net depth (receipt_lookups r) [] c = (y', c')"
    "case y of Inl e \<Rightarrow> y' = Inl e | Inr res \<Rightarrow> \<exists>res'. y' = Inr res' \<and> rv_transaction res' = rv_transaction res \<and> rv_via res' = rv_via res"
    using verify_ends [OF v] by blast
  note ends = cascade_ends [OF y'(1)]
  show "case verify_receipt k net depth r c of
      (Inr res, c') \<Rightarrow>
        (case rv_transaction res of
           None \<Rightarrow> all_missed (rc_require_status r) k net depth (receipt_lookups r) c c'
         | Some tx \<Rightarrow> \<exists>before l after c1. receipt_lookups r = before @ l # after \<and>
             all_missed (rc_require_status r) k net depth before c c1 \<and>
             ask k net depth l c1 = (Inr (Some tx), c') \<and> status_wanted (rc_require_status r) tx \<and> rv_via res = Some (lu_via l))
    | (Inl e, c') \<Rightarrow> \<exists>before l after c1. receipt_lookups r = before @ l # after \<and>
        all_missed (rc_require_status r) k net depth before c c1 \<and> ask k net depth l c1 = (Inl e, c') \<and>
        (\<forall>m ec d. e = BakongApiError m ec d \<longrightarrow> json_is 6 ec)"
  proof (cases y)
    case (Inl e)
    then obtain via where "settled_at (rc_require_status r) k net depth (receipt_lookups r) c (Inl e) via c'"
      using ends y'(2) by auto
    then show ?thesis
      unfolding v Inl settled_at_def prod.case sum.case by (fastforce simp: no_verdict_def)
  next
    case (Inr res)
    then obtain res' where res': "y' = Inr res'" "rv_transaction res' = rv_transaction res" "rv_via res' = rv_via res"
      using y'(2) by auto
    show ?thesis
    proof (cases "rv_transaction res")
      case None
      then show ?thesis
        using ends v Inr res' by simp
    next
      case (Some tx)
      then obtain via where "rv_via res = Some via"
        "settled_at (rc_require_status r) k net depth (receipt_lookups r) c (Inr (Some tx)) via c'"
        using ends res' by auto
      then show ?thesis
        unfolding v Inr settled_at_def prod.case sum.case Some option.case by (fastforce simp: no_verdict_def)
    qed
  qed
qed

definition absent_net :: bakong_net where
  "absent_net = (\<lambda>_ _ _ _. Answer (JObj [(''responseCode'', JInt 1), (''errorCode'', JInt 1), (''responseMessage'', JStr ''not found'')]))"

definition demo_receipt :: receipt where
  "demo_receipt = \<lparr>rc_short_hash = None, rc_amount = None, rc_currency = Some ''USD'', rc_purchase_number = Some ''P1'',
     rc_reference_number = None, rc_transaction_id = None, rc_apv_number = None, rc_remark = None, rc_md5 = Some ''m5'',
     rc_full_hash = None, rc_require_status = None\<rparr>"

theorem receipt_verdict_is_the_ledgers_witness:
  "\<exists>c'. map lu_via (receipt_lookups demo_receipt) = [''md5'', ''purchase_as_instruction_ref''] \<and>
     all_missed None \<lparr>bk_developer_email = None, bk_max_retries = 1\<rparr> absent_net 2 (receipt_lookups demo_receipt)
       \<lparr>bc_token = JStr ''tok'', bc_calls = 0\<rparr> c' \<and> bc_calls c' = 2"
proof -
  let ?k = "\<lparr>bk_developer_email = None, bk_max_retries = 1\<rparr>"
  let ?v = "verify_receipt ?k absent_net 2 demo_receipt \<lparr>bc_token = JStr ''tok'', bc_calls = 0\<rparr>"
  have v: "\<not> isl (fst ?v)" "rv_transaction (projr (fst ?v)) = None" "bc_calls (snd ?v) = 2" "rc_require_status demo_receipt = None"
    "map lu_via (receipt_lookups demo_receipt) = [''md5'', ''purchase_as_instruction_ref'']"
    by code_simp+
  obtain y c' where y: "?v = (y, c')"
    by force
  with v(1) obtain res where "y = Inr res"
    by (cases y) simp_all
  then show ?thesis
    using receipt_verdict_is_the_ledgers [of demo_receipt ?k absent_net 2 "\<lparr>bc_token = JStr ''tok'', bc_calls = 0\<rparr>"] v y by auto
qed

section \<open>Renewal and retries\<close>

definition refuses :: "bakong_net \<Rightarrow> bool" where
  "refuses net \<longleftrightarrow> (\<forall>n tok path body. net n tok path body =
     Answer (JObj [(''responseCode'', JInt 1), (''errorCode'', JInt 6), (''responseMessage'', JStr ''Unauthorized'')]))"

lemma refused_fields [simp]:
  "jfield (JObj [(''responseCode'', JInt 1), (''errorCode'', JInt 6), (''responseMessage'', JStr m)]) ''responseCode'' = JInt 1"
  "jfield (JObj [(''responseCode'', JInt 1), (''errorCode'', JInt 6), (''responseMessage'', JStr m)]) ''errorCode'' = JInt 6"
  by (simp_all add: jfield_def)

text \<open>A credential that is refused on renewal too is renewed again from within its own renewal, until the
  stack is exhausted: the caller sees that error and not the refusal.\<close>

lemma refused_renewal_recurses:
  assumes "refuses net" "or_str (bk_developer_email k) [] \<noteq> []" "0 < bk_max_retries k"
  shows "fst (post k net depth path body c) = Inl (OtherError ''RecursionError'') \<and>
    bc_calls (snd (post k net depth path body c)) = bc_calls c + depth + 1"
proof -
  obtain m where m: "bk_max_retries k = Suc m"
    using assms(3) gr0_conv_Suc by auto
  have net: "net n tok p b = Answer (JObj [(''responseCode'', JInt 1), (''errorCode'', JInt 6),
      (''responseMessage'', JStr ''Unauthorized'')])" for n tok p b
    using assms(1) unfolding refuses_def by blast
  have "\<exists>c'. post_from k net path body depth (Suc m) 0 None c = (Inl (OtherError ''RecursionError''), c') \<and>
      bc_calls c' = bc_calls c + depth + 1" for path body c
  proof (induction depth arbitrary: path body c)
    case 0
    then show ?case
      using assms(2) by (simp add: net json_is_def BAKONG_SUCCESS_CODE_def BAKONG_ERROR_UNAUTHORIZED_def)
  next
    case (Suc depth)
    obtain c' where c': "post_from k net ''/v1/renew_token'' (renew_body (or_str (bk_developer_email k) [])) depth (Suc m) 0 None
        (c\<lparr>bc_calls := Suc (bc_calls c)\<rparr>) = (Inl (OtherError ''RecursionError''), c')"
      "bc_calls c' = Suc (bc_calls c) + depth + 1"
      using Suc.IH [of "''/v1/renew_token''" "renew_body (or_str (bk_developer_email k) [])" "c\<lparr>bc_calls := Suc (bc_calls c)\<rparr>"]
      by auto
    show ?case
      by (subst post_from.simps) (simp add: net json_is_def BAKONG_SUCCESS_CODE_def BAKONG_ERROR_UNAUTHORIZED_def m
        assms(2) c' del: post_from.simps)
  qed
  then show ?thesis
    unfolding post_def m by (metis fst_conv snd_conv)
qed

lemma post_from_calls:
  assumes "or_str (bk_developer_email k) [] = []" "post_from k net path body depth n attempt prev c = (x, c')"
  shows "bc_calls c' \<le> bc_calls c + n"
  using assms(2)
proof (induction n arbitrary: attempt prev c)
  case (Suc n)
  show ?case
  proof (cases "net (bc_calls c) (bakong_header c) path body")
    case (Unreachable e)
    then show ?thesis
      using Suc.prems Suc.IH [of "Suc attempt" "Some e" "c\<lparr>bc_calls := Suc (bc_calls c)\<rparr>"]
      by (auto simp: Let_def split: if_splits)
  next
    case (Answer v)
    then show ?thesis
      using Suc.prems assms(1) by (auto simp: Let_def split: json.splits if_splits)
  qed (use Suc.prems in auto)
qed simp

end
