(* ===== verification/Detection.thy ===== *)
theory Detection
  imports Bakong Operators
begin

text \<open>
  Detecting a settlement: the question to ABA's hosted checkout (\<^verbatim>\<open>fetch_hosted_status\<close> in
  \<^verbatim>\<open>src/src/chmabapay/services/payway_parser.py\<close>), the reconciliation of one payment against the rails
  (\<^verbatim>\<open>src/src/chmabapay/services/status_reconciler.py\<close>), the worker W1 that runs it over the unsettled
  payments (\<^verbatim>\<open>src/src/chmabapay/workers/w1_payment_detection.py\<close>), and the operator's button for it.

  The HTTP answers of ABA, the network of the Bakong client and the link page are fields of \<open>rails\<close>.  The
  text of a refusal by ABA and the text of a nested value stand for what Python prints.  Amounts are
  compared as exact decimals, where the code compares floats.  A settlement that raises is swallowed by
  the reconciliation, and its caller goes on with the session as the settlement left it: with the writes
  made before the exception, which the caller commits, or, when the database refused a write, with
  a transaction that can only be rolled back, so that the caller raises in turn.

  Lemmas: a payment is settled only on the rail's word and for the amount asked; nothing else moves but the
  history and the end of the watch of the payment looked at; the last look at a hosted session ends the
  watch, which no later request reopens, and wakes a human exactly when ABA gave no answer; a sweep covers
  the oldest unsettled payments in the window.
\<close>

section \<open>ABA's hosted checkout\<close>

text \<open>\<open>str\<close> of a JSON value.\<close>

fun py_str :: "json \<Rightarrow> string" where
  "py_str (JStr s) = s"
| "py_str (JInt n) = int_str n"
| "py_str (JFloat s) = s"
| "py_str JNull = ''None''"
| "py_str (JBool b) = (if b then ''True'' else ''False'')"
| "py_str v = json_dumps v"

text \<open>The status code, the text and the parsed body of a response, or the text of the exception.\<close>

datatype http_answer = Http int string "json option" | Http_raised string

definition HOSTED_ACTION_APPROVED :: string where "HOSTED_ACTION_APPROVED = ''approved''"

definition hosted_json :: "http_answer \<Rightarrow> string \<Rightarrow> string + json" where
  "hosted_json res label =
     (case res of
        Http_raised e \<Rightarrow> Inl e
      | Http sc text body \<Rightarrow>
          if sc \<ge> 400 then Inl (label @ ''_http_'' @ int_str sc @ '': '' @ take 200 text)
          else case body of
                 None \<Rightarrow> Inl (label @ ''_not_json: '' @ take 200 text)
               | Some payload \<Rightarrow>
                   (case payload of
                      JObj _ \<Rightarrow>
                        (case jfield payload ''status'' of
                           JObj kvs \<Rightarrow>
                             if py_str (jfield (JObj kvs) ''code'') \<in> {''00'', ''0'', ''''} then Inr payload
                             else Inl (label @ ''_rejected'')
                         | _ \<Rightarrow> Inr payload)
                    | _ \<Rightarrow> Inl (label @ ''_unexpected_shape'')))"

record hosted_status =
  hs_action :: string
  hs_paid :: bool
  hs_receipt_url :: json
  hs_tran_id :: json
  hs_raw :: json

text \<open>\<open>(v or {}).get(k)\<close>, \<open>None\<close> when the value has no such method.\<close>

definition get_or :: "json \<Rightarrow> string \<Rightarrow> json option" where
  "get_or v k = (case json_or v (JObj []) of JObj kvs \<Rightarrow> Some (jfield (JObj kvs) k) | _ \<Rightarrow> None)"

definition tran_id_of :: "json \<Rightarrow> json \<Rightarrow> json option" where
  "tran_id_of payload body =
     (case get_or (jfield payload ''status'') ''tran_id'' of
        None \<Rightarrow> None
      | Some t \<Rightarrow> if json_truthy t then Some t else get_or (jfield body ''message'') ''tran_id'')"

definition fetch_hosted_status ::
  "(string \<Rightarrow> string \<Rightarrow> string \<Rightarrow> http_answer) \<Rightarrow> string \<Rightarrow> string \<Rightarrow> string \<Rightarrow> string + hosted_status"
where
  "fetch_hosted_status http client_id request_time token =
     (case hosted_json (http client_id request_time token) ''check_payment_status'' of
        Inl e \<Rightarrow> Inl e
      | Inr payload \<Rightarrow>
          (let body = json_or (jfield payload ''data'') (JObj []) in
           case body of
             JObj _ \<Rightarrow>
               (case tran_id_of payload body of
                  None \<Rightarrow> Inl ''AttributeError''
                | Some t \<Rightarrow>
                    (let action = py_str (json_or (jfield body ''action'') (JStr ''''))
                     in Inr \<lparr>hs_action = action, hs_paid = (action = HOSTED_ACTION_APPROVED),
                        hs_receipt_url = json_or (jfield body ''download_receipt'') (jfield body ''download_receipt_url''),
                        hs_tran_id = t, hs_raw = payload\<rparr>))
           | _ \<Rightarrow> Inl ''AttributeError''))"

section \<open>One payment against the rails\<close>

record rails =
  ra_hosted :: "string \<Rightarrow> string \<Rightarrow> string \<Rightarrow> http_answer"
  ra_bakong :: bakong_config
  ra_net :: bakong_net
  ra_depth :: nat
  ra_api_token :: "string option"
  ra_page :: "string \<Rightarrow> payment \<Rightarrow> string + (string list \<times> string)"

datatype rail_status = PAID | PENDING | FAILED | UNKNOWN

record reconcile_result =
  rr_status :: rail_status
  rr_source :: "string option"
  rr_matched_amount :: json
  rr_signals :: "string list"
  rr_bakong_tx :: "bakong_transaction option"
  rr_transitioned_to_paid :: bool
  rr_error :: "string option"

definition STATUS_SOURCE_BAKONG_OPEN_API :: string where "STATUS_SOURCE_BAKONG_OPEN_API = ''bakong_open_api''"
definition STATUS_SOURCE_PAYWAY_HOSTED :: string where "STATUS_SOURCE_PAYWAY_HOSTED = ''payway_hosted_checkout''"

definition metadata_hint :: "string list \<Rightarrow> payment \<Rightarrow> string option" where
  "metadata_hint keys p =
     List.find (\<lambda>v. v \<noteq> []) (map (\<lambda>k. case jfield (case pay_metadata p of None \<Rightarrow> JNull | Some m \<Rightarrow> m) k of
       JStr s \<Rightarrow> s | _ \<Rightarrow> []) keys)"

definition payment_is_aba_payway_link :: "payment \<Rightarrow> bool \<times> string option" where
  "payment_is_aba_payway_link p =
     (case metadata_hint [''aba_payway_slug'', ''payway_slug'', ''link_slug''] p of
        Some v \<Rightarrow> (True, Some v)
      | None \<Rightarrow>
          (case metadata_hint [''aba_payway_url'', ''payway_url'', ''payway_link_url''] p of
             Some v \<Rightarrow> (True, Some v)
           | None \<Rightarrow>
               (py_contains ''abaakhppxxx@abaa'' (pay_qr_string p) \<or> py_contains ''PAYWAY@ABA'' (pay_qr_string p), None)))"

text \<open>\<open>cents / 100.0\<close> as Python prints it.\<close>

definition cents_float :: "int \<Rightarrow> string" where
  "cents_float c =
     int_str (c div 100) @ ''.'' @
     (if c mod 100 mod 10 = 0 then int_str (c mod 100 div 10) else pad0 2 (int_str (c mod 100)))"

definition expected_amount_usd :: "payment \<Rightarrow> json option" where
  "expected_amount_usd p = (if pay_amount_cents p = 0 then None else Some (JFloat (cents_float (pay_amount_cents p))))"

definition hosted_handle :: "payment \<Rightarrow> json option" where
  "hosted_handle p =
     (case jfield (case pay_gateway_status_raw p of None \<Rightarrow> JNull | Some g \<Rightarrow> g) ''payway_hosted'' of
        JObj kvs \<Rightarrow> if kvs = [] then None else Some (JObj kvs)
      | _ \<Rightarrow> None)"

definition handle_text :: "json \<Rightarrow> string \<Rightarrow> string" where
  "handle_text h k = py_str (json_or (jfield h k) (JStr ''''))"

definition ask_hosted :: "rails \<Rightarrow> json \<Rightarrow> string + hosted_status" where
  "ask_hosted ra h =
     fetch_hosted_status (ra_hosted ra) (handle_text h ''client_id'') (handle_text h ''request_time'') (handle_text h ''token'')"

fun exc_text :: "exc \<Rightarrow> string" where
  "exc_text (HTTPException sc text) = int_str sc @ '': '' @ text"
| "exc_text (ValueError text) = text"
| "exc_text (RuntimeError text) = text"

text \<open>What the session holds when \<open>mark_paid\<close> raises: the payment row is already paid when its store is
  missing, the usage is booked as well when several invoices claim the payment, and a write the database
  refuses (the only other exception of \<open>mark_paid\<close>) leaves \<open>None\<close>, a transaction to roll back.\<close>

definition session_after_raise :: "string \<Rightarrow> string option \<Rightarrow> json option \<Rightarrow> instant \<Rightarrow> instant \<Rightarrow> db \<Rightarrow> db option" where
  "session_after_raise public_id ref raw now approved d =
     (case scalar_one_or_none (filter (\<lambda>p. pay_public_id p = public_id) (payments d)) of
        Inl _ \<Rightarrow> Some d
      | Inr None \<Rightarrow> Some d
      | Inr (Some p) \<Rightarrow>
          (let p' = paid_row ref raw now approved p;
               d1 = mod_payment (pay_id p) (paid_row ref raw now approved) d
           in case store_of p' d1 of
                Inl _ \<Rightarrow> Some d1
              | Inr st \<Rightarrow>
                  (let d2 = (if st_is_internal st then d1
                             else record_plan_ledger_entry (st_account_id st) p' False now d1)
                   in case scalar_one_or_none (filter (\<lambda>i. inv_payment_id i = Some (pay_id p)) (plan_invoices d2)) of
                        Inl _ \<Rightarrow> Some d2
                      | Inr _ \<Rightarrow> None)))"

text \<open>A settlement attempted inside the reconciliation: what it raises is kept as a text.  The database of
  the result is what the caller's session holds, \<open>None\<close> when it can only be rolled back.\<close>

definition settle_try ::
  "string \<Rightarrow> ambient \<Rightarrow> string \<Rightarrow> string option \<Rightarrow> json \<Rightarrow> reconcile_result \<Rightarrow> db \<Rightarrow> reconcile_result \<times> db option"
where
  "settle_try tag am public_id ref raw rr d =
     (case mark_paid (am_settings am) public_id ref (Some raw) (am_eid am) (am_now am) (am_approved am) d of
        Inl e \<Rightarrow> (rr\<lparr>rr_error := Some (tag @ exc_text e)\<rparr>,
          session_after_raise public_id ref (Some raw) (am_now am) (am_approved am) d)
      | Inr (settled, d') \<Rightarrow> (rr\<lparr>rr_transitioned_to_paid := settled \<noteq> None\<rparr>, Some d'))"

definition json_text_opt :: "json \<Rightarrow> string option" where
  "json_text_opt v = (if v = JNull then None else Some (py_str v))"

definition opt_json_str :: "string option \<Rightarrow> json" where
  "opt_json_str x = (case x of None \<Rightarrow> JNull | Some s \<Rightarrow> JStr s)"

definition hosted_evidence :: "json \<Rightarrow> hosted_status \<Rightarrow> json" where
  "hosted_evidence h hs = JObj [(''payway_hosted'', h), (''hosted_action'', JStr (hs_action hs)),
     (''hosted_status'', hs_raw hs), (''receipt_url'', hs_receipt_url hs)]"

definition base_result :: reconcile_result where
  "base_result = \<lparr>rr_status = UNKNOWN, rr_source = None, rr_matched_amount = JNull, rr_signals = [],
     rr_bakong_tx = None, rr_transitioned_to_paid = False, rr_error = None\<rparr>"

definition hosted_stage :: "rails \<Rightarrow> ambient \<Rightarrow> bool \<Rightarrow> json \<Rightarrow> payment \<Rightarrow> db \<Rightarrow> reconcile_result \<times> db option" where
  "hosted_stage ra am with_session h p d =
     (case ask_hosted ra h of
        Inl e \<Rightarrow>
          (base_result\<lparr>rr_status := PENDING, rr_source := Some STATUS_SOURCE_PAYWAY_HOSTED,
             rr_signals := [''hosted_status_error:'' @ e],
             rr_error := Some ''payway_hosted_unavailable: ABA did not answer for this session; retry''\<rparr>, Some d)
      | Inr hs \<Rightarrow>
          if hs_paid hs
          then let rr = base_result\<lparr>rr_status := PAID, rr_source := Some STATUS_SOURCE_PAYWAY_HOSTED,
                      rr_matched_amount := (case expected_amount_usd p of None \<Rightarrow> JNull | Some a \<Rightarrow> a),
                      rr_signals := [''hosted_action:'' @ hs_action hs, ''resolved_via:payway_hosted'']\<rparr>
               in if with_session \<and> pay_status p \<in> {PAYMENT_PENDING, PAYMENT_SCANNED, PAYMENT_EXPIRED, PAYMENT_SUPERSEDED}
                  then settle_try ''mark_paid_hosted:'' am (pay_public_id p)
                         (json_text_opt (json_or (hs_tran_id hs) (opt_json_str (pay_bakong_ref p))))
                         (hosted_evidence h hs) rr d
                  else (rr, Some d)
          else (base_result\<lparr>rr_status := PENDING, rr_source := Some STATUS_SOURCE_PAYWAY_HOSTED,
                  rr_signals := [''hosted_action:'' @ hs_action hs]\<rparr>, Some d))"

text \<open>The ledger: which receipt is asked for, and what its answer adds to the trail.\<close>

definition payment_receipt :: "payment \<Rightarrow> receipt" where
  "payment_receipt p =
     \<lparr>rc_short_hash = None, rc_amount = expected_amount_usd p,
      rc_currency = Some (if pay_currency p = [] then ''USD'' else pay_currency p),
      rc_purchase_number = Some (pay_bill_number p), rc_reference_number = pay_reference_id p,
      rc_transaction_id = None, rc_apv_number = None, rc_remark = None, rc_md5 = pay_qr_md5 p,
      rc_full_hash = pay_bakong_ref p, rc_require_status = None\<rparr>"

definition bakong_not_configured :: string where
  "bakong_not_configured = ''bakong_not_configured: the Bakong Open API rejected our credentials, so '' @
     ''payment status cannot be determined. Set BAKONG_API_TOKEN, or '' @
     ''BAKONG_DEVELOPER_EMAIL so a token can be renewed automatically.''"

fun bakong_exc_text :: "bakong_exc \<Rightarrow> string" where
  "bakong_exc_text (BakongApiError m _ _) = py_str m"
| "bakong_exc_text (TransportError m) = m"
| "bakong_exc_text (OtherError m) = m"

definition ledger_signals :: "bakong_exc + receipt_verify_result \<Rightarrow> string list" where
  "ledger_signals x =
     (case x of
        Inl e \<Rightarrow> if refused_credential e then [''bakong_unauthorized''] else [''bakong_check_error:'' @ bakong_exc_text e]
      | Inr rv \<Rightarrow>
          (case rv_transaction rv of
             None \<Rightarrow> []
           | Some tx \<Rightarrow> [''bakong_found_via:'' @ or_str (rv_via rv) [] @ '' status='' @ py_str (bt_status tx)]))"

definition ledger_error :: "bakong_exc + receipt_verify_result \<Rightarrow> string option" where
  "ledger_error x = (case x of Inl e \<Rightarrow> if refused_credential e then Some bakong_not_configured else None | Inr _ \<Rightarrow> None)"

definition ledger_tx :: "bakong_exc + receipt_verify_result \<Rightarrow> bakong_transaction option" where
  "ledger_tx x = (case x of Inl _ \<Rightarrow> None | Inr rv \<Rightarrow> rv_transaction rv)"

text \<open>The value or the empty text, \<open>None\<close> when it is not a text: then \<open>lower\<close> and \<open>upper\<close> raise.\<close>

definition text_or_empty :: "json \<Rightarrow> string option" where
  "text_or_empty v = (case json_or v (JStr []) of JStr s \<Rightarrow> Some s | _ \<Rightarrow> None)"

definition SETTLED_WORDS :: "string set" where "SETTLED_WORDS = {''success'', ''completed'', ''paid''}"

definition FAILED_WORDS :: "string set" where
  "FAILED_WORDS = {''failed'', ''rejected'', ''cancelled'', ''canceled'', ''refunded''}"

text \<open>\<open>float\<close> on a JSON value.\<close>

fun json_float :: "json \<Rightarrow> rat option" where
  "json_float (JStr s) = decimal s"
| "json_float v = json_number v"

definition amount_matches :: "payment \<Rightarrow> json \<Rightarrow> bool" where
  "amount_matches p v =
     (case json_float v of None \<Rightarrow> False | Some x \<Rightarrow> \<bar>x - of_int (pay_amount_cents p) / 100\<bar> < 5 / 1000)"

definition our_currency :: "payment \<Rightarrow> string" where
  "our_currency p = py_upper (if pay_currency p = [] then ''USD'' else pay_currency p)"

text \<open>The check before a ledger settlement: the decision and its signal.\<close>

definition amount_check :: "payment \<Rightarrow> bakong_transaction \<Rightarrow> string \<Rightarrow> bool \<times> string list" where
  "amount_check p tx tx_currency =
     (if tx_currency \<noteq> [] \<and> tx_currency \<noteq> our_currency p
      then (True, [''amount_check_skipped:settled_in='' @ tx_currency @ '' expected='' @ our_currency p])
      else case expected_amount_usd p of
             None \<Rightarrow> (True, [])
           | Some a \<Rightarrow>
               if bt_amount tx = JNull \<or> amount_matches p (bt_amount tx) then (True, [])
               else (False, [''amount_mismatch:ledger='' @ py_str (bt_amount tx) @ '' expected='' @ py_str a]))"

definition ledger_evidence :: "bakong_exc + receipt_verify_result \<Rightarrow> bakong_transaction \<Rightarrow> json" where
  "ledger_evidence x tx =
     (case x of
        Inl _ \<Rightarrow> JNull
      | Inr rv \<Rightarrow> JObj [(''reconciled_via'', JStr (''bakong_open_api:'' @ or_str (rv_via rv) ''None'')),
          (''bakong'', bt_raw tx), (''via'', opt_json_str (rv_via rv)), (''attempts'', JList (rv_attempts rv))])"

definition ledger_settle ::
  "ambient \<Rightarrow> bool \<Rightarrow> bakong_exc + receipt_verify_result \<Rightarrow> bakong_transaction \<Rightarrow> payment \<Rightarrow> reconcile_result \<Rightarrow> db \<Rightarrow>
     reconcile_result \<times> db option"
where
  "ledger_settle am with_session x tx p rr d =
     (if \<not> (with_session \<and> pay_status p \<in> {PAYMENT_PENDING, PAYMENT_SCANNED}) then (rr, Some d)
      else case text_or_empty (bt_currency tx) of
             None \<Rightarrow> (rr\<lparr>rr_error := Some ''mark_paid_bakong:AttributeError''\<rparr>, Some d)
           | Some cur \<Rightarrow>
               (case amount_check p tx (py_upper cur) of
                  (ok, sigs) \<Rightarrow>
                    (let rr1 = rr\<lparr>rr_signals := rr_signals rr @ sigs\<rparr> in
                     if ok
                     then settle_try ''mark_paid_bakong:'' am (pay_public_id p)
                            (json_text_opt (json_or (bt_hash tx) (json_or (bt_md5 tx) (opt_json_str (pay_bakong_ref p)))))
                            (ledger_evidence x tx) rr1 d
                     else (rr1, Some d))))"

text \<open>The link page adds signals and decides nothing.\<close>

definition page_signals :: "rails \<Rightarrow> string option \<Rightarrow> string option \<Rightarrow> bool \<Rightarrow> payment \<Rightarrow> string list" where
  "page_signals ra slug_hint client_hint prefer_aba p =
     (let slug = or_str slug_hint (or_str (snd (payment_is_aba_payway_link p)) []) in
      if prefer_aba \<and> (slug \<noteq> [] \<or> or_str client_hint [] \<noteq> [])
      then (case ra_page ra slug p of
              Inl e \<Rightarrow> [''aba_check_error:'' @ e]
            | Inr (sigs, status) \<Rightarrow> sigs @ [''aba_page_status_ignored:'' @ status])
      else [])"

definition ledger_stage ::
  "ambient \<Rightarrow> bool \<Rightarrow> string list \<Rightarrow> bakong_exc + receipt_verify_result \<Rightarrow> payment \<Rightarrow> db \<Rightarrow> (reconcile_result \<times> db option) result"
where
  "ledger_stage am with_session seen x p d =
     (let rr = base_result\<lparr>rr_signals := ledger_signals x, rr_error := ledger_error x, rr_bakong_tx := ledger_tx x\<rparr> in
      case ledger_tx x of
        None \<Rightarrow> Inr (rr\<lparr>rr_status := PENDING, rr_signals := rr_signals rr @ seen\<rparr>, Some d)
      | Some tx \<Rightarrow>
          (case text_or_empty (bt_status tx) of
             None \<Rightarrow> Inl (RuntimeError ''AttributeError'')
           | Some st \<Rightarrow>
               if py_lower st \<in> SETTLED_WORDS
               then Inr (ledger_settle am with_session x tx p
                      (rr\<lparr>rr_status := PAID, rr_source := Some STATUS_SOURCE_BAKONG_OPEN_API,
                          rr_matched_amount := json_or (bt_amount tx) (case expected_amount_usd p of None \<Rightarrow> JNull | Some a \<Rightarrow> a),
                          rr_signals := rr_signals rr @ [''resolved_via:bakong_open_api'']\<rparr>) d)
               else Inr (rr\<lparr>rr_status := (if py_lower st \<in> FAILED_WORDS then FAILED else PENDING),
                      rr_source := Some STATUS_SOURCE_BAKONG_OPEN_API, rr_matched_amount := bt_amount tx,
                      rr_signals := rr_signals rr @ seen\<rparr>, Some d)))"

definition reconcile_payment ::
  "rails \<Rightarrow> ambient \<Rightarrow> bool \<Rightarrow> string option \<Rightarrow> string option \<Rightarrow> bool \<Rightarrow> payment \<Rightarrow> db \<Rightarrow> bakong_client \<Rightarrow>
     (reconcile_result \<times> db option) result \<times> bakong_client"
where
  "reconcile_payment ra am with_session slug_hint client_hint prefer_aba p d c =
     (case hosted_handle p of
        Some h \<Rightarrow> (Inr (hosted_stage ra am with_session h p d), c)
      | None \<Rightarrow>
          (case verify_receipt (ra_bakong ra) (ra_net ra) (ra_depth ra) (payment_receipt p) c of
             (x, c') \<Rightarrow> (ledger_stage am with_session (page_signals ra slug_hint client_hint prefer_aba p) x p d, c')))"

section \<open>The worker W1\<close>

definition ORPHAN_BATCH :: int where "ORPHAN_BATCH = 20"
definition FINAL_BATCH :: int where "FINAL_BATCH = 20"

record w1_job =
  wj_orphan_scan :: bool
  wj_payment_public_id :: "string option"
  wj_key_mode :: "string option"
  wj_final :: bool
  wj_max_age_seconds :: "int option"
  wj_batch_size :: "int option"
  wj_job_id :: string

definition has_hosted_session :: "payment \<Rightarrow> bool" where
  "has_hosted_session p =
     (case jfield (case pay_gateway_status_raw p of None \<Rightarrow> JNull | Some g \<Rightarrow> g) ''payway_hosted'' of JObj _ \<Rightarrow> True | _ \<Rightarrow> False)"

definition append_attempt :: "int \<Rightarrow> json \<Rightarrow> db \<Rightarrow> db" where
  "append_attempt payment_id entry d = mod_payment payment_id (add_attempt entry) d"

text \<open>\<open>round\<close>: to the nearest integer, ties to the even one.\<close>

definition round_half_even :: "rat \<Rightarrow> int" where
  "round_half_even x =
     (let f = \<lfloor>x\<rfloor>; rest = x - of_int f in
      if rest < 1 / 2 then f else if rest > 1 / 2 then f + 1 else if even f then f else f + 1)"

text \<open>The cents of a matched amount; \<open>None\<close> when it is no number, which raises.\<close>

definition matched_cents :: "json \<Rightarrow> json option" where
  "matched_cents v =
     (if v = JNull then Some JNull else map_option (\<lambda>x. JInt (round_half_even (x * 100))) (json_number v))"

record w1_attempt =
  at_source :: string
  at_matched :: json
  at_signals :: "string list"
  at_note :: string
  at_transitioned :: "bool option"
  at_closed :: bool

definition attempt_start :: w1_attempt where
  "attempt_start = \<lparr>at_source = ''w1_detection_start'', at_matched = JNull, at_signals = [], at_note = [],
     at_transitioned = None, at_closed = False\<rparr>"

definition attempt_json :: "instant \<Rightarrow> w1_attempt \<Rightarrow> json" where
  "attempt_json now a = JObj
     ([(''source'', JStr (at_source a)), (''attempt_at'', JInt now), (''matched_amount_cents'', at_matched a),
       (''signals'', JList (map JStr (at_signals a))), (''note'', JStr (at_note a))] @
      (case at_transitioned a of None \<Rightarrow> [] | Some b \<Rightarrow> [(''transitioned'', JBool b)]) @
      (if at_closed a then [(''final'', JBool True), (''detection_closed_at'', JInt now)] else []))"

definition status_name :: "rail_status \<Rightarrow> string" where
  "status_name st = (case st of PAID \<Rightarrow> ''PAID'' | PENDING \<Rightarrow> ''PENDING'' | FAILED \<Rightarrow> ''FAILED'' | UNKNOWN \<Rightarrow> ''UNKNOWN'')"

text \<open>What the attempt records of a result; \<open>None\<close> is the exception of an amount that is no number, after
  the signals and the source were recorded.\<close>

definition attempt_of :: "reconcile_result \<Rightarrow> w1_attempt option" where
  "attempt_of rr =
     map_option (\<lambda>m. \<lparr>at_source = or_str (rr_source rr) ''bakong_open_api'', at_matched = m, at_signals = rr_signals rr,
         at_note = (if or_str (rr_error rr) [] = [] then status_name (rr_status rr) else take 120 (or_str (rr_error rr) [])),
         at_transitioned = Some (rr_transitioned_to_paid rr), at_closed = False\<rparr>)
       (matched_cents (rr_matched_amount rr))"

definition alert_unknown :: "payment \<Rightarrow> string \<Rightarrow> string \<times> string" where
  "alert_unknown p e = (''payment outcome unknown'',
     pay_public_id p @ '' left the detection window without a usable answer from the rail ('' @ take 200 e @
     ''). The customer may have paid: check the merchant's ABA account before treating this sale as lost.'')"

definition close_detection_window ::
  "payment \<Rightarrow> reconcile_result \<Rightarrow> w1_attempt \<Rightarrow> w1_attempt \<times> (string \<times> string) option"
where
  "close_detection_window p rr a =
     (let a1 = a\<lparr>at_closed := True\<rparr>; e = or_str (rr_error rr) [] in
      if rr_status rr = PAID then (a1\<lparr>at_note := ''closed: settled''\<rparr>, None)
      else if e \<noteq> [] then (a1\<lparr>at_note := ''closed unresolved: '' @ take 160 e\<rparr>, Some (alert_unknown p e))
      else (a1\<lparr>at_note := ''closed: rail answered, not paid''\<rparr>, None))"

text \<open>What a job ends with: it was skipped, it raised, or it looked, with the alert it sends after its
  commit.\<close>

datatype w1_answer =
    W1_skipped string
  | W1_raised string
  | W1_done rail_status bool "(string \<times> string) option"
  | W1_test_mode "payment_status option"

definition set_closed :: "instant \<Rightarrow> payment \<Rightarrow> payment" where
  "set_closed now p = p\<lparr>pay_detection_closed_at := Some now\<rparr>"

text \<open>The reconciliation of a loaded payment: the attempt is recorded whatever happens, and committed, unless
  the session can only be rolled back, where reading the row again raises.\<close>

definition look :: "rails \<Rightarrow> ambient \<Rightarrow> bool \<Rightarrow> payment \<Rightarrow> db \<Rightarrow> bakong_client \<Rightarrow> w1_answer \<times> db \<times> bakong_client" where
  "look ra am final p d c =
     (case reconcile_payment ra am True None None True p d c of
        (Inl e, c1) \<Rightarrow>
          (W1_raised (exc_text e), append_attempt (pay_id p) (attempt_json (am_now am) attempt_start) d, c1)
      | (Inr (rr, None), c1) \<Rightarrow> (W1_raised ''PendingRollbackError'', d, c1)
      | (Inr (rr, Some d1), c1) \<Rightarrow>
          (case attempt_of rr of
             None \<Rightarrow> (W1_raised ''TypeError'', append_attempt (pay_id p) (attempt_json (am_now am)
                 (attempt_start\<lparr>at_signals := rr_signals rr, at_source := or_str (rr_source rr) ''bakong_open_api''\<rparr>)) d1, c1)
           | Some a \<Rightarrow>
               (if final
                then (case close_detection_window p rr a of
                        (a1, alert) \<Rightarrow>
                          (W1_done (rr_status rr) (rr_transitioned_to_paid rr) alert,
                           append_attempt (pay_id p) (attempt_json (am_now am) a1)
                             (mod_payment (pay_id p) (set_closed (am_now am)) d1), c1))
                else (W1_done (rr_status rr) (rr_transitioned_to_paid rr) None,
                      append_attempt (pay_id p) (attempt_json (am_now am) a) d1, c1))))"

definition test_attempt :: "instant \<Rightarrow> payment \<Rightarrow> json" where
  "test_attempt now p = JObj
     [(''source'', JStr ''test-mode-fake-delay''), (''attempt_at'', JInt now), (''matched_amount_cents'', JInt (pay_amount_cents p)),
      (''signals'', JList [JStr ''mock_delay_5s'', JStr ''ttl_bypassed'']),
      (''note'', JStr ''dev test mode; no Bakong/ABA network call made'')]"

definition test_mode_bypass :: "ambient \<Rightarrow> string \<Rightarrow> string \<Rightarrow> db \<Rightarrow> w1_answer \<times> db" where
  "test_mode_bypass am job_id public_id d =
     (case scalar_one_or_none (filter (\<lambda>p. pay_public_id p = public_id) (payments d)) of
        Inl e \<Rightarrow> (W1_raised (exc_text e), d)
      | Inr None \<Rightarrow> (W1_test_mode None, d)
      | Inr (Some p) \<Rightarrow>
          (let settle = (if pay_status p \<in> {PAYMENT_PENDING, PAYMENT_SCANNED}
             then mark_paid (am_settings am) public_id (Some (''test:'' @ public_id))
                    (Some (JObj [(''source'', JStr ''test-mode-fake-delay''), (''slept_for_seconds'', JInt 5), (''job_id'', JStr job_id)]))
                    (am_eid am) (am_now am) (am_approved am) d
             else Inr (None, d))
           in case settle of
                Inl e \<Rightarrow> (W1_raised (exc_text e), d)
              | Inr (_, d1) \<Rightarrow>
                  (W1_test_mode (map_option pay_status (tget pay_id (pay_id p) (payments d1))),
                   append_attempt (pay_id p) (test_attempt (am_now am) p) d1)))"

text \<open>\<open>_process_one\<close> on a job that names a payment.\<close>

definition detect :: "rails \<Rightarrow> ambient \<Rightarrow> w1_job \<Rightarrow> db \<Rightarrow> bakong_client \<Rightarrow> w1_answer \<times> db \<times> bakong_client" where
  "detect ra am j d c =
     (let public_id = or_str (wj_payment_public_id j) [] in
      if public_id = [] then (W1_raised ''missing payment_public_id in job payload'', d, c)
      else if wj_key_mode j = Some ''test''
      then (case test_mode_bypass am (wj_job_id j) public_id d of (x, d1) \<Rightarrow> (x, d1, c))
      else case scalar_one_or_none (filter (\<lambda>p. pay_public_id p = public_id) (payments d)) of
             Inl e \<Rightarrow> (W1_raised (exc_text e), d, c)
           | Inr None \<Rightarrow> (W1_skipped ''payment_not_found'', d, c)
           | Inr (Some p) \<Rightarrow>
               if \<not> settleable (pay_status p) then (W1_skipped (''already_'' @ status_value (pay_status p)), d, c)
               else if \<not> has_hosted_session p \<and> or_str (ra_api_token ra) [] = [] \<and> or_str (bk_developer_email (ra_bakong ra)) [] = []
               then (W1_raised ''bakong credentials missing'', d, c)
               else look ra am (wj_final j) p d c)"

definition watched :: "payment \<Rightarrow> bool" where
  "watched p \<longleftrightarrow> pay_status p \<in> {PAYMENT_PENDING, PAYMENT_SCANNED, PAYMENT_EXPIRED, PAYMENT_SUPERSEDED}"

definition detection_window :: "settings \<Rightarrow> int" where
  "detection_window s = seconds (detection_window_seconds s)"

definition orphan_ids :: "settings \<Rightarrow> instant \<Rightarrow> int option \<Rightarrow> int option \<Rightarrow> db \<Rightarrow> string list" where
  "orphan_ids s now max_age batch d =
     (let n = (case batch of None \<Rightarrow> ORPHAN_BATCH | Some b \<Rightarrow> if b = 0 then ORPHAN_BATCH else b);
          young = (\<lambda>p. case max_age of None \<Rightarrow> True | Some a \<Rightarrow> a = 0 \<or> now - seconds a \<le> pay_created_at p)
      in map pay_public_id (limit n (sort_key pay_id
           (filter (\<lambda>p. watched p \<and> now - detection_window s \<le> pay_created_at p \<and> young p) (payments d)))))"

definition crossed_ids :: "settings \<Rightarrow> instant \<Rightarrow> db \<Rightarrow> string list" where
  "crossed_ids s now d =
     map pay_public_id (limit FINAL_BATCH (sort_key pay_id
       (filter (\<lambda>p. watched p \<and> pay_detection_closed_at p = None \<and>
           pay_created_at p < now - detection_window s \<and>
           now - detection_window s - detection_window s \<le> pay_created_at p) (payments d))))"

definition poll_job :: "bool \<Rightarrow> string \<Rightarrow> w1_job" where
  "poll_job final public_id =
     \<lparr>wj_orphan_scan = False, wj_payment_public_id = Some public_id, wj_key_mode = None, wj_final = final,
      wj_max_age_seconds = None, wj_batch_size = None, wj_job_id = []\<rparr>"

text \<open>The jobs a sweep puts on the queue, given whether there is a transport and which jobs it accepts.\<close>

definition orphan_scan :: "settings \<Rightarrow> instant \<Rightarrow> (w1_job \<Rightarrow> bool) option \<Rightarrow> w1_job \<Rightarrow> db \<Rightarrow> w1_job list" where
  "orphan_scan s now transport j d =
     (case transport of
        None \<Rightarrow> []
      | Some accepts \<Rightarrow>
          filter accepts (map (poll_job False) (orphan_ids s now (wj_max_age_seconds j) (wj_batch_size j) d) @
            map (poll_job True) (crossed_ids s now d)))"

section \<open>An operator asks the rail\<close>

definition source_json :: "reconcile_result \<Rightarrow> account \<Rightarrow> store \<Rightarrow> (string \<times> json) list" where
  "source_json rr a st =
     [(''rail_status'', JStr (status_name (rr_status rr))), (''source'', json_opt_str (rr_source rr)),
      (''transitioned_to_paid'', JBool (rr_transitioned_to_paid rr)), (''error'', json_opt_str (rr_error rr)),
      (''account_id'', JInt (acc_id a)), (''store_id'', JInt (st_id st))]"

definition reconcile_admin_payment ::
  "rails \<Rightarrow> ambient \<Rightarrow> account \<Rightarrow> string \<Rightarrow> db \<Rightarrow> bakong_client \<Rightarrow> (reconcile_result option \<times> db) result \<times> bakong_client"
where
  "reconcile_admin_payment ra am ctx public_id d c =
     (case load_admin_payment public_id d of
        Inl e \<Rightarrow> (Inl e, c)
      | Inr (p, st, a) \<Rightarrow>
          if pay_status p = PAYMENT_PAID then (Inr (None, d), c)
          else case reconcile_payment ra am True None None True p d c of
                 (Inl e, c1) \<Rightarrow> (Inl e, c1)
               | (Inr (rr, None), c1) \<Rightarrow> (Inl (RuntimeError ''PendingRollbackError''), c1)
               | (Inr (rr, Some d1), c1) \<Rightarrow>
                   (Inr (Some rr, audit_record (Some ctx) ''admin.payment_reconciled'' ''Payment'' (pay_id p) (source_json rr a st) d1), c1))"

section \<open>Only on the rail's word\<close>

definition hosted_approved :: "rails \<Rightarrow> payment \<Rightarrow> bool" where
  "hosted_approved ra p =
     (case hosted_handle p of
        None \<Rightarrow> False
      | Some h \<Rightarrow> (case ask_hosted ra h of Inl _ \<Rightarrow> False | Inr hs \<Rightarrow> hs_action hs = ''approved''))"

text \<open>The ledger holds a settled transaction for the receipt, in another currency or for the amount asked.\<close>

definition ledger_confirms :: "rails \<Rightarrow> bakong_client \<Rightarrow> payment \<Rightarrow> bool" where
  "ledger_confirms ra c p =
     (hosted_handle p = None \<and>
      (case fst (verify_receipt (ra_bakong ra) (ra_net ra) (ra_depth ra) (payment_receipt p) c) of
         Inl _ \<Rightarrow> False
       | Inr rv \<Rightarrow>
           (case rv_transaction rv of
              None \<Rightarrow> False
            | Some tx \<Rightarrow>
                (\<exists>st \<in> SETTLED_WORDS. map_option py_lower (text_or_empty (bt_status tx)) = Some st) \<and>
                (map_option py_upper (text_or_empty (bt_currency tx)) \<notin> {None, Some [], Some (our_currency p)} \<or>
                 bt_amount tx = JNull \<or> pay_amount_cents p = 0 \<or> amount_matches p (bt_amount tx)))))"

definition settled_by :: "ambient \<Rightarrow> string \<Rightarrow> db \<Rightarrow> db \<Rightarrow> bool" where
  "settled_by am public_id d d' \<longleftrightarrow>
     (\<exists>ref raw. handle_payment_request (am, Settle public_id ref raw) d = Inr d')"

text \<open>What a settlement that raised leaves in the session, and the rows that keep it from raising: the keys of
  the payments, and no two invoices for one payment.\<close>

definition half_settled_by :: "ambient \<Rightarrow> string \<Rightarrow> db \<Rightarrow> db \<Rightarrow> bool" where
  "half_settled_by am public_id d d' \<longleftrightarrow>
     (\<exists>ref raw. isl (mark_paid (am_settings am) public_id ref raw (am_eid am) (am_now am) (am_approved am) d) \<and>
        session_after_raise public_id ref raw (am_now am) (am_approved am) d = Some d')"

definition one_invoice_each :: "db \<Rightarrow> bool" where
  "one_invoice_each d \<longleftrightarrow>
     (\<forall>p \<in> set (payments d). length (filter (\<lambda>i. inv_payment_id i = Some (pay_id p)) (plan_invoices d)) \<le> 1)"

definition credited_by :: "ambient \<Rightarrow> string \<Rightarrow> db \<Rightarrow> db \<Rightarrow> bool" where
  "credited_by am public_id d d' \<longleftrightarrow> settled_by am public_id d d' \<or> half_settled_by am public_id d d'"

lemma scalar_one_or_none_short: "length xs \<le> 1 \<Longrightarrow> \<not> isl (scalar_one_or_none xs)"
  by (cases xs rule: remdups_adj.cases) simp_all

lemma filter_key_short: "distinct (map key t) \<Longrightarrow> length (filter (\<lambda>x. key x = k) t) \<le> 1"
  by (induction t) (auto simp: filter_empty_conv image_iff)

lemma no_half_settlement:
  assumes "payment_keys_ok d" "one_invoice_each d"
  shows "\<not> half_settled_by am pid d d'"
proof
  assume "half_settled_by am pid d d'"
  then obtain ref raw where raised: "isl (mark_paid (am_settings am) pid ref raw (am_eid am) (am_now am) (am_approved am) d)"
    and left: "session_after_raise pid ref raw (am_now am) (am_approved am) d = Some d'"
    by (auto simp: half_settled_by_def)
  show False
  proof (cases "\<exists>p. scalar_one_or_none (filter (\<lambda>p. pay_public_id p = pid) (payments d)) = Inr (Some p)")
    case True
    then obtain p where p: "scalar_one_or_none (filter (\<lambda>p. pay_public_id p = pid) (payments d)) = Inr (Some p)"
      by blast
    have mem: "p \<in> set (payments d)"
      using scalar_one_or_none_mem [OF p] by simp
    then obtain st where "tget st_id (pay_store_id p) (stores d) = Some st"
      using keys_okD(3) [OF assms(1) mem] by (cases "tget st_id (pay_store_id p) (stores d)") (auto simp: tget_def find_None_iff)
    moreover have "\<not> isl (scalar_one_or_none (filter (\<lambda>i. inv_payment_id i = Some (pay_id p)) (plan_invoices d)))"
      using assms(2) mem by (intro scalar_one_or_none_short) (auto simp: one_invoice_each_def)
    moreover have "plan_invoices (if b then mod_payment i f d else record_plan_ledger_entry a p' False t (mod_payment i f d)) =
        plan_invoices d" for b i f a p' t
      by (simp add: record_plan_ledger_entry_def mod_payment_def Let_def)
    ultimately show False
      using left p by (auto simp: session_after_raise_def store_of_def Let_def split: sum.splits)
  next
    case False
    have "length (filter (\<lambda>p. pay_public_id p = pid) (payments d)) \<le> 1"
      by (rule filter_key_short [OF keys_okD(2) [OF assms(1)]])
    then show False
      using raised False scalar_one_or_none_short
      by (cases "scalar_one_or_none (filter (\<lambda>p. pay_public_id p = pid) (payments d))") (force simp: mark_paid_def split: option.splits)+
  qed
qed

lemma settle_try_cases:
  assumes "settle_try tag am pid ref raw rr d = (rr', Some d')"
  shows "credited_by am pid d d'"
proof (cases "mark_paid (am_settings am) pid ref (Some raw) (am_eid am) (am_now am) (am_approved am) d")
  case (Inr r)
  then have "handle_payment_request (am, Settle pid ref (Some raw)) d = Inr d'"
    using assms by (simp add: settle_try_def split: prod.splits)
  then show ?thesis
    unfolding credited_by_def settled_by_def by blast
next
  case (Inl e)
  then show ?thesis
    using assms by (auto simp: credited_by_def half_settled_by_def settle_try_def intro!: exI [of _ ref] exI [of _ "Some raw"])
qed

lemma hosted_stage_cases:
  assumes "hosted_handle p = Some h" "hosted_stage ra am ws h p d = (rr, Some d')"
  shows "d' = d \<or> hosted_approved ra p \<and> credited_by am (pay_public_id p) d d'"
proof (cases "ask_hosted ra h")
  case (Inr hs)
  have "hs_paid hs \<longleftrightarrow> hs_action hs = ''approved''"
    using Inr by (auto simp: ask_hosted_def fetch_hosted_status_def HOSTED_ACTION_APPROVED_def Let_def
      split: sum.splits json.splits option.splits)
  then show ?thesis
    using assms Inr settle_try_cases [of _ am "pay_public_id p"]
    by (auto simp: hosted_stage_def hosted_approved_def Let_def split: if_splits)
qed (use assms in \<open>simp add: hosted_stage_def\<close>)

lemma amount_check_ok:
  assumes "amount_check p tx cur = (True, sigs)"
  shows "cur \<notin> {[], our_currency p} \<or> bt_amount tx = JNull \<or> pay_amount_cents p = 0 \<or> amount_matches p (bt_amount tx)"
  using assms by (auto simp: amount_check_def expected_amount_usd_def split: if_splits)

lemma ledger_settle_cases:
  assumes "ledger_settle am ws x tx p rr d = (rr', Some d')"
  shows "d' = d \<or> credited_by am (pay_public_id p) d d' \<and>
    (map_option py_upper (text_or_empty (bt_currency tx)) \<notin> {None, Some [], Some (our_currency p)} \<or>
     bt_amount tx = JNull \<or> pay_amount_cents p = 0 \<or> amount_matches p (bt_amount tx))"
proof (cases "text_or_empty (bt_currency tx)")
  case (Some cur)
  obtain ok sigs where chk: "amount_check p tx (py_upper cur) = (ok, sigs)"
    by force
  then show ?thesis
    using assms Some settle_try_cases [of _ am "pay_public_id p"] amount_check_ok [of p tx "py_upper cur" sigs]
    by (auto simp: ledger_settle_def Let_def split: if_splits)
qed (use assms in \<open>auto simp: ledger_settle_def split: if_splits\<close>)

lemma ledger_stage_cases:
  assumes "ledger_stage am ws seen x p d = Inr (rr, Some d')"
  shows "d' = d \<or> (\<exists>rv tx st. x = Inr rv \<and> rv_transaction rv = Some tx \<and> text_or_empty (bt_status tx) = Some st \<and>
    py_lower st \<in> SETTLED_WORDS \<and> credited_by am (pay_public_id p) d d' \<and>
    (map_option py_upper (text_or_empty (bt_currency tx)) \<notin> {None, Some [], Some (our_currency p)} \<or>
     bt_amount tx = JNull \<or> pay_amount_cents p = 0 \<or> amount_matches p (bt_amount tx)))"
proof (cases "ledger_tx x")
  case (Some tx)
  then obtain rv where rv: "x = Inr rv" "rv_transaction rv = Some tx"
    by (auto simp: ledger_tx_def split: sum.splits)
  show ?thesis
  proof (cases "text_or_empty (bt_status tx)")
    case (Some st)
    then show ?thesis
      using assms \<open>ledger_tx x = Some tx\<close> rv ledger_settle_cases [of am ws x tx p _ d rr d']
      by (auto simp: ledger_stage_def Let_def split: if_splits)
  qed (use assms Some in \<open>simp add: ledger_stage_def Let_def\<close>)
qed (use assms in \<open>simp add: ledger_stage_def Let_def\<close>)

lemma reconcile_cases:
  assumes "reconcile_payment ra am ws sh ch pa p d c = (Inr (rr, Some d'), c')"
  shows "d' = d \<or> (hosted_approved ra p \<or> ledger_confirms ra c p) \<and> credited_by am (pay_public_id p) d d'"
proof (cases "hosted_handle p")
  case None
  obtain x c1 where x: "verify_receipt (ra_bakong ra) (ra_net ra) (ra_depth ra) (payment_receipt p) c = (x, c1)"
    by force
  then have "ledger_stage am ws (page_signals ra sh ch pa p) x p d = Inr (rr, Some d')"
    using assms None by (simp add: reconcile_payment_def)
  then show ?thesis
    using None x by (auto simp: ledger_confirms_def dest!: ledger_stage_cases)
next
  case (Some h)
  then show ?thesis
    using assms hosted_stage_cases [OF Some, of ra am ws d rr d'] by (auto simp: reconcile_payment_def)
qed

text \<open>The columns a look writes by itself, on the payment it looks at and on no other: the history of attempts
  and the end of the watch.\<close>

definition own_columns :: "payment \<Rightarrow> payment" where
  "own_columns p = p\<lparr>pay_attempt_history := None, pay_detection_closed_at := None\<rparr>"

definition only_noted :: "int \<Rightarrow> db \<Rightarrow> db \<Rightarrow> bool" where
  "only_noted i d d' \<longleftrightarrow>
     tupd pay_id i own_columns (payments d') = tupd pay_id i own_columns (payments d) \<and> d' = d\<lparr>payments := payments d'\<rparr>"

lemma own_columns_simps [simp]:
  "own_columns (add_attempt e p) = own_columns p"
  "own_columns (set_closed now p) = own_columns p"
  by (simp_all add: own_columns_def add_attempt_def set_closed_def)

lemma only_noted_refl [simp]: "only_noted i d d"
  by (simp add: only_noted_def)

lemma only_noted_mod:
  assumes "only_noted i d d'" "\<And>p. own_columns (f p) = own_columns p"
  shows "only_noted i d (mod_payment i f d')"
proof -
  have "pay_id (f p) = pay_id p" for p
    using arg_cong [OF assms(2), of pay_id p] by (simp add: own_columns_def)
  then have "tupd pay_id i own_columns (tupd pay_id i f (payments d')) = tupd pay_id i own_columns (payments d')"
    by (simp add: tupd_def assms(2))
  moreover obtain t where "d' = d\<lparr>payments := t\<rparr>"
    using assms(1) unfolding only_noted_def by metis
  ultimately show ?thesis
    using assms(1) by (simp add: only_noted_def mod_payment_def)
qed

lemma only_noted_status: "only_noted i d d' \<Longrightarrow> map pay_status (payments d') = map pay_status (payments d)"
proof -
  have "map pay_status t = map pay_status (tupd pay_id i own_columns t)" for t
    by (simp add: own_columns_def tupd_def)
  then show "only_noted i d d' \<Longrightarrow> map pay_status (payments d') = map pay_status (payments d)"
    unfolding only_noted_def by metis
qed

lemma look_cases:
  assumes "look ra am final p d c = (x, d', c')"
  shows "\<exists>d1. only_noted (pay_id p) d1 d' \<and>
    (d1 = d \<or> (hosted_approved ra p \<or> ledger_confirms ra c p) \<and> credited_by am (pay_public_id p) d d1)"
proof (cases "reconcile_payment ra am True None None True p d c")
  case (Pair r c1)
  note noted = only_noted_mod [OF only_noted_refl] only_noted_mod [OF only_noted_mod [OF only_noted_refl]]
  show ?thesis
  proof (cases "\<exists>rr d1. r = Inr (rr, Some d1)")
    case False
    then have "only_noted (pay_id p) d d'"
      using assms Pair by (auto simp: look_def append_attempt_def intro: noted split: sum.splits option.splits)
    then show ?thesis
      by blast
  next
    case True
    then obtain rr d1 where y: "r = Inr (rr, Some d1)"
      by blast
    have "only_noted (pay_id p) d1 d'"
      using assms Pair y
      by (auto simp: look_def append_attempt_def intro: noted split: option.splits if_splits prod.splits)
    then show ?thesis
      using reconcile_cases [of ra am True None None True p d c rr d1 c1] Pair y by blast
  qed
qed

lemma detect_cases:
  assumes "wj_key_mode j \<noteq> Some ''test''" "detect ra am j d c = (x, d', c')"
  shows "d' = d \<or> (\<exists>p \<in> set (payments d). wj_payment_public_id j = Some (pay_public_id p) \<and> settleable (pay_status p) \<and>
    (\<exists>d1. only_noted (pay_id p) d1 d' \<and>
    (d1 = d \<or> (hosted_approved ra p \<or> ledger_confirms ra c p) \<and> credited_by am (pay_public_id p) d d1)))"
proof (cases "\<exists>p. scalar_one_or_none (filter (\<lambda>p. pay_public_id p = or_str (wj_payment_public_id j) []) (payments d)) = Inr (Some p)")
  case True
  then obtain p where p: "scalar_one_or_none (filter (\<lambda>p. pay_public_id p = or_str (wj_payment_public_id j) []) (payments d)) = Inr (Some p)"
    by blast
  have mem: "p \<in> set (payments d)" "pay_public_id p = or_str (wj_payment_public_id j) []"
    using scalar_one_or_none_mem [OF p] by simp_all
  show ?thesis
  proof (cases "look ra am (wj_final j) p d c = (x, d', c') \<and> settleable (pay_status p) \<and> or_str (wj_payment_public_id j) [] \<noteq> []")
    case True
    then have "wj_payment_public_id j = Some (pay_public_id p)"
      using mem(2) by (auto simp: or_str_def split: option.splits if_splits)
    then show ?thesis
      using True mem(1) look_cases [of ra am "wj_final j" p d c x d' c'] by blast
  next
    case False
    then show ?thesis
      using assms p by (auto simp: detect_def Let_def split: if_splits)
  qed
next
  case False
  then show ?thesis
    using assms by (auto simp: detect_def Let_def split: if_splits sum.splits option.splits)
qed

text \<open>C2. Detection credits money only on the rail's word.  Whatever a live job of W1 does to the database, it
  is nothing, or notes on the payment the job names (its history and the end of its watch, no other
  column and no other row), or the settlement of that payment followed by such notes, made because ABA's
  hosted checkout said it was approved or because the ledger holds a settled transaction for it in
  another currency or for the amount asked.  The settlement is the whole request every other caller
  makes; a half-made one, of a settlement that raised, is committed only from a database whose keys are
  broken or in which two invoices claim one payment.\<close>

theorem detection_settles_only_on_the_rails_word:
  assumes "wj_key_mode j \<noteq> Some ''test''"
  shows "let d' = fst (snd (detect ra am j d c)) in
    d' = d \<or>
    (\<exists>p \<in> set (payments d). wj_payment_public_id j = Some (pay_public_id p) \<and> settleable (pay_status p) \<and>
       (\<exists>d1. only_noted (pay_id p) d1 d' \<and>
          (d1 = d \<or>
           (hosted_approved ra p \<or> ledger_confirms ra c p) \<and>
           (settled_by am (pay_public_id p) d d1 \<or>
            half_settled_by am (pay_public_id p) d d1 \<and> \<not> (payment_keys_ok d \<and> one_invoice_each d)))))"
proof -
  obtain x d' c' where "detect ra am j d c = (x, d', c')"
    by (metis prod.exhaust)
  then show ?thesis
    using detect_cases [OF assms, of ra am d c x d' c'] no_half_settlement [of d am]
    unfolding credited_by_def Let_def by (metis fst_conv snd_conv)
qed

definition demo_handle :: json where
  "demo_handle = JObj [(''client_id'', JStr ''c1''), (''request_time'', JStr ''t1''), (''token'', JStr ''k1'')]"

definition demo_rails :: rails where
  "demo_rails = \<lparr>ra_hosted = (\<lambda>client_id _ _. Http 200 [] (Some (JObj
       [(''status'', JObj [(''code'', JStr ''00''), (''tran_id'', JStr ''T9'')]),
        (''data'', JObj [(''action'', JStr (if client_id = ''c1'' then ''approved'' else ''pending''))])]))),
     ra_bakong = \<lparr>bk_developer_email = None, bk_max_retries = 3\<rparr>, ra_net = (\<lambda>_ _ _ _. Unreachable ''timed out''),
     ra_depth = 10, ra_api_token = Some ''tok'', ra_page = (\<lambda>_ _. Inl ''no page'')\<rparr>"

definition demo_bakong :: bakong_client where
  "demo_bakong = \<lparr>bc_token = JStr ''tok'', bc_calls = 0\<rparr>"

definition hosted_db :: db where
  "hosted_db = till_db\<lparr>payments := [demo_payment\<lparr>pay_status := PAYMENT_EXPIRED,
     pay_gateway_status_raw := Some (JObj [(''payway_hosted'', demo_handle)])\<rparr>]\<rparr>"

theorem detection_settles_only_on_the_rails_word_witness:
  "let d' = fst (snd (detect demo_rails (at_time 400) (poll_job False ''abcdefghijklmnopqrstuvwx'') hosted_db demo_bakong)) in
     map pay_status (payments d') = [PAYMENT_PAID] \<and>
     (\<exists>p \<in> set (payments hosted_db). hosted_approved demo_rails p \<or> ledger_confirms demo_rails demo_bakong p)"
proof -
  let ?d = "fst (snd (detect demo_rails (at_time 400) (poll_job False ''abcdefghijklmnopqrstuvwx'') hosted_db demo_bakong))"
  have mode: "wj_key_mode (poll_job False ''abcdefghijklmnopqrstuvwx'') \<noteq> Some ''test''"
    by (simp add: poll_job_def)
  have paid: "map pay_status (payments ?d) = [PAYMENT_PAID]"
    by code_simp
  have expired: "map pay_status (payments hosted_db) = [PAYMENT_EXPIRED]"
    by code_simp
  have moved: "?d \<noteq> hosted_db" "\<not> only_noted i hosted_db ?d" for i
    using only_noted_status [of i hosted_db ?d] paid expired by auto
  from detection_settles_only_on_the_rails_word [OF mode, of demo_rails "at_time 400" hosted_db demo_bakong] moved paid
  show ?thesis
    unfolding Let_def by blast
qed

text \<open>A settlement that raises half-way is committed all the same: with two invoices on one payment the row ends
  up paid and its usage booked, while no event says so and no replacement is retired.\<close>

definition twice_claimed_db :: db where
  "twice_claimed_db = hosted_db\<lparr>plan_invoices := [demo_invoice\<lparr>inv_id := 1, inv_payment_id := Some 21\<rparr>,
     demo_invoice\<lparr>inv_id := 2, inv_payment_id := Some 21\<rparr>]\<rparr>"

lemma raised_settlement_is_committed_half_made:
  "let d' = fst (snd (detect demo_rails (at_time 400) (poll_job False ''abcdefghijklmnopqrstuvwx'') twice_claimed_db demo_bakong)) in
     map pay_status (payments d') = [PAYMENT_PAID] \<and> length (plan_ledger_entries d') = 1 \<and> events d' = []"
  by code_simp

section \<open>The last look\<close>

lemma crossed_ids_watch:
  "q \<in> set (crossed_ids s now d) \<Longrightarrow> \<exists>p \<in> set (payments d). pay_public_id p = q \<and> pay_detection_closed_at p = None"
  by (auto simp: crossed_ids_def limit_def dest!: in_set_takeD)

lemma session_after_raise_rows:
  assumes "session_after_raise pid ref raw now approved d = Some d1"
  shows "(payments d1 = payments d \<or> (\<exists>i. payments d1 = tupd pay_id i (paid_row ref raw now approved) (payments d))) \<and>
    stores d1 = stores d"
proof (cases "\<exists>p. scalar_one_or_none (filter (\<lambda>p. pay_public_id p = pid) (payments d)) = Inr (Some p)")
  case True
  then obtain p where p: "scalar_one_or_none (filter (\<lambda>p. pay_public_id p = pid) (payments d)) = Inr (Some p)"
    by blast
  let ?d1 = "mod_payment (pay_id p) (paid_row ref raw now approved) d"
  have "payments d1 = payments ?d1 \<and> stores d1 = stores ?d1"
  proof (cases "store_of (paid_row ref raw now approved p) ?d1")
    case (Inl e)
    then show ?thesis
      using assms p by (simp add: session_after_raise_def Let_def)
  next
    case (Inr st)
    then show ?thesis
      using assms p by (cases "st_is_internal st") (auto simp: session_after_raise_def Let_def split: sum.splits)
  qed
  then show ?thesis
    by (auto simp: mod_payment_def)
next
  case False
  then show ?thesis
    using assms by (auto simp: session_after_raise_def split: sum.splits option.splits)
qed

lemma settled_public_ids:
  assumes "payment_keys_ok d" "d1 = d \<or> credited_by am pid d d1"
  shows "map pay_id (payments d1) = map pay_id (payments d) \<and> map pay_public_id (payments d1) = map pay_public_id (payments d)"
proof -
  have keys: "distinct_keys pay_id (payments d)"
    by (rule keys_okD(1) [OF assms(1)])
  have half: ?thesis if "half_settled_by am pid d d1"
    using that session_after_raise_rows by (fastforce simp: half_settled_by_def tupd_def o_def)
  have whole: ?thesis if s: "settled_by am pid d d1"
  proof -
    obtain ref raw r where m: "mark_paid (am_settings am) pid ref raw (am_eid am) (am_now am) (am_approved am) d = Inr (r, d1)"
      using s by (auto simp: settled_by_def)
    show ?thesis
    proof (cases r)
      case None
      then show ?thesis
        using m mark_paid_None by metis
    next
      case (Some pa)
      then obtain p' alert where
        "mark_paid (am_settings am) pid ref raw (am_eid am) (am_now am) (am_approved am) d = Inr (Some (p', alert), d1)"
        using m by (cases pa) simp
      then obtain p :: payment where
        "payments d1 = settled_table (pay_id p) (paid_row ref raw (am_now am) (am_approved am)) (payments d)"
        by (rule mark_paid_Some [OF keys]) blast
      then show ?thesis
        by (auto simp: settled_table_def o_def paid_row_def Payments.set_status_def)
    qed
  qed
  show ?thesis
    using assms(2) half whole unfolding credited_by_def by blast
qed

lemma look_final:
  assumes "reconcile_payment ra am True None None True p d c = (Inr (rr, Some d1), c1)" "matched_cents (rr_matched_amount rr) \<noteq> None"
  shows "\<exists>entry. look ra am True p d c =
    (W1_done (rr_status rr) (rr_transitioned_to_paid rr)
       (if rr_status rr \<noteq> PAID \<and> or_str (rr_error rr) [] \<noteq> [] then Some (alert_unknown p (or_str (rr_error rr) [])) else None),
     mod_payment (pay_id p) (add_attempt entry) (mod_payment (pay_id p) (set_closed (am_now am)) d1), c1)"
  using assms by (auto simp: look_def attempt_of_def close_detection_window_def append_attempt_def Let_def)

lemma noted_columns [simp]:
  "pay_id (add_attempt e p) = pay_id p" "pay_public_id (add_attempt e p) = pay_public_id p"
  "pay_detection_closed_at (add_attempt e p) = pay_detection_closed_at p"
  "pay_id (set_closed now p) = pay_id p" "pay_public_id (set_closed now p) = pay_public_id p"
  "pay_detection_closed_at (set_closed now p) = Some now"
  by (simp_all add: add_attempt_def set_closed_def)

lemma noted_rows:
  "payments (mod_payment i (add_attempt e) (mod_payment i (set_closed now) d)) =
     map (\<lambda>r. if pay_id r = i then add_attempt e (set_closed now r) else r) (payments d)"
  by (simp add: mod_payment_def tupd_def)

lemma paired_maps:
  "map f xs = map f ys \<Longrightarrow> map g xs = map g ys \<Longrightarrow> map (\<lambda>x. (f x, g x)) xs = map (\<lambda>x. (f x, g x)) ys"
  by (auto simp: list_eq_iff_nth_eq)

lemma own_id:
  assumes "payment_keys_ok d" "p \<in> set (payments d)" "q \<in> set (payments d1)" "pay_public_id q = pay_public_id p"
    and "map pay_id (payments d1) = map pay_id (payments d) \<and> map pay_public_id (payments d1) = map pay_public_id (payments d)"
  shows "pay_id q = pay_id p"
proof -
  have "map (\<lambda>q. (pay_public_id q, pay_id q)) (payments d1) = map (\<lambda>q. (pay_public_id q, pay_id q)) (payments d)"
    using assms(5) by (intro paired_maps) simp_all
  then have "(pay_public_id q, pay_id q) \<in> (\<lambda>q. (pay_public_id q, pay_id q)) ` set (payments d)"
    using assms(3) by (metis (no_types, lifting) image_eqI list.set_map)
  then obtain q' where q': "q' \<in> set (payments d)" "pay_public_id q' = pay_public_id p" "pay_id q' = pay_id q"
    using assms(4) by auto
  then have "q' \<in> set (filter (\<lambda>x. pay_public_id x = pay_public_id p) (payments d))"
    by simp
  then have "q' = p"
    unfolding filter_own_key [OF keys_okD(2) [OF assms(1)] assms(2)] by simp
  then show ?thesis
    using q'(3) by simp
qed

text \<open>A watch that is over stays over: no payment request reopens it, and none takes the public id again.\<close>

definition watch_over :: "string \<Rightarrow> db \<Rightarrow> bool" where
  "watch_over i d \<longleftrightarrow> i \<in> pay_public_id ` set (payments d) \<and>
     (\<forall>r \<in> set (payments d). pay_public_id r = i \<longrightarrow> pay_detection_closed_at r \<noteq> None)"

lemma watch_over_unlisted: "watch_over i d \<Longrightarrow> i \<notin> set (crossed_ids s now d)"
  using crossed_ids_watch [of i s now d] by (fastforce simp: watch_over_def)

lemma watch_over_map:
  assumes "watch_over i d" "payments d' = map g (payments d)"
    and "\<And>q. pay_public_id (g q) = pay_public_id q" "\<And>q. pay_detection_closed_at (g q) = pay_detection_closed_at q"
  shows "watch_over i d'"
  using assms by (auto simp: watch_over_def image_image)

lemma watch_over_add:
  assumes "watch_over i d" "payments d' = map g (payments d) @ [p]" "pay_public_id p \<notin> pay_public_id ` set (payments d)"
    and "\<And>q. pay_public_id (g q) = pay_public_id q" "\<And>q. pay_detection_closed_at (g q) = pay_detection_closed_at q"
  shows "watch_over i d'"
  using assms by (auto simp: watch_over_def image_image)

lemma watch_columns [simp]:
  "pay_detection_closed_at (paid_row r g now ap p) = pay_detection_closed_at p"
  "pay_detection_closed_at (reversed_row reason now p) = pay_detection_closed_at p"
  "pay_detection_closed_at (Payments.set_status st p) = pay_detection_closed_at p"
  by (simp_all add: paid_row_def reversed_row_def Payments.set_status_def Let_def)

lemma open_over:
  assumes "watch_over i d" "create_payment s rl st a ref meta key cur h pid now d = Inr ((p, c), d')"
  shows "watch_over i d'"
proof -
  obtain link m where "\<not> c \<longrightarrow> d' = d"
    "c \<longrightarrow> check_amount link a = Inr () \<and> pid \<notin> pay_public_id ` set (payments d) \<and>
        unclaimed idem_key (idem_key p) (payments d) \<and> d' = d\<lparr>payments := payments d @ [p]\<rparr>"
    "c \<longrightarrow> p = new_payment (st_id st) (lk_id link) a (normalize_currency (Some (lk_currency link)))
        ref meta key pid m None now d"
    by (rule create_payment_Inr [OF assms(2)])
  then show ?thesis
    using assms(1) watch_over_add [of i d d' id p] by (cases c) auto
qed

lemma reissue_over:
  assumes "watch_over i d" "reissue_payment s rl parent pid now d = Inr ((q, c), d')"
  shows "watch_over i d'"
proof (cases c)
  case True
  obtain m e where q: "q = new_payment (pay_store_id parent) (pay_link_id parent) (pay_amount_cents parent) (pay_currency parent)
        (pay_reference_id parent) (pay_metadata parent) None pid m (Some (pay_id parent)) now d"
    and pid: "pid \<notin> pay_public_id ` set (payments d)"
    and rows: "payments d' = tupd pay_id (pay_id parent) (add_attempt e) (payments d) @ [q]"
    using reissue_payment_Inr(3) [OF assms(2) True] by auto
  from watch_over_add [OF assms(1) rows [unfolded tupd_map]] pid show ?thesis
    by (simp add: q)
next
  case False
  then show ?thesis
    using reissue_payment_Inr(2) [OF assms(2)] assms(1) by simp
qed

lemma scan_over:
  assumes "watch_over i d" "mark_scanned j eid now d = Inr d'"
  shows "watch_over i d'"
proof (cases "payments d' = payments d")
  case True
  then show ?thesis
    using assms(1) by (simp add: watch_over_def)
next
  case False
  then have "payments d' = tupd pay_id j (\<lambda>p. p\<lparr>pay_status := PAYMENT_SCANNED, pay_scanned_at := Some now\<rparr>) (payments d)"
    using assms(2) by (auto simp: mark_scanned_def Let_def split: option.splits if_splits)
  from watch_over_map [OF assms(1) this [unfolded tupd_map]] show ?thesis
    by simp
qed

lemma settle_over:
  assumes "watch_over i d" "distinct_keys pay_id (payments d)" "mark_paid s pid ref raw eid now ap d = Inr (r, d')"
  shows "watch_over i d'"
proof (cases r)
  case None
  then show ?thesis
    using assms mark_paid_None by metis
next
  case (Some pa)
  then obtain p' alert where "mark_paid s pid ref raw eid now ap d = Inr (Some (p', alert), d')"
    using assms(3) by (metis prod.exhaust)
  then obtain p :: payment where "payments d' = settled_table (pay_id p) (paid_row ref raw now ap) (payments d)"
    by (rule mark_paid_Some [OF assms(2)]) blast
  from watch_over_map [OF assms(1) this [unfolded settled_table_def]] show ?thesis
    by simp
qed

lemma refund_over:
  assumes "watch_over i d" "reverse_payment p reason eid now d = Inr (q, d')"
  shows "watch_over i d'"
proof -
  have "payments d' = tupd pay_id (pay_id p) (reversed_row reason now) (payments d)"
    using reverse_payment_Inr [OF assms(2)] by metis
  from watch_over_map [OF assms(1) this [unfolded tupd_map]] show ?thesis
    by simp
qed

lemma expire_over:
  assumes "watch_over i d" "distinct_keys pay_id (payments d)" "expire_due_payments eid now d = Inr (ps, d')"
  shows "watch_over i d'"
  by (rule watch_over_map [OF assms(1) expire_due_rows(1) [OF assms(2,3)]]) simp_all

lemma request_over:
  assumes "payment_keys_ok d \<and> watch_over i d"
  shows "returns (handle_payment_request r d) (\<lambda>d'. payment_keys_ok d' \<and> watch_over i d')"
proof -
  have keys: "payment_keys_ok d" "distinct_keys pay_id (payments d)" and over: "watch_over i d"
    using assms keys_okD(1) by auto
  obtain am req where r: "r = (am, req)"
    by force
  have "watch_over i d'" if "handle_payment_request r d = Inr d'" for d'
    using that unfolding r
    by (cases req)
      (auto split: option.splits dest: open_over [OF over] reissue_over [OF over] scan_over [OF over]
        settle_over [OF over keys(2)] refund_over [OF over] expire_over [OF over keys(2)])
  then show ?thesis
    using shop.handle_ok [OF keys(1)] by (auto simp: returns_def)
qed

interpretation over: kept handle_payment_request "\<lambda>d. payment_keys_ok d \<and> watch_over i d" for i
  by unfold_locales (rule request_over)

lemma watch_stays_over:
  assumes "payment_keys_ok d" "watch_over i d"
  shows "i \<notin> set (crossed_ids s now (fold (transact handle_payment_request) reqs d))"
proof -
  have "transact handle_payment_request = (\<lambda>r d. case handle_payment_request r d of Inl _ \<Rightarrow> d | Inr d' \<Rightarrow> d')"
    by (intro ext) (simp add: transact_def)
  then have "watch_over i (fold (transact handle_payment_request) reqs d)"
    using over.run_ok [of d i reqs] assms by simp
  then show ?thesis
    by (rule watch_over_unlisted)
qed

text \<open>What the question to ABA about a hosted session leaves to escalate.\<close>

lemma settle_try_status: "settle_try tag am pid ref raw r d = (rr, d1) \<Longrightarrow> rr_status rr = rr_status r"
  by (auto simp: settle_try_def split: sum.splits prod.splits)

lemma hosted_stage_alert:
  assumes "hosted_stage ra am ws h p d = (rr, d1)"
  shows "rr_status rr \<noteq> PAID \<and> or_str (rr_error rr) [] \<noteq> [] \<longleftrightarrow> isl (ask_hosted ra h)"
proof (cases "ask_hosted ra h")
  case (Inl e)
  then show ?thesis
    using assms by (auto simp: hosted_stage_def base_result_def or_str_def)
next
  case (Inr hs)
  have "rr_status rr = PAID \<or> rr_error rr = None"
    using assms Inr
    by (auto simp: hosted_stage_def base_result_def Let_def dest!: settle_try_status split: if_splits)
  then show ?thesis
    using Inr by (auto simp: or_str_def)
qed

lemma credited_keys_ok:
  assumes "payment_keys_ok d" "d1 = d \<or> credited_by am pid d d1"
  shows "payment_keys_ok d1"
proof -
  have half: ?thesis if raised: "half_settled_by am pid d d1"
  proof -
    obtain ref raw where s: "session_after_raise pid ref raw (am_now am) (am_approved am) d = Some d1"
      using raised by (auto simp: half_settled_by_def)
    obtain g where g: "payments d1 = map g (payments d)"
      "pay_id (g q) = pay_id q \<and> pay_public_id (g q) = pay_public_id q \<and> idem_key (g q) = idem_key q \<and> pay_store_id (g q) = pay_store_id q" for q
    proof (cases "payments d1 = payments d")
      case True
      then show ?thesis
        using that [of id] by simp
    next
      case False
      then obtain i where "payments d1 = map (\<lambda>q. if pay_id q = i then paid_row ref raw (am_now am) (am_approved am) q else q) (payments d)"
        using session_after_raise_rows [OF s] by (auto simp: tupd_map)
      from that [OF this] show ?thesis
        by simp
    qed
    have "stores d1 = stores d"
      using session_after_raise_rows [OF s] by simp
    then show ?thesis
      using keys_ok_map [OF assms(1) _ g] by simp
  qed
  then show ?thesis
    using assms shop.handle_ok [OF assms(1)] unfolding credited_by_def settled_by_def by blast
qed

lemma noted_keys_ok:
  assumes "payment_keys_ok d" "map st_id (stores d') = map st_id (stores d)"
    and "payments d' = map (\<lambda>r. if pay_id r = i then add_attempt e (set_closed now r) else r) (payments d)"
  shows "payment_keys_ok d'"
  by (rule keys_ok_map [OF assms]) (simp add: add_attempt_def set_closed_def idem_key_def)

text \<open>C12. The last look at a payment with a hosted session ends its watch for good and escalates exactly what it
  should: the row is closed at that moment, and whatever payment requests follow, no later sweep lists
  it for another last look; the operators are alerted when, and only when, ABA gave no answer for the
  session.  The settlement, when ABA's answer calls for one, is one the database accepts.\<close>

theorem last_look_ends_the_watch:
  assumes "payment_keys_ok d" "p \<in> set (payments d)" "pay_public_id p \<noteq> []" "settleable (pay_status p)"
    and "hosted_handle p = Some h" "hosted_stage ra am True h p d = (rr, Some d1)" "matched_cents (rr_matched_amount rr) \<noteq> None"
  shows "\<exists>d'. detect ra am (poll_job True (pay_public_id p)) d c =
      (W1_done (rr_status rr) (rr_transitioned_to_paid rr)
         (if isl (ask_hosted ra h) then Some (alert_unknown p (or_str (rr_error rr) [])) else None), d', c) \<and>
    (\<forall>r \<in> set (payments d'). pay_public_id r = pay_public_id p \<longrightarrow> pay_detection_closed_at r = Some (am_now am)) \<and>
    (\<forall>reqs s now'. pay_public_id p \<notin> set (crossed_ids s now' (fold (transact handle_payment_request) reqs d')))"
proof -
  have rec: "reconcile_payment ra am True None None True p d c = (Inr (rr, Some d1), c)"
    by (simp add: reconcile_payment_def assms(5,6))
  obtain entry where l: "look ra am True p d c =
    (W1_done (rr_status rr) (rr_transitioned_to_paid rr)
       (if isl (ask_hosted ra h) then Some (alert_unknown p (or_str (rr_error rr) [])) else None),
     mod_payment (pay_id p) (add_attempt entry) (mod_payment (pay_id p) (set_closed (am_now am)) d1), c)" (is "_ = (_, ?d', _)")
    using look_final [OF rec assms(7)] unfolding hosted_stage_alert [OF assms(6)] by blast
  have "filter (\<lambda>q. pay_public_id q = pay_public_id p) (payments d) = [p]"
    by (rule filter_own_key [OF keys_okD(2) [OF assms(1)] assms(2)])
  moreover have "has_hosted_session p"
    using assms(5) by (auto simp: hosted_handle_def has_hosted_session_def split: json.splits)
  ultimately have det: "detect ra am (poll_job True (pay_public_id p)) d c = look ra am True p d c"
    using assms(3,4) by (auto simp: detect_def poll_job_def or_str_def)
  have moved: "d1 = d \<or> credited_by am (pay_public_id p) d d1"
    using reconcile_cases [OF rec] by blast
  note ids = settled_public_ids [OF assms(1) moved]
  have closed: "pay_detection_closed_at r = Some (am_now am)" if r: "r \<in> set (payments ?d')" "pay_public_id r = pay_public_id p" for r
  proof -
    obtain q where q: "q \<in> set (payments d1)" "r = (if pay_id q = pay_id p then add_attempt entry (set_closed (am_now am) q) else q)"
      using r(1) unfolding noted_rows by (auto simp only: set_map)
    have "pay_public_id q = pay_public_id p"
      using q(2) r(2) by (simp split: if_splits)
    from own_id [OF assms(1,2) q(1) this ids] show ?thesis
      by (simp add: q(2))
  qed
  have "payment_keys_ok ?d'"
    by (rule noted_keys_ok [OF credited_keys_ok [OF assms(1) moved] _ noted_rows]) (simp add: mod_payment_def)
  moreover have "map pay_public_id (payments ?d') = map pay_public_id (payments d)"
    unfolding noted_rows using ids by (simp add: o_def if_distrib [of pay_public_id] cong: if_cong)
  then have "pay_public_id p \<in> pay_public_id ` set (payments ?d')"
    using assms(2) by (metis image_eqI set_map)
  then have "watch_over (pay_public_id p) ?d'"
    unfolding watch_over_def using closed by simp
  ultimately show ?thesis
    using l det closed watch_stays_over by auto
qed

definition silent_rails :: rails where
  "silent_rails = demo_rails\<lparr>ra_hosted := (\<lambda>_ _ _. Http_raised ''timed out'')\<rparr>"

theorem last_look_ends_the_watch_witness:
  "\<exists>d' e. detect silent_rails (at_time 900) (poll_job True ''abcdefghijklmnopqrstuvwx'') hosted_db demo_bakong =
     (W1_done PENDING False (Some (alert_unknown (hd (payments hosted_db)) e)), d', demo_bakong) \<and>
     (\<forall>reqs s now'. ''abcdefghijklmnopqrstuvwx'' \<notin> set (crossed_ids s now' (fold (transact handle_payment_request) reqs d')))"
proof -
  let ?p = "hd (payments hosted_db)"
  have p: "payment_keys_ok hosted_db" "?p \<in> set (payments hosted_db)" "pay_public_id ?p = ''abcdefghijklmnopqrstuvwx''"
    "settleable (pay_status ?p)" "hosted_handle ?p = Some demo_handle" "isl (ask_hosted silent_rails demo_handle)"
    by code_simp+
  obtain rr where rr: "hosted_stage silent_rails (at_time 900) True demo_handle ?p hosted_db = (rr, Some hosted_db)"
    "rr_status rr = PENDING" "\<not> rr_transitioned_to_paid rr" "matched_cents (rr_matched_amount rr) \<noteq> None"
    using p(6) by (cases "ask_hosted silent_rails demo_handle")
      (auto simp: hosted_stage_def base_result_def matched_cents_def)
  have ne: "pay_public_id ?p \<noteq> []"
    by (simp add: p(3))
  show ?thesis
    using last_look_ends_the_watch [OF p(1,2) ne p(4,5) rr(1,4), of demo_bakong] p(6) rr(2,3) unfolding p(3) by auto
qed

text \<open>A ledger that cannot be reached is taken for one that answered: the watch of such a payment ends with
  nobody told.\<close>

lemma unreachable_ledger_closes_quietly:
  "fst (detect demo_rails (at_time 900) (poll_job True ''abcdefghijklmnopqrstuvwx'') till_db demo_bakong) = W1_done PENDING False None"
  by code_simp

section \<open>The sweep\<close>

definition in_window :: "settings \<Rightarrow> instant \<Rightarrow> payment \<Rightarrow> bool" where
  "in_window s now p \<longleftrightarrow> watched p \<and> now - detection_window s \<le> pay_created_at p"

lemma take_sort_key_older:
  assumes "distinct_keys key xs" "x \<in> set xs" "y \<in> set (take n (sort_key key xs))" "key x < key y"
  shows "x \<in> set (take n (sort_key key xs))"
proof -
  let ?s = "sort_key key xs"
  obtain j where j: "j < n" "j < length ?s" "?s ! j = y"
    using assms(3) by (auto simp: in_set_conv_nth)
  obtain i where i: "i < length ?s" "?s ! i = x"
    using assms(2) by (metis in_set_conv_nth set_sort)
  have "i < j"
  proof (rule ccontr)
    assume "\<not> i < j"
    then have "map key ?s ! j \<le> map key ?s ! i"
      using i(1) j(2) by (intro sorted_nth_mono [OF sorted_sort_key]) simp_all
    then show False
      using i j assms(4) by simp
  qed
  then show ?thesis
    using i j(1) by (auto simp: in_set_conv_nth intro!: exI [of _ i])
qed

lemma orphan_ids_general:
  "orphan_ids s now None None d = map pay_public_id (take 20 (sort_key pay_id (filter (in_window s now) (payments d))))"
  by (simp add: orphan_ids_def in_window_def [abs_def] ORPHAN_BATCH_def limit_def)

lemma in_window_keys: "payment_keys_ok d \<Longrightarrow> distinct_keys pay_id (filter (in_window s now) (payments d))"
  using keys_okD(1) by (auto simp: distinct_keys_def distinct_map_filter)

lemma swept_row:
  assumes "payment_keys_ok d" "q \<in> set (payments d)" "pay_public_id q \<in> set (orphan_ids s now None None d)"
  shows "q \<in> set (take 20 (sort_key pay_id (filter (in_window s now) (payments d))))"
proof -
  obtain q' where q': "q' \<in> set (take 20 (sort_key pay_id (filter (in_window s now) (payments d))))"
    "pay_public_id q' = pay_public_id q"
    using assms(3) unfolding orphan_ids_general by auto
  then have "q' \<in> set (filter (\<lambda>x. pay_public_id x = pay_public_id q) (payments d))"
    by (auto dest: in_set_takeD)
  then show ?thesis
    using q'(1) unfolding filter_own_key [OF keys_okD(2) [OF assms(1)] assms(2)] by simp
qed

text \<open>As long as twenty older payments wait in the window, a younger one is not listed, sweep after sweep.\<close>

lemma backlog_hides_younger:
  assumes "payment_keys_ok d" "q \<in> set (payments d)"
    and "20 \<le> card {p \<in> set (payments d). in_window s now p \<and> pay_id p < pay_id q}"
  shows "pay_public_id q \<notin> set (orphan_ids s now None None d)"
proof
  let ?t = "take 20 (sort_key pay_id (filter (in_window s now) (payments d)))"
  let ?older = "{p \<in> set (payments d). in_window s now p \<and> pay_id p < pay_id q}"
  assume "pay_public_id q \<in> set (orphan_ids s now None None d)"
  then have q: "q \<in> set ?t"
    by (rule swept_row [OF assms(1,2)])
  then have "?older \<union> {q} \<subseteq> set ?t"
    using take_sort_key_older [OF in_window_keys [OF assms(1)], of _ s now q 20] by auto
  then have "card (?older \<union> {q}) \<le> card (set ?t)"
    by (intro card_mono) simp_all
  also have "\<dots> \<le> 20"
    using card_length [of ?t] by simp
  finally show False
    using assms(3) by simp
qed

text \<open>The general sweep watches what it should, oldest first: it lists at most twenty payments, each of
  them unsettled and inside the detection window, and when it lists one it lists every older one that
  qualifies, so that the payments nearest to the end of their watch are never passed over.\<close>

theorem sweep_lists_oldest_unsettled:
  assumes "payment_keys_ok d"
  shows "length (orphan_ids s now None None d) \<le> 20 \<and>
    (\<forall>i \<in> set (orphan_ids s now None None d). \<exists>p \<in> set (payments d). pay_public_id p = i \<and> in_window s now p) \<and>
    (\<forall>p \<in> set (payments d). \<forall>q \<in> set (payments d).
       in_window s now p \<and> pay_id p < pay_id q \<and> pay_public_id q \<in> set (orphan_ids s now None None d) \<longrightarrow>
       pay_public_id p \<in> set (orphan_ids s now None None d))"
proof (intro conjI ballI impI)
  let ?t = "take 20 (sort_key pay_id (filter (in_window s now) (payments d)))"
  show "length (orphan_ids s now None None d) \<le> 20"
    unfolding orphan_ids_general by simp
  fix i
  assume "i \<in> set (orphan_ids s now None None d)"
  then show "\<exists>p \<in> set (payments d). pay_public_id p = i \<and> in_window s now p"
    unfolding orphan_ids_general by (fastforce dest: in_set_takeD)
next
  fix p q
  assume p: "p \<in> set (payments d)" "q \<in> set (payments d)"
    and h: "in_window s now p \<and> pay_id p < pay_id q \<and> pay_public_id q \<in> set (orphan_ids s now None None d)"
  then have "p \<in> set (take 20 (sort_key pay_id (filter (in_window s now) (payments d))))"
    using take_sort_key_older [OF in_window_keys [OF assms], of p s now q 20] swept_row [OF assms p(2)] by simp
  then show "pay_public_id p \<in> set (orphan_ids s now None None d)"
    unfolding orphan_ids_general by simp
qed

theorem sweep_lists_oldest_unsettled_witness:
  "''abcdefghijklmnopqrstuvwx'' \<in> set (orphan_ids default_settings 900 None None twice_replaced_db) \<and> 
   ''B'' \<in> set (orphan_ids default_settings 900 None None twice_replaced_db)"
proof -
  have d: "payment_keys_ok twice_replaced_db" "''B'' \<in> set (orphan_ids default_settings 900 None None twice_replaced_db)"
    "\<exists>p \<in> set (payments twice_replaced_db). pay_public_id p = ''abcdefghijklmnopqrstuvwx'' \<and> in_window default_settings 900 p \<and> pay_id p = 21"
    "\<exists>q \<in> set (payments twice_replaced_db). pay_public_id q = ''B'' \<and> pay_id q = 22"
    by code_simp+
  then show ?thesis
    using sweep_lists_oldest_unsettled [OF d(1), of default_settings 900] by fastforce
qed

end
