(* ===== verification/Workers.thy ===== *)
theory Workers
  imports Detection "HOL-Library.Multiset"
begin

text \<open>
  The queue and the workers on it: the job (\<^verbatim>\<open>src/src/chmabapay/workers/job.py\<close>), the in-process transport
  (\<^verbatim>\<open>workers/inprocess.py\<close>), the retry policy (\<^verbatim>\<open>_run_one\<close> in \<^verbatim>\<open>workers/base.py\<close>), and what the sweepers W3 to W6
  do with a job; the retention of gateway answers (\<^verbatim>\<open>src/src/chmabapay/services/retention.py\<close>).

  A job is identified by a number.  The queues of the transport are one list, a queue is its jobs of that
  name; the jobs a drain loop has taken and the timers of the event loop are part of the state.  A step
  is one call of the transport, in any order, so the steps of several workers interleave freely.  How a
  job ends is an argument: the worker returned or it raised.  The deduplication table is the cache of
  \<open>Ratelimit\<close>.

  Lemmas: in every reachable state each unfinished job is in exactly one place, none is lost and none runs
  twice at once; a job is run at most \<open>max_attempts\<close> times; a key that was enqueued is skipped while the
  table remembers it; the purge of gateway answers removes exactly what is past the window.
\<close>

section \<open>Jobs and the transport\<close>

record job =
  jb_queue :: string
  jb_payload :: json
  jb_dedup :: "string option"
  jb_id :: int
  jb_attempts :: nat
  jb_max_attempts :: nat

definition new_job :: "int \<Rightarrow> string \<Rightarrow> json \<Rightarrow> string option \<Rightarrow> job" where
  "new_job i q payload k =
     \<lparr>jb_queue = q, jb_payload = payload, jb_dedup = k, jb_id = i, jb_attempts = 0, jb_max_attempts = 10\<rparr>"

datatype counter = Enqueued | Succeeded | Retried | Dead

record 'c transport =
  tr_queued :: "job list"
  tr_taken :: "job list"
  tr_timers :: "(instant \<times> job) list"
  tr_pending :: "int list"
  tr_dedup :: 'c
  tr_counts :: "(string \<times> counter) list"

definition tally :: "string \<Rightarrow> counter \<Rightarrow> 'c transport \<Rightarrow> 'c transport" where
  "tally q x tr = tr\<lparr>tr_counts := (q, x) # tr_counts tr\<rparr>"

definition fresh_transport :: "('c, unit) ttl_ops \<Rightarrow> 'c transport" where
  "fresh_transport C =
     \<lparr>tr_queued = [], tr_taken = [], tr_timers = [], tr_pending = [], tr_dedup = tc_empty C, tr_counts = []\<rparr>"

text \<open>\<open>enqueue\<close> returns the job; one that is skipped is on no queue.\<close>

definition enqueue :: "('c, unit) ttl_ops \<Rightarrow> instant \<Rightarrow> int \<Rightarrow> string \<Rightarrow> json \<Rightarrow> string option \<Rightarrow> 'c transport \<Rightarrow> job \<times> 'c transport" where
  "enqueue C now i q payload k tr =
     (let j = new_job i q payload k in
      case k of
        Some key \<Rightarrow>
          if tc_peek C (tr_dedup tr) now key \<noteq> None then (j, tr)
          else (j, tally q Enqueued (tr\<lparr>tr_dedup := tc_set C now key () (tr_dedup tr),
                 tr_queued := tr_queued tr @ [j], tr_pending := tr_pending tr @ [jb_id j]\<rparr>))
      | None \<Rightarrow>
          (j, tally q Enqueued (tr\<lparr>tr_queued := tr_queued tr @ [j], tr_pending := tr_pending tr @ [jb_id j]\<rparr>)))"

text \<open>\<open>dequeue\<close>, given how many jobs arrive before its deadline.\<close>

definition on_queue :: "string \<Rightarrow> 'c transport \<Rightarrow> job list" where
  "on_queue q tr = filter (\<lambda>j. jb_queue j = q) (tr_queued tr)"

definition started :: "job \<Rightarrow> job" where
  "started j = j\<lparr>jb_attempts := Suc (jb_attempts j)\<rparr>"

definition dequeue :: "string \<Rightarrow> nat \<Rightarrow> 'c transport \<Rightarrow> job list \<times> 'c transport" where
  "dequeue q n tr =
     (let js = take n (on_queue q tr) in
      (js, tr\<lparr>tr_queued := filter (\<lambda>j. j \<notin> set js) (tr_queued tr), tr_taken := tr_taken tr @ map started js\<rparr>))"

definition mark_done :: "instant \<Rightarrow> job \<Rightarrow> bool \<Rightarrow> int option \<Rightarrow> 'c transport \<Rightarrow> 'c transport" where
  "mark_done now j success retry_after tr =
     (let tr1 = tr\<lparr>tr_taken := filter (\<lambda>x. x \<noteq> j) (tr_taken tr)\<rparr>;
          gone = tr1\<lparr>tr_pending := filter (\<lambda>i. i \<noteq> jb_id j) (tr_pending tr1)\<rparr>
      in if success then tally (jb_queue j) Succeeded gone
         else case retry_after of
                Some s \<Rightarrow> if jb_attempts j < jb_max_attempts j
                  then tally (jb_queue j) Retried (tr1\<lparr>tr_timers := tr_timers tr1 @ [(now + seconds (max 1 s), j)]\<rparr>)
                  else tally (jb_queue j) Dead gone
              | None \<Rightarrow> tally (jb_queue j) Dead gone)"

text \<open>\<open>_run_one\<close> from the moment the worker ended: \<open>job.attempts\<close> was raised before it began.\<close>

definition backoff :: "nat \<Rightarrow> int" where
  "backoff n = min 600 (2 ^ n)"

definition run_one :: "instant \<Rightarrow> job \<Rightarrow> bool \<Rightarrow> 'c transport \<Rightarrow> 'c transport" where
  "run_one now j returned tr =
     (if returned then mark_done now j True None tr
      else if jb_attempts j \<ge> jb_max_attempts j then mark_done now j False None tr
      else mark_done now j False (Some (backoff (jb_attempts j))) tr)"

text \<open>The timers that are due put their jobs back on the queue.\<close>

definition fire :: "instant \<Rightarrow> 'c transport \<Rightarrow> 'c transport" where
  "fire now tr =
     tr\<lparr>tr_queued := tr_queued tr @ map snd (filter (\<lambda>t. fst t \<le> now) (tr_timers tr)),
        tr_timers := filter (\<lambda>t. now < fst t) (tr_timers tr)\<rparr>"

definition queue_depth :: "string \<Rightarrow> 'c transport \<Rightarrow> nat" where
  "queue_depth q tr = length (on_queue q tr)"

definition counted :: "string \<Rightarrow> counter \<Rightarrow> 'c transport \<Rightarrow> nat" where
  "counted q x tr = length (filter (\<lambda>e. e = (q, x)) (tr_counts tr))"

section \<open>Interleaved steps\<close>

inductive queue_step :: "('c, unit) ttl_ops \<Rightarrow> 'c transport \<Rightarrow> 'c transport \<Rightarrow> bool" for C where
  enqueued: "i \<notin> set (tr_pending tr) \<Longrightarrow> queue_step C tr (snd (enqueue C now i q payload k tr))"
| dequeued: "queue_step C tr (snd (dequeue q n tr))"
| ended: "j \<in> set (tr_taken tr) \<Longrightarrow> queue_step C tr (run_one now j returned tr)"
| fired: "queue_step C tr (fire now tr)"

definition jobs_of :: "'c transport \<Rightarrow> job list" where
  "jobs_of tr = tr_queued tr @ tr_taken tr @ map snd (tr_timers tr)"

definition transport_ok :: "'c transport \<Rightarrow> bool" where
  "transport_ok tr \<longleftrightarrow>
     distinct (map jb_id (jobs_of tr)) \<and> set (tr_pending tr) = jb_id ` set (jobs_of tr) \<and> distinct (tr_pending tr) \<and>
     (\<forall>j \<in> set (tr_queued tr) \<union> snd ` set (tr_timers tr). jb_attempts j < jb_max_attempts j) \<and>
     (\<forall>j \<in> set (tr_taken tr). jb_attempts j \<le> jb_max_attempts j)"

section \<open>No job is lost, none runs twice at once\<close>

lemma tally_frame [simp]:
  "tr_queued (tally q x tr) = tr_queued tr" "tr_taken (tally q x tr) = tr_taken tr" "tr_timers (tally q x tr) = tr_timers tr"
  "tr_pending (tally q x tr) = tr_pending tr" "tr_dedup (tally q x tr) = tr_dedup tr"
  by (simp_all add: tally_def)

lemma jobs_of_tally [simp]: "jobs_of (tally q x tr) = jobs_of tr"
  by (simp add: jobs_of_def)

lemma transport_ok_tally [simp]: "transport_ok (tally q x tr) = transport_ok tr"
  by (simp add: transport_ok_def)

lemma jobs_distinct: "transport_ok tr \<Longrightarrow> distinct (jobs_of tr)"
  by (simp add: transport_ok_def distinct_map)

lemma enqueue_ok:
  assumes "transport_ok tr" "i \<notin> set (tr_pending tr)"
  shows "transport_ok (snd (enqueue C now i q payload k tr))"
proof -
  have "transport_ok (tr\<lparr>tr_dedup := c, tr_queued := tr_queued tr @ [new_job i q payload k],
      tr_pending := tr_pending tr @ [i]\<rparr>)" for c
    using assms by (auto simp: transport_ok_def jobs_of_def new_job_def)
  from this [of "tr_dedup tr"] this show ?thesis
    using assms(1) by (auto simp: enqueue_def Let_def new_job_def split: option.split)
qed

lemma mset_split:
  assumes "distinct xs" "distinct ys" "set ys \<subseteq> set xs"
  shows "mset xs = mset ys + mset (filter (\<lambda>x. x \<notin> set ys) xs)"
proof -
  have "mset (filter (\<lambda>x. x \<in> set ys) xs) = mset ys"
    using assms by (intro set_eq_iff_mset_eq_distinct [THEN iffD1]) auto
  then show ?thesis
    using multiset_partition [of "mset xs" "\<lambda>x. x \<in> set ys"] by (simp add: mset_filter)
qed

lemma started_id [simp]: "jb_id (started j) = jb_id j" "jb_max_attempts (started j) = jb_max_attempts j"
  "jb_attempts (started j) = Suc (jb_attempts j)"
  by (simp_all add: started_def)

lemma same_ids_ok:
  assumes "transport_ok tr" "mset (map jb_id (jobs_of tr')) = mset (map jb_id (jobs_of tr))" "tr_pending tr' = tr_pending tr"
    and "\<forall>j \<in> set (tr_queued tr') \<union> snd ` set (tr_timers tr'). jb_attempts j < jb_max_attempts j"
    and "\<forall>j \<in> set (tr_taken tr'). jb_attempts j \<le> jb_max_attempts j"
  shows "transport_ok tr'"
  using assms mset_eq_imp_distinct_iff [OF assms(2)] mset_eq_setD [OF assms(2)] by (simp add: transport_ok_def)

lemma dequeue_ok:
  assumes "transport_ok tr"
  shows "transport_ok (snd (dequeue q n tr))"
proof (rule same_ids_ok [OF assms])
  let ?js = "take n (on_queue q tr)"
  have sub: "set ?js \<subseteq> set (tr_queued tr)"
    by (auto simp: on_queue_def dest: in_set_takeD)
  have "distinct (tr_queued tr)"
    using jobs_distinct [OF assms] by (simp add: jobs_of_def)
  then have "mset (tr_queued tr) = mset ?js + mset (filter (\<lambda>j. j \<notin> set ?js) (tr_queued tr))"
    using sub by (intro mset_split) (simp_all add: on_queue_def)
  then have "image_mset jb_id (mset (tr_queued tr)) =
      image_mset jb_id (mset ?js) + image_mset jb_id (mset (filter (\<lambda>j. j \<notin> set ?js) (tr_queued tr)))"
    by (metis image_mset_union)
  moreover have "map jb_id (map started js) = map jb_id js" for js
    by simp
  ultimately show "mset (map jb_id (jobs_of (snd (dequeue q n tr)))) = mset (map jb_id (jobs_of tr))"
    by (simp add: dequeue_def jobs_of_def Let_def del: map_map)
  show "tr_pending (snd (dequeue q n tr)) = tr_pending tr"
    by (simp add: dequeue_def Let_def)
  show "\<forall>j \<in> set (tr_queued (snd (dequeue q n tr))) \<union> snd ` set (tr_timers (snd (dequeue q n tr))). jb_attempts j < jb_max_attempts j"
    using assms by (auto simp: dequeue_def Let_def transport_ok_def)
  show "\<forall>j \<in> set (tr_taken (snd (dequeue q n tr))). jb_attempts j \<le> jb_max_attempts j"
    using assms sub by (auto simp: dequeue_def Let_def transport_ok_def Suc_le_eq)
qed

lemma fire_ok:
  assumes "transport_ok tr"
  shows "transport_ok (fire now tr)"
proof (rule same_ids_ok [OF assms])
  have "mset (tr_timers tr) = mset (filter (\<lambda>t. fst t \<le> now) (tr_timers tr)) + mset (filter (\<lambda>t. now < fst t) (tr_timers tr))"
    using multiset_partition [of "mset (tr_timers tr)" "\<lambda>t. fst t \<le> now"] by (simp add: mset_filter not_le)
  then have "image_mset (\<lambda>t. jb_id (snd t)) (mset (tr_timers tr)) =
      image_mset (\<lambda>t. jb_id (snd t)) (mset (filter (\<lambda>t. fst t \<le> now) (tr_timers tr))) +
      image_mset (\<lambda>t. jb_id (snd t)) (mset (filter (\<lambda>t. now < fst t) (tr_timers tr)))"
    by (metis image_mset_union)
  then show "mset (map jb_id (jobs_of (fire now tr))) = mset (map jb_id (jobs_of tr))"
    by (simp add: fire_def jobs_of_def o_def image_mset.compositionality)
qed (use assms in \<open>auto simp: fire_def transport_ok_def\<close>)

lemma distinct_keys_without:
  assumes "distinct (map key (xs @ x # ys))"
  shows "key ` set (xs @ ys) = key ` set (xs @ x # ys) - {key x}" "distinct (map key (xs @ ys))"
  using assms by (auto simp: image_iff)

lemma taken_once:
  assumes "transport_ok tr" "j \<in> set (tr_taken tr)"
  shows "jb_id ` set (jobs_of (tr\<lparr>tr_taken := filter (\<lambda>x. x \<noteq> j) (tr_taken tr)\<rparr>)) = jb_id ` set (jobs_of tr) - {jb_id j}"
    "distinct (map jb_id (jobs_of (tr\<lparr>tr_taken := filter (\<lambda>x. x \<noteq> j) (tr_taken tr)\<rparr>)))"
proof -
  have d: "distinct (map jb_id (tr_queued tr @ tr_taken tr @ map snd (tr_timers tr)))"
    using assms(1) by (simp add: transport_ok_def jobs_of_def)
  obtain as bs where split: "tr_taken tr = as @ j # bs"
    using assms(2) split_list by fastforce
  have "distinct (tr_taken tr)"
    using d by (simp add: distinct_map)
  then have "filter (\<lambda>x. x \<noteq> j) (tr_taken tr) = as @ bs"
    by (auto simp: split filter_id_conv intro!: arg_cong2 [of _ _ _ _ append])
  then have left: "jobs_of (tr\<lparr>tr_taken := filter (\<lambda>x. x \<noteq> j) (tr_taken tr)\<rparr>) = (tr_queued tr @ as) @ bs @ map snd (tr_timers tr)"
    and all: "jobs_of tr = (tr_queued tr @ as) @ j # bs @ map snd (tr_timers tr)"
    by (simp_all add: jobs_of_def split)
  have dj: "distinct (map jb_id ((tr_queued tr @ as) @ j # bs @ map snd (tr_timers tr)))"
    using assms(1) unfolding all [symmetric] transport_ok_def by blast
  show "jb_id ` set (jobs_of (tr\<lparr>tr_taken := filter (\<lambda>x. x \<noteq> j) (tr_taken tr)\<rparr>)) = jb_id ` set (jobs_of tr) - {jb_id j}"
    "distinct (map jb_id (jobs_of (tr\<lparr>tr_taken := filter (\<lambda>x. x \<noteq> j) (tr_taken tr)\<rparr>)))"
    unfolding left all using distinct_keys_without [OF dj] by blast+
qed

lemma gone_ok:
  assumes "transport_ok tr" "j \<in> set (tr_taken tr)"
  shows "transport_ok (tr\<lparr>tr_taken := filter (\<lambda>x. x \<noteq> j) (tr_taken tr), tr_pending := filter (\<lambda>i. i \<noteq> jb_id j) (tr_pending tr)\<rparr>)"
  using assms taken_once [OF assms] by (auto simp: transport_ok_def jobs_of_def)

lemma retried_ok:
  assumes "transport_ok tr" "j \<in> set (tr_taken tr)" "jb_attempts j < jb_max_attempts j"
  shows "transport_ok (tr\<lparr>tr_taken := filter (\<lambda>x. x \<noteq> j) (tr_taken tr), tr_timers := tr_timers tr @ [(t, j)]\<rparr>)"
proof (rule same_ids_ok [OF assms(1)])
  have "mset (tr_taken tr) = {#j#} + mset (filter (\<lambda>x. x \<noteq> j) (tr_taken tr))"
    using mset_split [of "tr_taken tr" "[j]"] jobs_distinct [OF assms(1)] assms(2) by (simp add: jobs_of_def)
  then have "image_mset jb_id (mset (tr_taken tr)) = {#jb_id j#} + image_mset jb_id (mset (filter (\<lambda>x. x \<noteq> j) (tr_taken tr)))"
    by (metis image_mset_single image_mset_union)
  then show "mset (map jb_id (jobs_of (tr\<lparr>tr_taken := filter (\<lambda>x. x \<noteq> j) (tr_taken tr), tr_timers := tr_timers tr @ [(t, j)]\<rparr>))) =
      mset (map jb_id (jobs_of tr))"
    by (simp add: jobs_of_def)
qed (use assms in \<open>auto simp: transport_ok_def\<close>)

lemma run_one_ok:
  assumes "transport_ok tr" "j \<in> set (tr_taken tr)"
  shows "transport_ok (run_one now j returned tr)"
  using gone_ok [OF assms] retried_ok [OF assms] by (auto simp: run_one_def mark_done_def Let_def)

lemma queue_step_ok: "queue_step C tr tr' \<Longrightarrow> transport_ok tr \<Longrightarrow> transport_ok tr'"
  by (induction rule: queue_step.induct) (simp_all add: enqueue_ok dequeue_ok run_one_ok fire_ok)

lemma fresh_ok: "transport_ok (fresh_transport C)"
  by (simp add: transport_ok_def fresh_transport_def jobs_of_def)

lemma reachable_ok: "(queue_step C)\<^sup>*\<^sup>* (fresh_transport C) tr \<Longrightarrow> transport_ok tr"
  by (induction rule: rtranclp_induct) (auto intro: fresh_ok queue_step_ok)

text \<open>C6. The in-process queue loses no job and runs none twice at once: in whatever order jobs are enqueued,
  taken by drain loops, retried by timers and ended, a job that has not ended is known to the transport
  and stands in exactly one place, waiting, taken or on a timer; a job was started at most
  \<open>max_attempts\<close> times, and one that waits has an attempt left.\<close>

theorem queue_keeps_every_job_once:
  assumes "(queue_step C)\<^sup>*\<^sup>* (fresh_transport C) tr"
  shows "distinct (map jb_id (jobs_of tr)) \<and> set (tr_pending tr) = jb_id ` set (jobs_of tr) \<and>
    (\<forall>j \<in> set (tr_queued tr) \<union> snd ` set (tr_timers tr). jb_attempts j < jb_max_attempts j) \<and>
    (\<forall>j \<in> set (tr_taken tr). jb_attempts j \<le> jb_max_attempts j)"
  using reachable_ok [OF assms] unfolding transport_ok_def by blast

definition demo_dedup :: "((string \<times> unit \<times> int) list, unit) ttl_ops" where
  "demo_dedup = list_cache (seconds 3600) None"

definition one_retry :: "(string \<times> unit \<times> int) list transport" where
  "one_retry =
     (let tr1 = snd (enqueue demo_dedup 0 1 ''payments.detection'' JNull (Some ''detect:1'') (fresh_transport demo_dedup));
          tr2 = snd (enqueue demo_dedup 5 2 ''payments.detection'' JNull (Some ''detect:1'') tr1);
          tr3 = snd (dequeue ''payments.detection'' 10 tr2)
      in run_one 7 (hd (tr_taken tr3)) False tr3)"

theorem queue_keeps_every_job_once_witness:
  "map jb_id (jobs_of one_retry) = [1] \<and> set (tr_pending one_retry) = jb_id ` set (jobs_of one_retry)"
proof -
  define tr1 where "tr1 = snd (enqueue demo_dedup 0 1 ''payments.detection'' JNull (Some ''detect:1'') (fresh_transport demo_dedup))"
  define tr2 where "tr2 = snd (enqueue demo_dedup 5 2 ''payments.detection'' JNull (Some ''detect:1'') tr1)"
  define tr3 where "tr3 = snd (dequeue ''payments.detection'' 10 tr2)"
  have taken: "hd (tr_taken tr3) \<in> set (tr_taken tr3)" and new: "(1 :: int) \<notin> set (tr_pending (fresh_transport demo_dedup))"
    "(2 :: int) \<notin> set (tr_pending tr1)"
    unfolding tr3_def tr2_def tr1_def by code_simp+
  have "(queue_step demo_dedup)\<^sup>*\<^sup>* (fresh_transport demo_dedup) (run_one 7 (hd (tr_taken tr3)) False tr3)"
    using enqueued [OF new(1), of demo_dedup 0 "''payments.detection''" JNull "Some ''detect:1''", folded tr1_def]
      enqueued [OF new(2), of demo_dedup 5 "''payments.detection''" JNull "Some ''detect:1''", folded tr2_def]
      dequeued [of demo_dedup tr2 "''payments.detection''" 10, folded tr3_def] ended [OF taken, of demo_dedup 7 False]
    by (meson rtranclp.rtrancl_into_rtrancl rtranclp.rtrancl_refl)
  then have "(queue_step demo_dedup)\<^sup>*\<^sup>* (fresh_transport demo_dedup) one_retry"
    unfolding one_retry_def Let_def tr3_def tr2_def tr1_def .
  moreover have "map jb_id (jobs_of one_retry) = [1]"
    by code_simp
  ultimately show ?thesis
    using queue_keeps_every_job_once by blast
qed

section \<open>A key is enqueued once\<close>

text \<open>While the table remembers a key, enqueueing it again changes nothing.\<close>

lemma enqueue_skips_known_key:
  assumes "retentive_cache C ttl" "tc_peek C (tr_dedup tr) now key = None" "now \<le> later" "later < now + ttl"
  shows "snd (enqueue C later i' q' payload' (Some key) (snd (enqueue C now i q payload (Some key) tr))) =
    snd (enqueue C now i q payload (Some key) tr)"
proof -
  have "tc_peek C (tc_set C now key () (tr_dedup tr)) later key = Some ()"
    using retentive_cache.kept_same [OF assms(1,3,4)] .
  then show ?thesis
    using assms(2) by (simp add: enqueue_def Let_def)
qed

section \<open>Retention of gateway answers\<close>

definition past_retention :: "int \<Rightarrow> instant \<Rightarrow> payment \<Rightarrow> bool" where
  "past_retention older_than_days now p \<longleftrightarrow>
     pay_created_at p < now - days older_than_days \<and> pay_gateway_status_raw p \<noteq> None"

definition without_gateway :: "payment \<Rightarrow> payment" where
  "without_gateway p = p\<lparr>pay_gateway_status_raw := None\<rparr>"

definition purge_gateway_payloads :: "int \<Rightarrow> instant \<Rightarrow> db \<Rightarrow> nat \<times> db" where
  "purge_gateway_payloads older_than_days now d =
     (if older_than_days \<le> 0 then (0, d)
      else (length (filter (past_retention older_than_days now) (payments d)),
            d\<lparr>payments := tmodify (past_retention older_than_days now) without_gateway (payments d)\<rparr>))"

section \<open>The sweepers\<close>

text \<open>The default limit of a billing sweep.\<close>

definition SWEEP_LIMIT :: int where "SWEEP_LIMIT = 500"

definition w3_process :: "settings \<Rightarrow> instant \<Rightarrow> db \<Rightarrow> (issue_counts \<times> db) result" where
  "w3_process s now d = issue_due_invoices s now SWEEP_LIMIT d"

text \<open>W4: when the sweep raises, the rows are expired without their events.\<close>

definition w4_sweep :: "(int \<Rightarrow> string) \<Rightarrow> instant \<Rightarrow> db \<Rightarrow> nat \<times> db" where
  "w4_sweep eid now d =
     (case expire_due_payments eid now d of
        Inr (ps, d1) \<Rightarrow> (length ps, d1)
      | Inl _ \<Rightarrow> (0, d\<lparr>payments := tmodify (expiry_due now) (Payments.set_status PAYMENT_EXPIRED) (payments d)\<rparr>))"

definition expiry_limit :: "int \<Rightarrow> int \<Rightarrow> int" where
  "expiry_limit batch_limit n = max 50 (if batch_limit = 0 then n else batch_limit)"

definition w5_process :: "int \<Rightarrow> instant \<Rightarrow> db \<Rightarrow> nat \<times> db" where
  "w5_process retention_days now d = purge_gateway_payloads retention_days now d"

datatype w6_summary = Reminded reminder_counts | Enforced enforce_counts | Unknown_job string

definition w6_process :: "settings \<Rightarrow> mailer option \<Rightarrow> instant \<Rightarrow> string option \<Rightarrow> db \<Rightarrow> (w6_summary \<times> db) result" where
  "w6_process s mail now job_type d =
     (let t = or_str job_type ''remind'' in
      if t = ''remind'' then rbind (record_due_reminders mail now SWEEP_LIMIT d) (\<lambda>(c, d1). Inr (Reminded c, d1))
      else if t = ''enforce'' then (case enforce_grace s now SWEEP_LIMIT d of (c, d1) \<Rightarrow> Inr (Enforced c, d1))
      else Inr (Unknown_job t, d))"

section \<open>What the purge takes\<close>

lemma purge_rows:
  assumes "0 < n"
  shows "payments (snd (purge_gateway_payloads n now d)) =
    map (\<lambda>p. if past_retention n now p then without_gateway p else p) (payments d)"
  using assms by (simp add: purge_gateway_payloads_def tmodify_def)

lemma purged_not_past: "\<not> past_retention n now (without_gateway p)"
  by (simp add: past_retention_def without_gateway_def)

lemma purge_again:
  assumes "0 < n"
  shows "purge_gateway_payloads n now (snd (purge_gateway_payloads n now d)) = (0, snd (purge_gateway_payloads n now d))"
proof -
  let ?d = "snd (purge_gateway_payloads n now d)"
  have none: "\<not> past_retention n now p" if "p \<in> set (payments ?d)" for p
    using that unfolding purge_rows [OF assms] by (auto simp: purged_not_past)
  then have "filter (past_retention n now) (payments ?d) = []"
    by (simp add: filter_empty_conv)
  moreover have "tmodify (past_retention n now) without_gateway (payments ?d) = payments ?d"
    using none by (simp add: tmodify_def map_idI)
  ultimately show ?thesis
    using assms by (simp add: purge_gateway_payloads_def [of n now ?d])
qed

text \<open>A row the detection still watches is young enough to keep its session.\<close>

lemma watched_keeps_session:
  assumes "0 < n" "2 * detection_window_seconds s \<le> 86400 * n" "0 \<le> detection_window_seconds s"
    and "p \<in> set (payments d)" "now - detection_window s - detection_window s \<le> pay_created_at p"
  shows "p \<in> set (payments (snd (purge_gateway_payloads n now d)))"
proof -
  have "\<not> past_retention n now p"
    using assms(2,3,5) by (simp add: past_retention_def detection_window_def seconds_def days_def)
  then show ?thesis
    unfolding purge_rows [OF assms(1)] using assms(4) by force
qed

end
