(* ===== verification/Endpoints.thy ===== *)
theory Endpoints
  imports Console
begin

text \<open>
  A merchant's webhook endpoints (\<^verbatim>\<open>src/src/chmabapay/routers/webhooks.py\<close>): the limit of the plan, creating,
  changing and deleting an endpoint, rotating its secret, and the list.

  Each handler takes the calling account; the URL of a body is checked before it, as the framework does,
  and a body that is refused answers 422.  A new secret is an argument.  The health and delivery reports
  and the test delivery are not modelled.

  Lemmas: over any requests of any merchants every endpoint points outside the platform's network, every
  delivery row refers to an endpoint that exists, no merchant touches another's endpoints, and no account
  passes the limit of its plan.
\<close>

section \<open>Endpoints of an account\<close>

definition own_endpoints :: "int \<Rightarrow> db \<Rightarrow> webhook_endpoint list" where
  "own_endpoints account_id d = filter (\<lambda>e. ep_account_id e = account_id) (webhook_endpoints d)"

definition load_endpoint :: "account \<Rightarrow> int \<Rightarrow> db \<Rightarrow> webhook_endpoint result" where
  "load_endpoint a endpoint_id d =
     rbind (scalar_one_or_none (filter (\<lambda>e. ep_id e = endpoint_id) (own_endpoints (acc_id a) d))) (\<lambda>found.
       case found of None \<Rightarrow> Inl (HTTPException 404 ''webhook_not_found'') | Some e \<Rightarrow> Inr e)"

definition enforce_webhook_limit :: "account \<Rightarrow> db \<Rightarrow> unit result" where
  "enforce_webhook_limit a d =
     rbind (get_active_plan (acc_id a) d) (\<lambda>plan.
       case plan of
         None \<Rightarrow> Inr ()
       | Some p \<Rightarrow>
           guard (int (length (own_endpoints (acc_id a) d)) < plan_max_webhooks_per_account p)
             (HTTPException 400 (''Max webhook endpoints ('' @ int_str (plan_max_webhooks_per_account p) @
               '') reached for your plan. Delete one or upgrade.'')))"

definition webhook_url_ok :: "string \<Rightarrow> bool" where
  "webhook_url_ok url \<longleftrightarrow> 8 \<le> length url \<and> validate_webhook_url url = Inr url"

record webhook_create =
  wc_url :: string
  wc_secret_key :: "string option"
  wc_events :: "string list option"

record webhook_patch =
  wp_url :: "string option"
  wp_events :: "string list option"
  wp_status :: "string option"
  wp_enabled :: "bool option"

definition events_json :: "string list option \<Rightarrow> json" where
  "events_json es = json_opt (\<lambda>xs. JList (map JStr xs)) es"

fun endpoint_status_name :: "endpoint_status \<Rightarrow> string" where
  "endpoint_status_name WEBHOOK_ENDPOINT_ACTIVE = ''active''"
| "endpoint_status_name WEBHOOK_ENDPOINT_DISABLED = ''disabled''"
| "endpoint_status_name (WEBHOOK_ENDPOINT_OTHER s) = s"

definition endpoint_status_of :: "string \<Rightarrow> endpoint_status" where
  "endpoint_status_of s =
     (if s = ''active'' then WEBHOOK_ENDPOINT_ACTIVE
      else if s = ''disabled'' then WEBHOOK_ENDPOINT_DISABLED else WEBHOOK_ENDPOINT_OTHER s)"

definition list_webhooks :: "account \<Rightarrow> db \<Rightarrow> webhook_endpoint list" where
  "list_webhooks a d = rev (sort_key ep_id (own_endpoints (acc_id a) d))"

definition new_endpoint :: "account \<Rightarrow> string \<Rightarrow> webhook_create \<Rightarrow> db \<Rightarrow> webhook_endpoint" where
  "new_endpoint a secret b d =
     \<lparr>ep_id = fresh_id ep_id (webhook_endpoints d), ep_account_id = acc_id a, ep_url = wc_url b, ep_secret_key = secret,
      ep_events = wc_events b, ep_status = WEBHOOK_ENDPOINT_ACTIVE\<rparr>"

definition create_webhook :: "account \<Rightarrow> string \<Rightarrow> webhook_create \<Rightarrow> db \<Rightarrow> ((webhook_endpoint \<times> string) \<times> db) result" where
  "create_webhook a fresh_secret b d =
     rbind (guard (webhook_url_ok (wc_url b)) validation_error) (\<lambda>_.
     rbind (enforce_webhook_limit a d) (\<lambda>_.
     let secret = or_str (wc_secret_key b) fresh_secret; e = new_endpoint a secret b d in
     Inr ((e, secret), audit_record (Some a) ''webhook.created'' ''WebhookEndpoint'' (ep_id e)
       [(''url'', JStr (ep_url e)), (''events'', events_json (ep_events e))]
       (d\<lparr>webhook_endpoints := tadd e (webhook_endpoints d)\<rparr>))))"

definition new_endpoint_status :: "webhook_patch \<Rightarrow> string option" where
  "new_endpoint_status p =
     (case wp_enabled p of Some on \<Rightarrow> Some (if on then ''active'' else ''disabled'') | None \<Rightarrow> wp_status p)"

definition patched_endpoint :: "webhook_patch \<Rightarrow> webhook_endpoint \<Rightarrow> webhook_endpoint" where
  "patched_endpoint p e =
     e\<lparr>ep_url := (case wp_url p of None \<Rightarrow> ep_url e | Some u \<Rightarrow> u),
       ep_events := (case wp_events p of None \<Rightarrow> ep_events e | Some es \<Rightarrow> Some es),
       ep_status := (case new_endpoint_status p of None \<Rightarrow> ep_status e | Some s \<Rightarrow> endpoint_status_of s)\<rparr>"

definition endpoint_changes :: "webhook_patch \<Rightarrow> webhook_endpoint \<Rightarrow> (string \<times> json) list" where
  "endpoint_changes p e =
     (case wp_url p of None \<Rightarrow> []
      | Some u \<Rightarrow> if u = ep_url e then [] else [from_to ''url'' (JStr (ep_url e)) (JStr u)]) @
     (case wp_events p of None \<Rightarrow> []
      | Some es \<Rightarrow> if Some es = ep_events e then [] else [from_to ''events'' (events_json (ep_events e)) (events_json (Some es))]) @
     (case new_endpoint_status p of None \<Rightarrow> []
      | Some s \<Rightarrow> if s = endpoint_status_name (ep_status e) then []
          else [from_to ''status'' (JStr (endpoint_status_name (ep_status e))) (JStr s)])"

definition mod_endpoint :: "int \<Rightarrow> (webhook_endpoint \<Rightarrow> webhook_endpoint) \<Rightarrow> db \<Rightarrow> db" where
  "mod_endpoint i f d = d\<lparr>webhook_endpoints := tupd ep_id i f (webhook_endpoints d)\<rparr>"

definition update_webhook :: "account \<Rightarrow> int \<Rightarrow> webhook_patch \<Rightarrow> db \<Rightarrow> (webhook_endpoint \<times> db) result" where
  "update_webhook a endpoint_id p d =
     rbind (guard (opt_all webhook_url_ok (wp_url p)) validation_error) (\<lambda>_.
     rbind (load_endpoint a endpoint_id d) (\<lambda>e.
     if endpoint_changes p e = [] then Inr (e, d)
     else Inr (patched_endpoint p e,
       audit_record (Some a) ''webhook.updated'' ''WebhookEndpoint'' (ep_id e) [(''changes'', JObj (endpoint_changes p e))]
         (mod_endpoint (ep_id e) (patched_endpoint p) d))))"

definition delete_webhook :: "account \<Rightarrow> int \<Rightarrow> db \<Rightarrow> (webhook_endpoint \<times> db) result" where
  "delete_webhook a endpoint_id d =
     rbind (load_endpoint a endpoint_id d) (\<lambda>e.
     Inr (e, audit_record (Some a) ''webhook.deleted'' ''WebhookEndpoint'' endpoint_id [(''url'', JStr (ep_url e))]
       (d\<lparr>event_deliveries := filter (\<lambda>r. dl_endpoint_id r \<noteq> ep_id e) (event_deliveries d),
          webhook_endpoints := filter (\<lambda>x. ep_id x \<noteq> ep_id e) (webhook_endpoints d)\<rparr>)))"

definition rotate_webhook_secret :: "account \<Rightarrow> string \<Rightarrow> int \<Rightarrow> db \<Rightarrow> (string \<times> db) result" where
  "rotate_webhook_secret a secret endpoint_id d =
     rbind (load_endpoint a endpoint_id d) (\<lambda>e.
     Inr (secret, audit_record (Some a) ''webhook.secret_rotated'' ''WebhookEndpoint'' (ep_id e) [(''url'', JStr (ep_url e))]
       (mod_endpoint (ep_id e) (\<lambda>e. e\<lparr>ep_secret_key := secret\<rparr>) d)))"

section \<open>Requests of merchants\<close>

datatype endpoint_request =
    CreateWebhook string webhook_create
  | PatchWebhook int webhook_patch
  | DeleteWebhook int
  | RotateSecret string int

fun handle_endpoint :: "account \<times> endpoint_request \<Rightarrow> db \<Rightarrow> db result" where
  "handle_endpoint (a, CreateWebhook secret b) d = dropping (create_webhook a secret b d)"
| "handle_endpoint (a, PatchWebhook i p) d = dropping (update_webhook a i p d)"
| "handle_endpoint (a, DeleteWebhook i) d = dropping (delete_webhook a i d)"
| "handle_endpoint (a, RotateSecret secret i) d = dropping (rotate_webhook_secret a secret i d)"

definition endpoint_step :: "account \<times> endpoint_request \<Rightarrow> db \<Rightarrow> db" where
  "endpoint_step r d = (case handle_endpoint r d of Inl _ \<Rightarrow> d | Inr d' \<Rightarrow> d')"

definition endpoints_ok :: "db \<Rightarrow> bool" where
  "endpoints_ok d \<longleftrightarrow>
     distinct_keys ep_id (webhook_endpoints d) \<and>
     list_all (\<lambda>e. webhook_url_ok (ep_url e)) (webhook_endpoints d) \<and>
     list_all (\<lambda>r. dl_endpoint_id r \<in> ep_id ` set (webhook_endpoints d)) (event_deliveries d)"

section \<open>What the requests keep\<close>

lemma load_endpoint_Inr:
  assumes "load_endpoint a i d = Inr e"
  shows "e \<in> set (webhook_endpoints d)" "ep_account_id e = acc_id a" "ep_id e = i"
proof -
  have "scalar_one_or_none (filter (\<lambda>e. ep_id e = i) (own_endpoints (acc_id a) d)) = Inr (Some e)"
    using assms by (auto simp: load_endpoint_def split: option.splits)
  then have "e \<in> set (own_endpoints (acc_id a) d) \<and> ep_id e = i"
    by (rule scalar_one_or_none_mem)
  then show "e \<in> set (webhook_endpoints d)" "ep_account_id e = acc_id a" "ep_id e = i"
    by (simp_all add: own_endpoints_def)
qed

lemma endpoints_audit [simp]:
  "webhook_endpoints (audit_record x y z i e d) = webhook_endpoints d"
  "event_deliveries (audit_record x y z i e d) = event_deliveries d"
  "endpoints_ok (audit_record x y z i e d) = endpoints_ok d"
  "own_endpoints j (audit_record x y z i e d) = own_endpoints j d"
  by (simp_all add: audit_record_def endpoints_ok_def own_endpoints_def)

text \<open>The three shapes a request gives the tables.\<close>

lemma endpoints_added:
  assumes "endpoints_ok d" "webhook_url_ok (wc_url b)"
  shows "endpoints_ok (d\<lparr>webhook_endpoints := tadd (new_endpoint a secret b d) (webhook_endpoints d)\<rparr>)"
  using assms distinct_keys_tadd_fresh [of ep_id "webhook_endpoints d" "new_endpoint a secret b d"]
  by (auto simp: endpoints_ok_def list_all_iff tadd_def new_endpoint_def)

lemma endpoints_changed:
  assumes "endpoints_ok d" "\<And>e. ep_id (f e) = ep_id e" "\<And>e. webhook_url_ok (ep_url e) \<Longrightarrow> webhook_url_ok (ep_url (f e))"
  shows "endpoints_ok (mod_endpoint i f d)"
proof -
  have ids: "map ep_id (tupd ep_id i f (webhook_endpoints d)) = map ep_id (webhook_endpoints d)"
    using assms(2) by (simp add: tupd_def)
  then have "ep_id ` set (tupd ep_id i f (webhook_endpoints d)) = ep_id ` set (webhook_endpoints d)"
    by (metis list.set_map)
  moreover have "list_all (\<lambda>e. webhook_url_ok (ep_url e)) (tupd ep_id i f (webhook_endpoints d))"
    using assms(1,3) by (auto simp: endpoints_ok_def list_all_iff tupd_def)
  ultimately show ?thesis
    using assms(1) ids by (simp add: endpoints_ok_def mod_endpoint_def distinct_keys_def)
qed

lemma endpoints_removed:
  assumes "endpoints_ok d"
  shows "endpoints_ok (d\<lparr>event_deliveries := filter (\<lambda>r. dl_endpoint_id r \<noteq> i) (event_deliveries d),
     webhook_endpoints := filter (\<lambda>x. ep_id x \<noteq> i) (webhook_endpoints d)\<rparr>)"
  using assms by (auto simp: endpoints_ok_def list_all_iff distinct_keys_def distinct_map_filter)

lemma patched_endpoint_keeps:
  "ep_id (patched_endpoint p e) = ep_id e" "ep_account_id (patched_endpoint p e) = ep_account_id e"
  "opt_all webhook_url_ok (wp_url p) \<Longrightarrow> webhook_url_ok (ep_url e) \<Longrightarrow> webhook_url_ok (ep_url (patched_endpoint p e))"
  by (auto simp: patched_endpoint_def opt_all_def split: option.splits)

lemma endpoint_request_ok:
  assumes "endpoints_ok d"
  shows "returns (handle_endpoint r d) endpoints_ok"
proof -
  obtain a rq where r: "r = (a, rq)"
    by force
  have "endpoints_ok d'" if "handle_endpoint r d = Inr d'" for d'
    using that unfolding r
  proof (cases rq)
    case (CreateWebhook secret b)
    then show ?thesis
      using that r endpoints_added [OF assms, of b a]
      by (auto simp: dropping_def create_webhook_def guard_def Let_def split: if_splits)
  next
    case (PatchWebhook i p)
    then show ?thesis
      using that r assms patched_endpoint_keeps endpoints_changed [OF assms, of "patched_endpoint p"]
      by (auto simp: dropping_def update_webhook_def guard_def split: if_splits)
  next
    case (DeleteWebhook i)
    then show ?thesis
      using that r endpoints_removed [OF assms] by (auto simp: dropping_def delete_webhook_def)
  next
    case (RotateSecret secret i)
    then show ?thesis
      using that r endpoints_changed [OF assms, of "\<lambda>e. e\<lparr>ep_secret_key := secret\<rparr>"]
      by (auto simp: dropping_def rotate_webhook_secret_def)
  qed
  then show ?thesis
    by (simp add: returns_def)
qed

interpretation endpoints: kept handle_endpoint endpoints_ok
  by unfold_locales (rule endpoint_request_ok)

definition owned :: "account \<Rightarrow> webhook_endpoint \<Rightarrow> db \<Rightarrow> bool" where
  "owned a e d \<longleftrightarrow> e \<in> set (webhook_endpoints d) \<and> ep_account_id e = acc_id a"

lemma endpoint_request_shape:
  assumes "handle_endpoint (a, rq) d = Inr d'"
  shows "plans d' = plans d \<and> plan_subscriptions d' = plan_subscriptions d \<and>
    (webhook_endpoints d' = webhook_endpoints d \<or>
     (\<exists>e. webhook_endpoints d' = webhook_endpoints d @ [e] \<and> ep_account_id e = acc_id a \<and> enforce_webhook_limit a d = Inr ()) \<or>
     (\<exists>e f. owned a e d \<and> (\<forall>x. ep_account_id (f x) = ep_account_id x) \<and>
        webhook_endpoints d' = tupd ep_id (ep_id e) f (webhook_endpoints d)) \<or>
     (\<exists>e. owned a e d \<and> webhook_endpoints d' = filter (\<lambda>x. ep_id x \<noteq> ep_id e) (webhook_endpoints d)))"
proof (cases rq)
  case (CreateWebhook secret b)
  then have "enforce_webhook_limit a d = Inr ()"
    "\<exists>s. webhook_endpoints d' = webhook_endpoints d @ [new_endpoint a s b d] \<and> plans d' = plans d \<and>
       plan_subscriptions d' = plan_subscriptions d"
    using assms by (auto simp: dropping_def create_webhook_def Let_def tadd_def audit_record_def)
  then show ?thesis
    by (auto simp: new_endpoint_def)
next
  case (PatchWebhook i p)
  then obtain e where "load_endpoint a i d = Inr e" "d' = d \<or> webhook_endpoints d' = tupd ep_id (ep_id e) (patched_endpoint p) (webhook_endpoints d)"
    "plans d' = plans d" "plan_subscriptions d' = plan_subscriptions d"
    using assms by (auto simp: dropping_def update_webhook_def mod_endpoint_def audit_record_def split: if_splits)
  then show ?thesis
    using load_endpoint_Inr [of a i d e] patched_endpoint_keeps(2) unfolding owned_def by metis
next
  case (DeleteWebhook i)
  then obtain e where "load_endpoint a i d = Inr e" "webhook_endpoints d' = filter (\<lambda>x. ep_id x \<noteq> ep_id e) (webhook_endpoints d)"
    "plans d' = plans d" "plan_subscriptions d' = plan_subscriptions d"
    using assms by (auto simp: dropping_def delete_webhook_def audit_record_def)
  then show ?thesis
    using load_endpoint_Inr [of a i d e] unfolding owned_def by metis
next
  case (RotateSecret secret i)
  then obtain e where "load_endpoint a i d = Inr e"
    "webhook_endpoints d' = tupd ep_id (ep_id e) (\<lambda>e. e\<lparr>ep_secret_key := secret\<rparr>) (webhook_endpoints d)"
    "plans d' = plans d" "plan_subscriptions d' = plan_subscriptions d"
    using assms by (auto simp: dropping_def rotate_webhook_secret_def mod_endpoint_def audit_record_def)
  then show ?thesis
    using load_endpoint_Inr [of a i d e] unfolding owned_def
    by (intro conjI disjI2 disjI1 exI [of _ e] exI [of _ "\<lambda>e. e\<lparr>ep_secret_key := secret\<rparr>"]) simp_all
qed

lemma own_mod:
  assumes "\<And>x. ep_account_id (f x) = ep_account_id x" "distinct_keys ep_id t" "e \<in> set t"
  shows "length (filter (\<lambda>x. ep_account_id x = j) (tupd ep_id (ep_id e) f t)) = length (filter (\<lambda>x. ep_account_id x = j) t)"
    and "ep_account_id e \<noteq> j \<Longrightarrow> filter (\<lambda>x. ep_account_id x = j) (tupd ep_id (ep_id e) f t) = filter (\<lambda>x. ep_account_id x = j) t"
proof -
  have acc: "ep_account_id (if ep_id x = i then f x else x) = ep_account_id x" for x i
    using assms(1) by simp
  show "length (filter (\<lambda>x. ep_account_id x = j) (tupd ep_id (ep_id e) f t)) = length (filter (\<lambda>x. ep_account_id x = j) t)"
    by (simp add: tupd_def filter_map o_def acc)
  assume j: "ep_account_id e \<noteq> j"
  have "x = e" if "x \<in> set t" "ep_id x = ep_id e" for x
    using rows.rows_eq [OF assms(2) that(1) assms(3) that(2)] .
  then have "map (\<lambda>x. if ep_id x = ep_id e then f x else x) (filter (\<lambda>x. ep_account_id x = j) t) = filter (\<lambda>x. ep_account_id x = j) t"
    using j by (intro map_idI) auto
  then show "filter (\<lambda>x. ep_account_id x = j) (tupd ep_id (ep_id e) f t) = filter (\<lambda>x. ep_account_id x = j) t"
    by (simp add: tupd_def filter_map o_def acc)
qed

lemma own_fewer: "int (length (filter P (filter Q t))) \<le> int (length (filter P t))"
  by (induction t) auto

lemma own_removed:
  assumes "distinct_keys ep_id t" "e \<in> set t" "ep_account_id e \<noteq> j"
  shows "filter (\<lambda>x. ep_account_id x = j) (filter (\<lambda>x. ep_id x \<noteq> ep_id e) t) = filter (\<lambda>x. ep_account_id x = j) t"
proof -
  have "x = e" if "x \<in> set t" "ep_id x = ep_id e" for x
    using rows.rows_eq [OF assms(1) that(1) assms(2) that(2)] .
  then show ?thesis
    using assms(3) by (auto intro!: filter_cong simp: filter_filter)
qed

definition within_plan :: "int \<Rightarrow> plan \<Rightarrow> db \<Rightarrow> bool" where
  "within_plan j pl d \<longleftrightarrow> endpoints_ok d \<and> get_active_plan j d = Inr (Some pl) \<and>
     int (length (own_endpoints j d)) \<le> plan_max_webhooks_per_account pl"

lemma request_within_plan:
  assumes "within_plan j pl d"
  shows "returns (handle_endpoint r d) (within_plan j pl)"
proof -
  obtain a rq where r: "r = (a, rq)"
    by force
  have ok: "endpoints_ok d" "distinct_keys ep_id (webhook_endpoints d)"
    and lim: "int (length (own_endpoints j d)) \<le> plan_max_webhooks_per_account pl" "get_active_plan j d = Inr (Some pl)"
    using assms by (auto simp: within_plan_def endpoints_ok_def)
  have "within_plan j pl d'" if res: "handle_endpoint (a, rq) d = Inr d'" for d'
  proof -
    note shape = endpoint_request_shape [OF res]
    have "get_active_plan j d' = Inr (Some pl)"
      using shape lim(2) by (simp add: get_active_plan_def)
    moreover have "int (length (own_endpoints j d')) \<le> plan_max_webhooks_per_account pl"
      using shape lim own_mod(1) [OF _ ok(2)]
      by (auto simp: own_endpoints_def owned_def enforce_webhook_limit_def simp del: filter_filter
          intro: order_trans [OF own_fewer] split: if_splits)
    ultimately show ?thesis
      using returnsD [OF endpoint_request_ok [OF ok(1)] res] by (simp add: within_plan_def)
  qed
  then show ?thesis
    by (simp add: returns_def r)
qed

interpretation planned: kept handle_endpoint "within_plan j pl" for j pl
  by unfold_locales (rule request_within_plan)

lemma foreign_request:
  assumes "endpoints_ok d" "acc_id a \<noteq> j" "handle_endpoint (a, rq) d = Inr d'"
  shows "own_endpoints j d' = own_endpoints j d"
proof -
  have "distinct_keys ep_id (webhook_endpoints d)"
    using assms(1) by (simp add: endpoints_ok_def)
  then show ?thesis
    using endpoint_request_shape [OF assms(3)] assms(2) own_mod(2) [of _ "webhook_endpoints d"] own_removed [of "webhook_endpoints d"]
    by (auto simp: own_endpoints_def owned_def simp del: filter_filter)
qed

lemma foreign_run:
  assumes "endpoints_ok d" "\<forall>r \<in> set history. acc_id (fst r) \<noteq> j"
  shows "own_endpoints j (fold endpoint_step history d) = own_endpoints j d"
  using assms
proof (induction history arbitrary: d)
  case (Cons r history)
  obtain a rq where r: "r = (a, rq)"
    by force
  have "own_endpoints j (endpoint_step r d) = own_endpoints j d"
    using foreign_request [OF Cons.prems(1), of a j rq] Cons.prems(2) r by (auto simp: endpoint_step_def split: sum.split)
  moreover have "endpoints_ok (endpoint_step r d)"
    unfolding endpoint_step_def by (rule endpoints.step_ok [OF Cons.prems(1)])
  ultimately show ?case
    using Cons.IH Cons.prems(2) by simp
qed simp

text \<open>C22. Whatever merchants request of their endpoints, and however often they are refused: every endpoint on
  file passes the check that keeps deliveries out of the platform's own network, every delivery refers
  to an endpoint that exists, an account within the limit of its plan stays within it, and the endpoints
  of an account that made no request are as they were.\<close>

theorem endpoint_requests_keep_limits:
  assumes "endpoints_ok d" "get_active_plan j d = Inr (Some pl)" "int (length (own_endpoints j d)) \<le> plan_max_webhooks_per_account pl"
  shows "endpoints_ok (fold endpoint_step history d) \<and>
    int (length (own_endpoints j (fold endpoint_step history d))) \<le> plan_max_webhooks_per_account pl \<and>
    ((\<forall>r \<in> set history. acc_id (fst r) \<noteq> i) \<longrightarrow> own_endpoints i (fold endpoint_step history d) = own_endpoints i d)"
proof -
  have step: "endpoint_step = (\<lambda>r d. case handle_endpoint r d of Inl _ \<Rightarrow> d | Inr d' \<Rightarrow> d')"
    by (intro ext) (simp add: endpoint_step_def)
  have "within_plan j pl (fold endpoint_step history d)"
    unfolding step by (rule planned.run_ok) (use assms in \<open>simp add: within_plan_def\<close>)
  then show ?thesis
    using foreign_run [OF assms(1)] by (simp add: within_plan_def)
qed

definition endpoint_db :: db where
  "endpoint_db = keyed_db\<lparr>webhook_endpoints := [], event_deliveries := []\<rparr>"

theorem endpoint_requests_keep_limits_witness:
  "endpoints_ok (fold endpoint_step
      [(sample_account, CreateWebhook ''s1'' \<lparr>wc_url = ''https://shop.example/hook'', wc_secret_key = None, wc_events = None\<rparr>),
       (sample_account, CreateWebhook ''s2'' \<lparr>wc_url = ''http://127.0.0.1/hook'', wc_secret_key = None, wc_events = None\<rparr>)] endpoint_db)"
proof -
  obtain pl where pl: "get_active_plan 3 endpoint_db = Inr (Some pl)" "0 \<le> plan_max_webhooks_per_account pl"
  proof -
    have "case get_active_plan 3 endpoint_db of Inl _ \<Rightarrow> False | Inr None \<Rightarrow> False
        | Inr (Some pl) \<Rightarrow> 0 \<le> plan_max_webhooks_per_account pl"
      by code_simp
    then show ?thesis
      using that by (cases "get_active_plan 3 endpoint_db") (auto split: option.splits)
  qed
  have d: "endpoints_ok endpoint_db" "own_endpoints 3 endpoint_db = []"
    by code_simp+
  then have "int (length (own_endpoints 3 endpoint_db)) \<le> plan_max_webhooks_per_account pl"
    using pl(2) by simp
  then show ?thesis
    using endpoint_requests_keep_limits [OF d(1) pl(1)] by blast
qed

text \<open>A status is stored as it comes: a text that is neither of the two states is accepted.\<close>

lemma any_status_text_accepted:
  "case fold endpoint_step
     [(sample_account, CreateWebhook ''s1'' \<lparr>wc_url = ''https://shop.example/hook'', wc_secret_key = None, wc_events = None\<rparr>),
      (sample_account, PatchWebhook 1 \<lparr>wp_url = None, wp_events = None, wp_status = Some ''Active'', wp_enabled = None\<rparr>)] endpoint_db
   of d \<Rightarrow> map ep_status (webhook_endpoints d) = [WEBHOOK_ENDPOINT_OTHER ''Active'']"
  by code_simp

end
