(* ===== verification/Spec2Isabelle.thy ===== *)
theory Spec2Isabelle
  imports Khqr Security Webhooks Calendar Stores Billing Payments Lifecycle
    Ratelimit Json Auth Keys Support Urls Console Operators
    Bakong Detection Workers Endpoints
begin

text \<open>
  Verification of ChmabaPay, a payment platform for Cambodian merchants (\<^verbatim>\<open>src/src/chmabapay\<close>).

  \<^bold>\<open>The program.\<close>  A merchant's store points at an ABA PayWay link.  Creating a payment mints a KHQR code on
  that link, either ABA's own hosted code or one the platform encodes; the customer pays by scanning it;
  workers ask the rails whether money arrived, settle the row, write the ledger and put an event in an
  outbox, from which webhooks are delivered to the merchant.  Plans are billed by invoices that are paid
  through the same payments.  Merchants sign in or call with API keys; operators have a console.

  \<^bold>\<open>One state.\<close>  \<open>Models\<close> has the tables of \<^verbatim>\<open>models.py\<close> as records and the database as the record \<open>db\<close> of lists of
  rows.  A handler or service is a function from \<open>db\<close> to \<open>result\<close>, which is either the exception the code
  raises or the value and the new database; a request that raises is rolled back.  Time is an argument,
  in microseconds; identifiers and secrets the code draws at random are arguments; HTTP, mail and
  cryptographic digests are arguments with the behaviour the code relies on as hypotheses.

  \<^bold>\<open>Theories and sources.\<close>
  \<^item> \<open>Prelude\<close>: results, Python's text and integer functions, tables with keys, and their lemmas.
  \<^item> \<open>Models\<close>: \<^verbatim>\<open>models.py\<close>, \<^verbatim>\<open>audit.py\<close>.  \<open>Json\<close>: base64 and the JSON reader and writer.  \<open>Calendar\<close>: months in UTC.
  \<^item> \<open>Khqr\<close>: \<^verbatim>\<open>khqr.py\<close>, the EMVCo encoder with its checksum.  It reads back, and it is refused only for the
    documented reasons.
  \<^item> \<open>Security\<close>: \<^verbatim>\<open>security.py\<close>, signatures of deliveries and password hashes.
  \<^item> \<open>Webhooks\<close>: \<^verbatim>\<open>webhooks.py\<close> and \<^verbatim>\<open>workers/w2_webhook_sender.py\<close>, the outbox, its fan-out and the sender.  A
    delivery ends after a bounded number of attempts, and the two senders agree.
  \<^item> \<open>Stores\<close>: \<^verbatim>\<open>services/stores.py\<close>, stores, their links, the allowance of a plan and the move of a slot.
  \<^item> \<open>Billing\<close>: \<^verbatim>\<open>services/billing.py\<close>, invoices, settlement, lapse, reminders, freezing.
  \<^item> \<open>Payments\<close>: \<^verbatim>\<open>services/payments.py\<close>, creating, reissuing, scanning, settling, refunding, expiring, quotas.
  \<^item> \<open>Lifecycle\<close>: these requests together.  The program refines an abstract machine of sales (\<open>sale_step\<close>):
    the interface is the locale \<open>forward_simulation\<close>, interpreted on the handlers.
  \<^item> \<open>Ratelimit\<close>: \<^verbatim>\<open>ratelimit.py\<close> and the lockout of sign-in, over the interface of an expiring cache (the
    locales \<open>ttl_cache\<close> and \<open>retentive_cache\<close>, interpreted on a bounded list).
  \<^item> \<open>Auth\<close>: \<^verbatim>\<open>auth.py\<close> and \<^verbatim>\<open>routers/auth.py\<close>, sessions, sign-in by password and by Google.
  \<^item> \<open>Keys\<close>: \<^verbatim>\<open>routers/keys.py\<close> and the resolution of an API key.  \<open>Support\<close>: \<^verbatim>\<open>services/support.py\<close>,
    \<^verbatim>\<open>routers/support.py\<close> and the operator's side of the queue.
  \<^item> \<open>Urls\<close>: the URL reader and the checks built on it.  \<open>Endpoints\<close>: \<^verbatim>\<open>routers/webhooks.py\<close>.
  \<^item> \<open>Console\<close> and \<open>Operators\<close>: \<^verbatim>\<open>routers/admin.py\<close>, its gates and its handlers that write.  What any sequence
    of requests keeps is proved once in the locale \<open>kept\<close>, interpreted on each set of handlers.
  \<^item> \<open>Bakong\<close>: \<^verbatim>\<open>services/bakong.py\<close>, the ledger's client.  \<open>Detection\<close>: \<^verbatim>\<open>services/status_reconciler.py\<close>,
    \<^verbatim>\<open>workers/w1_payment_detection.py\<close> and the hosted status of \<^verbatim>\<open>services/payway_parser.py\<close>.  What the ledger is
    taken to say it said, a payment is settled on the rail's word alone, and a watch that ended stays ended.
  \<^item> \<open>Workers\<close>: \<^verbatim>\<open>workers/job.py\<close>, \<^verbatim>\<open>base.py\<close>, \<^verbatim>\<open>inprocess.py\<close>, the sweepers W3 to W6 and \<^verbatim>\<open>services/retention.py\<close>.

  \<^bold>\<open>What is shown.\<close>  Money: a payment settles once, only on the rail's word, and its status only advances;
  its columns agree with one another whoever acted; a sale that was collected has no open replacement; an
  operator's settlement is the rail's.  Billing: its books stay consistent under every event and every
  console request; paying on time activates, paying late starts afresh.  Access: a session needs its
  signature, a dead key stays dead, nobody becomes an operator by signing in, the console needs a
  password session.  Limits: allowances of stores, keys, endpoints and requests.  Delivery: every job and
  every delivery is in one place, ends after a bounded number of attempts, and is signed so that the
  receiver's check accepts it.  The property below spans retention and detection.

  \<^bold>\<open>Bounds and fuel.\<close>  The JSON reader takes twice the length of its text plus two as fuel, which the round
  trip shows to be enough for what the writer produces.  The ledger's client takes the depth of nested
  renewals the interpreter's stack allows, as an argument.  Every other recursion is structural or has a
  termination proof.  Identifiers are unbounded integers, as Python's are; octets, checksums and packed
  digests are words of their width.

  \<^bold>\<open>Abstractions.\<close>  Characters are those below code point 256.  Amounts the ledger reports and floats in a token
  are exact decimals where the code compares floats.  A transaction is atomic: the code's concurrent
  requests interleave as whole requests, the queue's calls as whole calls; where the code swallows an
  exception and commits what was written before it (the reconciliation of a payment), those writes are
  part of the model.  An operation reads the clock once, also where the code reads it several times within
  a few lines; the second readings that end up beside a first one in a row the properties speak of are
  arguments of their own (the approval of a settlement, the flush of a support message).  Instants and
  nested values inside stored documents stand for the texts Python prints of them.

  \<^bold>\<open>Not modelled.\<close>  What only reads and formats: the lists, detail pages and reports of the console and of
  merchants, the exports, the checkout page and the public pages.  What is input and output: the database
  engine and migrations, the Redis transport, mail and Telegram, observability and health checks, the
  command line, the process entry points, the test tools, the browser applications.  The scraper of the
  PayWay link page is an argument of the checks that use it: it reads a third party's markup.
\<close>

section \<open>Retention and detection\<close>

text \<open>C35. Retention never takes what detection still needs and leaves nothing behind: when the retention is no
  shorter than twice the detection window, a purge leaves every payment that is watched or due for its
  last look exactly as it was; no older payment keeps a gateway answer; every other column of every
  payment is kept; and a second purge finds nothing to do.\<close>

theorem retention_spares_watched_payments:
  assumes "0 < n" "0 \<le> detection_window_seconds s" "2 * detection_window_seconds s \<le> 86400 * n"
  shows "(\<forall>p \<in> set (payments d). now - detection_window s - detection_window s \<le> pay_created_at p \<longrightarrow>
       p \<in> set (payments (snd (purge_gateway_payloads n now d)))) \<and>
    (\<forall>p \<in> set (payments (snd (purge_gateway_payloads n now d))).
       pay_created_at p < now - days n \<longrightarrow> pay_gateway_status_raw p = None) \<and>
    map without_gateway (payments (snd (purge_gateway_payloads n now d))) = map without_gateway (payments d) \<and>
    purge_gateway_payloads n now (snd (purge_gateway_payloads n now d)) = (0, snd (purge_gateway_payloads n now d))"
proof (intro conjI ballI impI)
  fix p
  assume "p \<in> set (payments d)" "now - detection_window s - detection_window s \<le> pay_created_at p"
  then show "p \<in> set (payments (snd (purge_gateway_payloads n now d)))"
    by (rule watched_keeps_session [OF assms(1,3,2)])
next
  fix p
  assume "p \<in> set (payments (snd (purge_gateway_payloads n now d)))" "pay_created_at p < now - days n"
  then show "pay_gateway_status_raw p = None"
    unfolding purge_rows [OF assms(1)] by (auto simp: past_retention_def without_gateway_def split: if_splits)
next
  show "map without_gateway (payments (snd (purge_gateway_payloads n now d))) = map without_gateway (payments d)"
    unfolding purge_rows [OF assms(1)] by (simp add: without_gateway_def)
qed (rule purge_again [OF assms(1)])

theorem retention_spares_watched_payments_witness:
  "purge_gateway_payloads 90 (days 91) (snd (purge_gateway_payloads 90 (days 91) hosted_db)) =
     (0, snd (purge_gateway_payloads 90 (days 91) hosted_db)) \<and>
   map without_gateway (payments (snd (purge_gateway_payloads 90 (days 91) hosted_db))) = map without_gateway (payments hosted_db)"
proof -
  have "0 \<le> detection_window_seconds default_settings" "2 * detection_window_seconds default_settings \<le> 86400 * 90"
    by (simp_all add: default_settings_def)
  then show ?thesis
    using retention_spares_watched_payments [of 90 default_settings hosted_db "days 91"] by simp
qed

end
